(* ===== verification/Rust_Ord.thy ===== *)
theory Rust_Ord
  imports Flexo_Prelude
begin

section \<open>Rust's Ord: comparison, lexicographic derivation, minimum and sorting by key\<close>

text \<open>
  The trait \<open>Ord\<close> is a comparison function. An implementation may panic (subtracting
  durations does), so the comparison returns an option; the locale \<open>rust_ord\<close> states what
  the iterator adaptors and sorts of the standard library rely on, over the values \<open>ok\<close> on
  which the implementation does not panic: a total preorder. A client that picks a minimum or
  sorts proves its facts once inside the locale.
\<close>

fun flip_ordering :: "ordering \<Rightarrow> ordering" where
  "flip_ordering Less = Greater"
| "flip_ordering Equal = Equal"
| "flip_ordering Greater = Less"

definition cmp_le :: "('o \<Rightarrow> 'o \<Rightarrow> ordering panics) \<Rightarrow> 'o \<Rightarrow> 'o \<Rightarrow> bool" where
  "cmp_le cmp x y \<longleftrightarrow> cmp x y = Some Less \<or> cmp x y = Some Equal"

text \<open>\<open>Ord::cmp\<close> of the primitive integer types.\<close>

definition cmp_lin :: "'k::linorder \<Rightarrow> 'k \<Rightarrow> ordering panics" where
  "cmp_lin x y = Some (if x < y then Less else if x = y then Equal else Greater)"

text \<open>What \<open>derive(Ord)\<close> generates: the next field decides only when the one before is equal.\<close>

definition then_cmp :: "ordering panics \<Rightarrow> ordering panics \<Rightarrow> ordering panics" where
  "then_cmp a b = (case a of None \<Rightarrow> None | Some Equal \<Rightarrow> b | Some r \<Rightarrow> Some r)"

text \<open>
  \<open>Iterator::min_by_key\<close> on pairs of an item and its key, given the first pair: the first
  minimal item wins (the later one is taken only when the comparison is \<open>Greater\<close>).
\<close>

fun min_by_key :: "('o \<Rightarrow> 'o \<Rightarrow> ordering panics) \<Rightarrow> 'a \<times> 'o \<Rightarrow> ('a \<times> 'o) list \<Rightarrow> ('a \<times> 'o) panics"
where
  "min_by_key cmp x [] = Some x"
| "min_by_key cmp x (y # ys) =
     (case cmp (snd x) (snd y) of
        None \<Rightarrow> None
      | Some Greater \<Rightarrow> min_by_key cmp y ys
      | Some _ \<Rightarrow> min_by_key cmp x ys)"

text \<open>
  A stable sort (\<open>slice::sort_by\<close>), as insertion before the first greater element from
  the right.
\<close>

fun insort_cmp :: "('a \<Rightarrow> 'a \<Rightarrow> ordering panics) \<Rightarrow> 'a \<Rightarrow> 'a list \<Rightarrow> 'a list panics" where
  "insort_cmp cmp x [] = Some [x]"
| "insort_cmp cmp x (y # ys) =
     (case cmp x y of
        None \<Rightarrow> None
      | Some Greater \<Rightarrow> map_option ((#) y) (insort_cmp cmp x ys)
      | Some _ \<Rightarrow> Some (x # y # ys))"

fun sort_cmp :: "('a \<Rightarrow> 'a \<Rightarrow> ordering panics) \<Rightarrow> 'a list \<Rightarrow> 'a list panics" where
  "sort_cmp cmp [] = Some []"
| "sort_cmp cmp (x # xs) =
     (case sort_cmp cmp xs of None \<Rightarrow> None | Some ys \<Rightarrow> insort_cmp cmp x ys)"

lemma min_by_key_in: "min_by_key cmp x ys = Some m \<Longrightarrow> m \<in> set (x # ys)"
  by (induction ys arbitrary: x) (auto split: option.splits ordering.splits)

locale rust_ord =
  fixes cmp :: "'o \<Rightarrow> 'o \<Rightarrow> ordering panics"
    and ok :: "'o \<Rightarrow> bool"
  assumes cmp_defined: "ok x \<Longrightarrow> ok y \<Longrightarrow> cmp x y \<noteq> None"
    and cmp_flip: "ok x \<Longrightarrow> ok y \<Longrightarrow> cmp y x = map_option flip_ordering (cmp x y)"
    and cmp_trans: "ok x \<Longrightarrow> ok y \<Longrightarrow> ok z \<Longrightarrow>
      cmp_le cmp x y \<Longrightarrow> cmp_le cmp y z \<Longrightarrow> cmp_le cmp x z"
begin

lemma le_refl:
  assumes "ok x"
  shows "cmp_le cmp x x"
proof -
  obtain r where r: "cmp x x = Some r" using cmp_defined [OF assms assms] by auto
  then have "r = flip_ordering r" using cmp_flip [OF assms assms] by simp
  with r show ?thesis by (cases r) (simp_all add: cmp_le_def)
qed

lemma not_le_iff: "ok x \<Longrightarrow> ok y \<Longrightarrow> \<not> cmp_le cmp x y \<longleftrightarrow> cmp x y = Some Greater"
  using cmp_defined [of x y] by (auto simp: cmp_le_def) (metis ordering.exhaust)

lemma greater_le: "ok x \<Longrightarrow> ok y \<Longrightarrow> cmp x y = Some Greater \<Longrightarrow> cmp_le cmp y x"
  using cmp_flip [of x y] by (simp add: cmp_le_def)

lemma le_total: "ok x \<Longrightarrow> ok y \<Longrightarrow> cmp_le cmp x y \<or> cmp_le cmp y x"
  using not_le_iff greater_le by blast

lemma min_by_key_defined:
  "ok (snd x) \<Longrightarrow> \<forall>y \<in> set ys. ok (snd y) \<Longrightarrow> \<exists>m. min_by_key cmp x ys = Some m"
proof (induction ys arbitrary: x)
  case Nil
  then show ?case by simp
next
  case (Cons y ys)
  then obtain r where "cmp (snd x) (snd y) = Some r"
    using cmp_defined [of "snd x" "snd y"] by auto
  with Cons.prems Cons.IH [of x] Cons.IH [of y] show ?case
    by (cases r) auto
qed

lemma min_by_key_least:
  assumes "min_by_key cmp x ys = Some m" and "ok (snd x)" and "\<forall>y \<in> set ys. ok (snd y)"
  shows "m \<in> set (x # ys)" and "y \<in> set (x # ys) \<Longrightarrow> cmp_le cmp (snd m) (snd y)"
proof -
  have "m \<in> set (x # ys) \<and> (\<forall>y \<in> set (x # ys). cmp_le cmp (snd m) (snd y))"
    using assms
  proof (induction ys arbitrary: x)
    case Nil
    then show ?case by (simp add: le_refl)
  next
    case (Cons y ys)
    have okx: "ok (snd x)" and oky: "ok (snd y)" and okys: "\<forall>z \<in> set ys. ok (snd z)"
      using Cons.prems by auto
    show ?case
    proof (cases "cmp (snd x) (snd y) = Some Greater")
      case True
      with Cons.prems have "min_by_key cmp y ys = Some m" by simp
      note IH = Cons.IH [OF this oky okys]
      have "cmp_le cmp (snd m) (snd y)" using IH by simp
      moreover have "cmp_le cmp (snd y) (snd x)" using greater_le [OF okx oky True] .
      moreover have "ok (snd m)" using IH oky okys by auto
      ultimately have "cmp_le cmp (snd m) (snd x)"
        using cmp_trans [of "snd m" "snd y" "snd x"] okx oky by simp
      with IH show ?thesis by auto
    next
      case False
      then have le: "cmp_le cmp (snd x) (snd y)" using not_le_iff okx oky by blast
      then have "min_by_key cmp x ys = Some m"
        using Cons.prems by (auto simp: cmp_le_def)
      note IH = Cons.IH [OF this okx okys]
      have "ok (snd m)" using IH okx okys by auto
      then have "cmp_le cmp (snd m) (snd y)"
        using cmp_trans [of "snd m" "snd x" "snd y"] le okx oky IH by simp
      with IH show ?thesis by auto
    qed
  qed
  then show "m \<in> set (x # ys)"
    and "y \<in> set (x # ys) \<Longrightarrow> cmp_le cmp (snd m) (snd y)" by blast+
qed

text \<open>Ties go to the earliest item: everything before the minimum is strictly greater.\<close>

lemma min_by_key_first:
  assumes "min_by_key cmp x ys = Some m" and "ok (snd x)" and "\<forall>y \<in> set ys. ok (snd y)"
  shows "\<exists>as bs. x # ys = as @ m # bs \<and> (\<forall>a \<in> set as. cmp (snd a) (snd m) = Some Greater)"
  using assms
proof (induction ys arbitrary: x)
  case Nil
  then have "[x] = [] @ m # []" by simp
  then show ?case by (metis empty_iff empty_set)
next
  case (Cons y ys)
  have okx: "ok (snd x)" and oky: "ok (snd y)" and okys: "\<forall>z \<in> set ys. ok (snd z)"
    using Cons.prems by auto
  show ?case
  proof (cases "cmp (snd x) (snd y) = Some Greater")
    case True
    with Cons.prems have rec: "min_by_key cmp y ys = Some m" by simp
    from Cons.IH [OF this oky okys] obtain as bs where
      split: "y # ys = as @ m # bs" and gt: "\<forall>a \<in> set as. cmp (snd a) (snd m) = Some Greater"
      by blast
    have "cmp_le cmp (snd m) (snd y)" and "ok (snd m)"
      using min_by_key_least [OF rec oky okys] oky okys by auto
    then have "\<not> cmp_le cmp (snd x) (snd m)"
      using cmp_trans [of "snd x" "snd m" "snd y"] True okx oky by (auto simp: cmp_le_def)
    then have "cmp (snd x) (snd m) = Some Greater"
      using not_le_iff okx \<open>ok (snd m)\<close> by blast
    with split gt have "x # y # ys = (x # as) @ m # bs \<and>
        (\<forall>a \<in> set (x # as). cmp (snd a) (snd m) = Some Greater)" by simp
    then show ?thesis by blast
  next
    case False
    then have le: "cmp_le cmp (snd x) (snd y)" using not_le_iff okx oky by blast
    then have rec: "min_by_key cmp x ys = Some m"
      using Cons.prems by (auto simp: cmp_le_def)
    from Cons.IH [OF this okx okys] obtain as bs where
      split: "x # ys = as @ m # bs" and gt: "\<forall>a \<in> set as. cmp (snd a) (snd m) = Some Greater"
      by blast
    show ?thesis
    proof (cases as)
      case Nil
      with split have "x # y # ys = [] @ m # y # ys" by simp
      then show ?thesis by (metis empty_iff empty_set)
    next
      case (Cons a as')
      with split gt have x: "cmp (snd x) (snd m) = Some Greater" and ys: "ys = as' @ m # bs"
        by auto
      have "ok (snd m)" using ys okys by simp
      then have "\<not> cmp_le cmp (snd x) (snd m)" using x by (simp add: cmp_le_def)
      then have "\<not> cmp_le cmp (snd y) (snd m)"
        using cmp_trans le okx oky \<open>ok (snd m)\<close> by blast
      then have "cmp (snd y) (snd m) = Some Greater"
        using not_le_iff oky \<open>ok (snd m)\<close> by blast
      with x gt Cons ys have "x # y # ys = (x # y # as') @ m # bs \<and>
          (\<forall>a \<in> set (x # y # as'). cmp (snd a) (snd m) = Some Greater)" by auto
      then show ?thesis by blast
    qed
  qed
qed

lemma insort_cmp_correct:
  "ok x \<Longrightarrow> \<forall>y \<in> set ys. ok y \<Longrightarrow> sorted_wrt (cmp_le cmp) ys \<Longrightarrow>
    \<exists>zs. insort_cmp cmp x ys = Some zs \<and> set zs = insert x (set ys) \<and>
      length zs = Suc (length ys) \<and> sorted_wrt (cmp_le cmp) zs"
proof (induction ys)
  case Nil
  then show ?case by simp
next
  case (Cons y ys)
  show ?case
  proof (cases "cmp x y = Some Greater")
    case True
    from Cons obtain zs where zs: "insort_cmp cmp x ys = Some zs" "set zs = insert x (set ys)"
      "length zs = Suc (length ys)" "sorted_wrt (cmp_le cmp) zs" by auto
    moreover have "cmp_le cmp y x" using True Cons.prems greater_le by simp
    ultimately show ?thesis using True Cons.prems by auto
  next
    case False
    then have le: "cmp_le cmp x y" using not_le_iff Cons.prems by auto
    then have "insort_cmp cmp x (y # ys) = Some (x # y # ys)"
      by (auto simp: cmp_le_def)
    moreover have "cmp_le cmp x z" if "z \<in> set ys" for z
      using that cmp_trans [of x y z] le Cons.prems by auto
    ultimately show ?thesis using le Cons.prems by auto
  qed
qed

lemma sort_cmp_correct:
  "\<forall>x \<in> set xs. ok x \<Longrightarrow>
    \<exists>zs. sort_cmp cmp xs = Some zs \<and> set zs = set xs \<and> length zs = length xs \<and>
      sorted_wrt (cmp_le cmp) zs"
proof (induction xs)
  case Nil
  then show ?case by simp
next
  case (Cons x xs)
  then obtain ys where "sort_cmp cmp xs = Some ys" "set ys = set xs" "length ys = length xs"
    "sorted_wrt (cmp_le cmp) ys" by auto
  then show ?case using insort_cmp_correct [of x ys] Cons.prems by auto
qed

end

subsection \<open>Permutation, whatever the comparison\<close>

lemma insort_cmp_set: "insort_cmp cmp x ys = Some zs \<Longrightarrow> set zs = insert x (set ys)"
  by (induction ys arbitrary: zs) (auto split: option.splits ordering.splits)

lemma sort_cmp_set: "sort_cmp cmp xs = Some ys \<Longrightarrow> set ys = set xs"
proof (induction xs arbitrary: ys)
  case Nil
  then show ?case by simp
next
  case (Cons x xs)
  then show ?case by (auto split: option.splits dest: insort_cmp_set)
qed

subsection \<open>Instances\<close>

lemma rust_ord_linI: "rust_ord cmp_lin (\<lambda>_ :: 'k::linorder. True)"
  by unfold_locales (auto simp: cmp_lin_def cmp_le_def split: if_splits)

text \<open>A comparison through a key that the implementation computes, if it does not panic.\<close>

lemma rust_ord_keyI:
  assumes "rust_ord cmp ok" and "\<And>x. ok' x \<Longrightarrow> ok (f x)"
    and "\<And>x y. ok' x \<Longrightarrow> ok' y \<Longrightarrow> cmp' x y = cmp (f x) (f y)"
  shows "rust_ord cmp' ok'"
proof -
  note laws = rust_ord.cmp_defined [OF assms(1)] rust_ord.cmp_flip [OF assms(1)]
  have le: "cmp_le cmp' x y \<longleftrightarrow> cmp_le cmp (f x) (f y)" if "ok' x" "ok' y" for x y
    using that by (simp add: cmp_le_def assms(3))
  show ?thesis
  proof
    show "cmp' x y \<noteq> None" if "ok' x" "ok' y" for x y
      using laws(1) [of "f x" "f y"] that by (simp only: assms) blast
    show "cmp' y x = map_option flip_ordering (cmp' x y)" if "ok' x" "ok' y" for x y
      using laws(2) [of "f x" "f y"] that by (simp add: assms)
    show "cmp_le cmp' x z" if "ok' x" "ok' y" "ok' z" "cmp_le cmp' x y" "cmp_le cmp' y z" for x y z
      using rust_ord.cmp_trans [OF assms(1), of "f x" "f y" "f z"] that by (simp add: le assms(2))
  qed
qed

subsection \<open>Lexicographic order\<close>

text \<open>Two comparisons of the same values, combined as \<open>derive(Ord)\<close> combines two fields.\<close>

lemma rust_ord_lin_key: "rust_ord (\<lambda>x y. cmp_lin (f x) (f y)) ok" for f :: "'a \<Rightarrow> 'k::linorder"
  by (rule rust_ord_keyI [OF rust_ord_linI]) simp_all

locale rust_ord_lex =
  fst_ord: rust_ord cmp1 ok + snd_ord: rust_ord cmp2 ok
  for cmp1 :: "'o \<Rightarrow> 'o \<Rightarrow> ordering panics" and cmp2 :: "'o \<Rightarrow> 'o \<Rightarrow> ordering panics"
    and ok :: "'o \<Rightarrow> bool"
begin

lemma lex_le_iff:
  "ok x \<Longrightarrow> ok y \<Longrightarrow> cmp_le (\<lambda>x y. then_cmp (cmp1 x y) (cmp2 x y)) x y \<longleftrightarrow>
    cmp_le cmp1 x y \<and> (cmp_le cmp1 y x \<longrightarrow> cmp_le cmp2 x y)"
  using fst_ord.cmp_flip [of x y] fst_ord.cmp_defined [of x y]
  by (auto simp: cmp_le_def then_cmp_def split: option.splits ordering.splits)

end

sublocale rust_ord_lex \<subseteq> lex: rust_ord "\<lambda>x y. then_cmp (cmp1 x y) (cmp2 x y)" ok
proof
  fix x y assume ok: "ok x" "ok y"
  show "then_cmp (cmp1 x y) (cmp2 x y) \<noteq> None"
    using fst_ord.cmp_defined [OF ok] snd_ord.cmp_defined [OF ok]
    by (auto simp: then_cmp_def split: option.splits ordering.splits)
  show "then_cmp (cmp1 y x) (cmp2 y x) = map_option flip_ordering (then_cmp (cmp1 x y) (cmp2 x y))"
    using fst_ord.cmp_flip [OF ok] snd_ord.cmp_flip [OF ok]
    by (auto simp: then_cmp_def split: option.splits ordering.splits)
next
  fix x y z assume "ok x" "ok y" "ok z"
    and "cmp_le (\<lambda>x y. then_cmp (cmp1 x y) (cmp2 x y)) x y"
    and "cmp_le (\<lambda>x y. then_cmp (cmp1 x y) (cmp2 x y)) y z"
  then show "cmp_le (\<lambda>x y. then_cmp (cmp1 x y) (cmp2 x y)) x z"
    using fst_ord.cmp_trans [of x y z] fst_ord.cmp_trans [of y z x] fst_ord.cmp_trans [of z x y]
      snd_ord.cmp_trans [of x y z]
    by (auto simp: lex_le_iff)
qed

end
