(* ===== verification/Provider_Guards.thy ===== *)
theory Provider_Guards
  imports Rust_Ord
begin

section \<open>Provider guards (provider\_guards.rs)\<close>

text \<open>
  \<open>ProviderGuards\<close> is a vector of reference-counted providers. The strong count of an
  \<open>Arc\<close> is one for the vector's own reference plus one for each guard handed out, so a guard
  is a provider with its count, a guard handed out is the index of the vector's entry it shares
  (\<open>SharedGuard\<close>) or a fresh \<open>Arc\<close> (\<open>OwnGuard\<close>, from \<open>ProviderGuard::new\<close>), and
  dropping it decrements the count. The mutex makes a selection atomic.
\<close>

record 'p provider_guard =
  guarded_provider :: 'p
  strong_count :: nat

datatype 'o provider_choice = Include 'o | Exclude

datatype 'p guard_handle = SharedGuard nat 'p | OwnGuard 'p

type_synonym 'p provider_guards = "'p provider_guard list"

definition provider_guard_new :: "'p \<Rightarrow> 'p provider_guard" where
  "provider_guard_new p = \<lparr>guarded_provider = p, strong_count = 1\<rparr>"

definition provider_guards_new :: "'p list \<Rightarrow> 'p provider_guards" where
  "provider_guards_new items = map provider_guard_new items"

definition num_current_usages :: "'p provider_guard \<Rightarrow> nat" where
  "num_current_usages g = strong_count g"

fun handle_provider :: "'p guard_handle \<Rightarrow> 'p" where
  "handle_provider (SharedGuard i p) = p"
| "handle_provider (OwnGuard p) = p"

definition guard_choice :: "('p \<Rightarrow> nat \<Rightarrow> 'o provider_choice) \<Rightarrow> 'p provider_guard \<Rightarrow> 'o option" where
  "guard_choice mirror_score g =
     (case mirror_score (guarded_provider g) (num_current_usages g) of
        Include score \<Rightarrow> Some score
      | Exclude \<Rightarrow> None)"

text \<open>The \<open>filter_map\<close>: the included guards, by index, with their scores.\<close>

definition guards_with_scores ::
  "('p \<Rightarrow> nat \<Rightarrow> 'o provider_choice) \<Rightarrow> 'p provider_guards \<Rightarrow> (nat \<times> 'o) list" where
  "guards_with_scores mirror_score guards =
     List.map_filter (\<lambda>(i, g). map_option (Pair i) (guard_choice mirror_score g))
       (enumerate 0 guards)"

definition arc_clone :: "nat \<Rightarrow> 'p provider_guards \<Rightarrow> 'p provider_guards" where
  "arc_clone i guards = guards[i := (guards ! i)\<lparr>strong_count := strong_count (guards ! i) + 1\<rparr>]"

fun drop_guard :: "'p guard_handle \<Rightarrow> 'p provider_guards \<Rightarrow> 'p provider_guards" where
  "drop_guard (SharedGuard i p) guards =
     guards[i := (guards ! i)\<lparr>strong_count := strong_count (guards ! i) - 1\<rparr>]"
| "drop_guard (OwnGuard p) guards = guards"

declare drop_guard.simps(1) [simp del]

text \<open>
  \<open>get_provider_guard\<close>: panics (\<open>unwrap\<close> of \<open>min_by_key\<close> on an empty iterator) when every
  provider is excluded, and when a comparison of scores panics.
\<close>

definition get_provider_guard ::
  "('o \<Rightarrow> 'o \<Rightarrow> ordering panics) \<Rightarrow> ('p \<Rightarrow> nat \<Rightarrow> 'o provider_choice) \<Rightarrow> 'p provider_guards \<Rightarrow>
    (('p guard_handle \<times> nat) \<times> 'p provider_guards) panics" where
  "get_provider_guard cmp mirror_score guards =
     (case guards_with_scores mirror_score guards of
        [] \<Rightarrow> None
      | x # xs \<Rightarrow>
         (case min_by_key cmp x xs of
            None \<Rightarrow> None
          | Some (i, _) \<Rightarrow>
              Some ((SharedGuard i (guarded_provider (guards ! i)), length (x # xs)),
                    arc_clone i guards)))"

subsection \<open>What the operations leave alone\<close>

abbreviation guard_providers :: "'p provider_guards \<Rightarrow> 'p list" where
  "guard_providers guards \<equiv> map guarded_provider guards"

abbreviation guard_counts :: "'p provider_guards \<Rightarrow> nat list" where
  "guard_counts guards \<equiv> map strong_count guards"

lemma provider_guards_new_providers [simp]: "guard_providers (provider_guards_new ps) = ps"
  by (induction ps) (auto simp: provider_guards_new_def provider_guard_new_def)

lemma arc_clone_providers [simp, frame_simps]: "guard_providers (arc_clone i gs) = guard_providers gs"
  by (simp add: arc_clone_def map_update_same)

lemma drop_guard_providers [simp, frame_simps]: "guard_providers (drop_guard h gs) = guard_providers gs"
  by (cases h) (simp_all add: drop_guard.simps(1) map_update_same)

lemma arc_clone_length [simp]: "length (arc_clone i gs) = length gs"
  by (simp add: arc_clone_def)

lemma drop_guard_length [simp]: "length (drop_guard h gs) = length gs"
  by (cases h) (simp_all add: drop_guard.simps(1))

lemma drop_clone [simp]: "drop_guard (SharedGuard i p) (arc_clone i gs) = gs"
  by (cases "i < length gs") (simp_all add: drop_guard.simps(1) arc_clone_def not_less list_update_beyond)

subsection \<open>The candidates\<close>

lemma in_guards_with_scores:
  "(i, s) \<in> set (guards_with_scores ms gs) \<longleftrightarrow> i < length gs \<and> guard_choice ms (gs ! i) = Some s"
  proof -
  have "(i, s) \<in> set (guards_with_scores ms gs) \<longleftrightarrow>
      (\<exists>p. p \<in> set (enumerate 0 gs) \<and> map_option (Pair (fst p)) (guard_choice ms (snd p)) = Some (i, s))"
    by (simp add: guards_with_scores_def set_map_filter_iff split_beta Bex_def del: map_option_eq_Some)
  also have "\<dots> \<longleftrightarrow> i < length gs \<and> guard_choice ms (gs ! i) = Some s"
    by (auto simp: in_set_enumerate_eq intro!: exI [of _ "(i, gs ! i)"])
  finally show ?thesis .
qed

lemma guards_with_scores_sorted: "sorted_wrt (<) (map fst (guards_with_scores ms gs))"
proof -
  have "sorted_wrt (<) (map fst (List.map_filter (\<lambda>(i, g). map_option (Pair i) (f g)) (enumerate n gs)))"
    for f :: "'b provider_guard \<Rightarrow> 'c option" and n and gs :: "'b provider_guard list"
  proof (induction gs arbitrary: n)
    case Nil
    then show ?case by simp
  next
    case (Cons g gs)
    then show ?case
      by (auto simp: List.map_filter_simps set_map_filter_iff in_set_enumerate_eq split: option.splits)
  qed
  then show ?thesis by (simp add: guards_with_scores_def)
qed

lemma guards_with_scores_distinct: "distinct (map fst (guards_with_scores ms gs))"
  using guards_with_scores_sorted strict_sorted_iff by blast

text \<open>
  The number of candidates, as a count over the providers when the choice to include depends on
  the provider alone (as it does in \<open>select_provider\<close>, where only the score looks at usages).
\<close>

lemma guards_with_scores_length:
  assumes "\<And>g. g \<in> set gs \<Longrightarrow> guard_choice ms g = None \<longleftrightarrow> \<not> inc (guarded_provider g)"
  shows "length (guards_with_scores ms gs) = length (filter inc (guard_providers gs))"
proof -
  have "length (List.map_filter (\<lambda>(i, g). map_option (Pair i) (guard_choice ms g)) (enumerate n gs)) =
      length (filter inc (guard_providers gs))" for n
    using assms
  proof (induction gs arbitrary: n)
    case Nil
    then show ?case by simp
  next
    case (Cons g gs)
    then have IH: "length (List.map_filter (\<lambda>(i, g). map_option (Pair i) (guard_choice ms g))
        (enumerate (Suc n) gs)) = length (filter inc (guard_providers gs))" by simp
    from Cons.prems have "guard_choice ms g = None \<longleftrightarrow> \<not> inc (guarded_provider g)" by simp
    with IH show ?case by (cases "guard_choice ms g") (simp_all add: List.map_filter_simps)
  qed
  then show ?thesis by (simp add: guards_with_scores_def)
qed

text \<open>
  What a selection promises: a candidate whose score is least, the first such candidate, the
  number of candidates, one more reference to the selected provider and nothing else changed.
\<close>

definition guard_selected ::
  "('o \<Rightarrow> 'o \<Rightarrow> ordering panics) \<Rightarrow> ('p \<Rightarrow> nat \<Rightarrow> 'o provider_choice) \<Rightarrow> 'p provider_guards \<Rightarrow>
    nat \<Rightarrow> bool" where
  "guard_selected cmp ms gs i \<longleftrightarrow>
     i < length gs \<and>
     (\<exists>s. guard_choice ms (gs ! i) = Some s \<and>
        (\<forall>j < length gs. \<forall>t. guard_choice ms (gs ! j) = Some t \<longrightarrow>
           cmp_le cmp s t \<and> (j < i \<longrightarrow> cmp t s = Some Greater)))"

context rust_ord
begin

lemma get_provider_guard_selects:
  assumes "\<forall>g \<in> set gs. \<forall>s. guard_choice ms g = Some s \<longrightarrow> ok s"
    and "\<exists>g \<in> set gs. guard_choice ms g \<noteq> None"
  shows "\<exists>i. guard_selected cmp ms gs i \<and>
    get_provider_guard cmp ms gs =
      Some ((SharedGuard i (guarded_provider (gs ! i)), length (guards_with_scores ms gs)), arc_clone i gs)"
proof -
  from assms(2) obtain g s where g: "g \<in> set gs" "guard_choice ms g = Some s" by auto
  then obtain j where "j < length gs" "gs ! j = g" by (auto simp: in_set_conv_nth)
  with g have "(j, s) \<in> set (guards_with_scores ms gs)" by (simp add: in_guards_with_scores)
  then obtain x xs where cands: "guards_with_scores ms gs = x # xs"
    by (cases "guards_with_scores ms gs") auto
  have ok_all: "ok (snd c)" if "c \<in> set (x # xs)" for c
  proof -
    from that have "(fst c, snd c) \<in> set (guards_with_scores ms gs)" by (simp add: cands)
    then have "fst c < length gs" and "guard_choice ms (gs ! fst c) = Some (snd c)"
      by (simp_all only: in_guards_with_scores)
    then show ?thesis using assms(1) by auto
  qed
  then have okx: "ok (snd x)" and okxs: "\<forall>y \<in> set xs. ok (snd y)" by auto
  from min_by_key_defined [OF okx okxs] obtain m where m: "min_by_key cmp x xs = Some m" ..
  obtain i s where mi: "m = (i, s)" by (cases m)
  from min_by_key_first [OF m okx okxs] obtain as bs where
    split: "x # xs = as @ m # bs" and before: "\<forall>a \<in> set as. cmp (snd a) (snd m) = Some Greater"
    by blast
  have "(i, s) \<in> set (guards_with_scores ms gs)"
    using min_by_key_least(1) [OF m okx okxs] mi cands by simp
  then have i: "i < length gs" and s: "guard_choice ms (gs ! i) = Some s"
    by (auto simp: in_guards_with_scores)
  have "cmp_le cmp s t \<and> (j < i \<longrightarrow> cmp t s = Some Greater)"
    if "j < length gs" "guard_choice ms (gs ! j) = Some t" for j t
  proof -
    have jt: "(j, t) \<in> set (x # xs)" using that by (simp add: in_guards_with_scores cands [symmetric])
    have "cmp_le cmp s t" using min_by_key_least(2) [OF m okx okxs jt] mi by simp
    moreover have "cmp t s = Some Greater" if "j < i"
    proof -
      have "sorted_wrt (<) (map fst (as @ m # bs))"
        using guards_with_scores_sorted [of ms gs] by (simp add: cands split)
      then have "\<forall>b \<in> set bs. i < fst b" using mi by (auto simp: sorted_wrt_append)
      then have "(j, t) \<in> set as" using jt that split mi by auto
      with before mi show ?thesis by auto
    qed
    ultimately show ?thesis by blast
  qed
  with i s have "guard_selected cmp ms gs i" by (auto simp: guard_selected_def)
  moreover have "get_provider_guard cmp ms gs =
      Some ((SharedGuard i (guarded_provider (gs ! i)), length (guards_with_scores ms gs)), arc_clone i gs)"
    by (simp add: get_provider_guard_def cands m mi)
  ultimately show ?thesis by blast
qed

end

lemma get_provider_guard_all_excluded:
  "(\<And>g. g \<in> set gs \<Longrightarrow> guard_choice ms g = None) \<Longrightarrow> get_provider_guard cmp ms gs = None"
proof -
  assume none: "\<And>g. g \<in> set gs \<Longrightarrow> guard_choice ms g = None"
  have "guards_with_scores ms gs = []"
  proof (rule ccontr)
    assume "guards_with_scores ms gs \<noteq> []"
    then obtain i s where "(i, s) \<in> set (guards_with_scores ms gs)"
      by (cases "guards_with_scores ms gs") auto
    then show False using none by (auto simp: in_guards_with_scores)
  qed
  then show ?thesis by (simp add: get_provider_guard_def)
qed

lemma get_provider_guard_frame:
  "get_provider_guard cmp ms gs = Some ((h, n), gs') \<Longrightarrow>
    guard_providers gs' = guard_providers gs \<and> drop_guard h gs' = gs \<and>
    n = length (guards_with_scores ms gs) \<and>
    (\<exists>i. h = SharedGuard i (guarded_provider (gs ! i)) \<and> i < length gs \<and> guard_choice ms (gs ! i) \<noteq> None)"
proof -
  assume sel: "get_provider_guard cmp ms gs = Some ((h, n), gs')"
  then obtain x xs i s where cands: "guards_with_scores ms gs = x # xs"
    and m: "min_by_key cmp x xs = Some (i, s)"
    and eq: "h = SharedGuard i (guarded_provider (gs ! i))" "n = length (x # xs)" "gs' = arc_clone i gs"
    by (auto simp: get_provider_guard_def split: list.splits option.splits)
  have "(i, s) \<in> set (guards_with_scores ms gs)" using min_by_key_in [OF m] cands by simp
  then have "i < length gs" and "guard_choice ms (gs ! i) = Some s"
    by (simp_all add: in_guards_with_scores)
  with eq cands show ?thesis by auto
qed

end
