(* ===== verification/Order_Loop.thy ===== *)
theory Order_Loop
  imports Provider_Guards "HOL-Library.Sublist"
begin

section \<open>Serving an order: metrics, provider selection and the retry loop (lib.rs)\<close>

text \<open>
  The generic half of the program, written in \<open>lib.rs\<close> against the traits \<open>Provider\<close>,
  \<open>Order\<close>, \<open>Job\<close>, \<open>Channel\<close>. The trait functions are the fields of the record
  \<open>job_trait\<close>; the side effects an implementation has outside the library (files, network,
  progress messages) thread a world of a type of its own. The state several threads share is the
  record \<open>shared\<close>: the guards, the metrics and the idle channels, each behind its mutex; the
  steps of other threads between two lock acquisitions are the argument \<open>env\<close> of the loop.
\<close>

type_synonym provider_identifier = string

subsection \<open>Provider metrics\<close>

record provider_metrics =
  num_usages :: u32
  num_failures :: u32

definition provider_metrics_default :: provider_metrics where
  "provider_metrics_default = \<lparr>num_usages = 0, num_failures = 0\<rparr>"

type_synonym metrics_map = "provider_identifier \<rightharpoonup> provider_metrics"

definition punish :: "provider_identifier \<Rightarrow> metrics_map \<Rightarrow> metrics_map" where
  "punish ident m =
     (case m ident of
        Some p \<Rightarrow> m(ident \<mapsto> p\<lparr>num_failures := num_failures p + 1\<rparr>)
      | None \<Rightarrow> m(ident \<mapsto> provider_metrics_default))"

fun pardon :: "provider_identifier list \<Rightarrow> metrics_map \<Rightarrow> metrics_map" where
  "pardon [] m = m"
| "pardon (not_guilty # rest) m =
     pardon rest
       (case m not_guilty of
          Some v \<Rightarrow> m(not_guilty \<mapsto> v\<lparr>num_failures := num_failures v - 1\<rparr>)
        | None \<Rightarrow> m)"

text \<open>The last statement of \<open>select_provider\<close>: \<open>entry().and_modify().or_insert()\<close>.\<close>

definition record_usage :: "provider_identifier \<Rightarrow> metrics_map \<Rightarrow> metrics_map" where
  "record_usage ident m =
     (case m ident of
        Some e \<Rightarrow> m(ident \<mapsto> e\<lparr>num_usages := num_usages e + 1\<rparr>)
      | None \<Rightarrow> m(ident \<mapsto> \<lparr>num_usages = 1, num_failures = 0\<rparr>))"

definition metrics_or_default :: "metrics_map \<Rightarrow> provider_identifier \<Rightarrow> provider_metrics" where
  "metrics_or_default m ident =
     (case m ident of Some v \<Rightarrow> v | None \<Rightarrow> provider_metrics_default)"

definition failures :: "metrics_map \<Rightarrow> provider_identifier \<Rightarrow> u32" where
  "failures m ident = num_failures (metrics_or_default m ident)"

lemma failures_record_usage [simp]: "failures (record_usage x m) = failures m"
  by (rule ext) (simp add: failures_def metrics_or_default_def record_usage_def
      provider_metrics_default_def split: option.splits)

lemma dom_record_usage [simp]: "dom (record_usage x m) = insert x (dom m)"
  by (auto simp: record_usage_def split: option.splits)

lemma dom_punish [simp]: "dom (punish x m) = insert x (dom m)"
  by (auto simp: punish_def split: option.splits)

lemma failures_punish:
  "failures (punish x m) = (failures m)(x := if x \<in> dom m then failures m x + 1 else 0)"
  by (rule ext) (auto simp: failures_def metrics_or_default_def punish_def
      provider_metrics_default_def split: option.splits)

lemma dom_pardon [simp]: "dom (pardon xs m) = dom m"
  by (induction xs m rule: pardon.induct) (auto split: option.splits)

lemma failures_pardon:
  "set xs \<subseteq> dom m \<Longrightarrow> failures (pardon xs m) x = failures m x - of_nat (count_list xs x)"
proof (induction xs m rule: pardon.induct)
  case (1 m)
  then show ?case by simp
next
  case (2 y ys m)
  then obtain v where v: "m y = Some v" by auto
  let ?m = "m(y \<mapsto> v\<lparr>num_failures := num_failures v - 1\<rparr>)"
  have "set ys \<subseteq> dom ?m" using "2.prems" by auto
  then have "failures (pardon ys ?m) x = failures ?m x - of_nat (count_list ys x)"
    using "2.IH" unfolding v option.case by blast
  moreover have "failures ?m x = failures m x - (if y = x then 1 else 0)"
    using v by (auto simp: failures_def metrics_or_default_def)
  ultimately show ?case using v by simp
qed

subsection \<open>The trait functions\<close>

record 'c job_partially_completed =
  partial_channel :: 'c
  continue_at :: u64

record ('c, 'e) job_terminated =
  terminated_channel :: 'c
  job_error :: 'e

record ('c, 'p) job_completed =
  completed_channel :: 'c
  completed_provider :: 'p
  completed_size :: "64 word"

datatype ('p, 'c, 'e) job_result =
    Complete "('c, 'p) job_completed"
  | Partial "'c job_partially_completed"
  | JobError "('c, 'e) job_terminated"
  | Unavailable 'c
  | ClientError
  | UnexpectedInternalError

fun is_success :: "('p, 'c, 'e) job_result \<Rightarrow> bool" where
  "is_success (Complete _) = True"
| "is_success _ = False"

record 's dynamic_provider_metrics =
  dyn_num_failures :: u32
  dyn_num_current_usages :: nat
  dyn_initial_score :: 's

record cached_item =
  complete_size :: "u64 option"
  cached_size :: u64

datatype channel_establishment = NewChannel | ExistingChannel

datatype integration_test_message =
    ProviderSelected provider_identifier
  | ChannelEstablished channel_establishment
  | OrderError

datatype flexo_progress =
    ProgressUnavailable
  | JobSize u64
  | Progress u64
  | Completed
  | ProgressOrderError

record ('p, 'o, 's, 'c, 'oe, 'e, 'w) job_trait =
  identifier_of :: "'p \<Rightarrow> provider_identifier"
  initial_score :: "'p \<Rightarrow> 's"
  score_cmp :: "'s \<Rightarrow> 's \<Rightarrow> ordering panics"
  cacheable_cmp :: "'s dynamic_provider_metrics \<Rightarrow> 's dynamic_provider_metrics \<Rightarrow> ordering panics"
  uncacheable_cmp :: "'s dynamic_provider_metrics \<Rightarrow> 's dynamic_provider_metrics \<Rightarrow> ordering panics"
  is_cacheable :: "'o \<Rightarrow> bool"
  retryable :: "'o \<Rightarrow> bool"
  cache_state :: "'o \<Rightarrow> 'w \<Rightarrow> (cached_item option \<times> 'w) panics"
  new_channel :: "'o \<Rightarrow> bool \<Rightarrow> 'w \<Rightarrow> (('oe + 'c) \<times> 'w) panics"
  reuse_channel :: "'o \<Rightarrow> bool \<Rightarrow> 'c \<Rightarrow> 'w \<Rightarrow> (('oe + 'c) \<times> 'w) panics"
  serve_from_provider :: "'p \<Rightarrow> 'o \<Rightarrow> 'c \<Rightarrow> 'w \<Rightarrow> (('p, 'c, 'e) job_result \<times> 'w) panics"
  handle_error :: "'oe \<Rightarrow> ('p, 'c, 'e) job_result"
  send_progress :: "'o \<Rightarrow> flexo_progress \<Rightarrow> 'w \<Rightarrow> 'w"
  release_job_resources :: "'c \<Rightarrow> 'w \<Rightarrow> 'c \<times> 'w"

record ('p, 'c, 'w) shared =
  guards :: "'p provider_guards"
  metrics :: metrics_map
  channels :: "'p \<rightharpoonup> 'c"
  world :: 'w
  messages :: "integration_test_message list"

subsection \<open>Selecting a provider\<close>

definition mirror_choice ::
  "('p, 'o, 's, 'c, 'oe, 'e, 'w) job_trait \<Rightarrow> metrics_map \<Rightarrow> provider_identifier set \<Rightarrow>
    'p \<Rightarrow> nat \<Rightarrow> 's dynamic_provider_metrics provider_choice" where
  "mirror_choice tr m exclude p usages =
     (if identifier_of tr p \<in> exclude then Exclude
      else Include
        \<lparr>dyn_num_failures = num_failures (metrics_or_default m (identifier_of tr p)),
         dyn_num_current_usages = usages,
         dyn_initial_score = initial_score tr p\<rparr>)"

definition select_provider ::
  "('p, 'o, 's, 'c, 'oe, 'e, 'w) job_trait \<Rightarrow> 'o \<Rightarrow> 'p provider_guards \<Rightarrow> metrics_map \<Rightarrow>
    'p option \<Rightarrow> provider_identifier set \<Rightarrow>
    (('p guard_handle \<times> bool) \<times> 'p provider_guards \<times> metrics_map) panics" where
  "select_provider tr ord gs m custom_provider exclude =
     (case custom_provider of
        Some p \<Rightarrow> Some ((OwnGuard p, True), gs, m)
      | None \<Rightarrow>
         (case get_provider_guard
                 (if is_cacheable tr ord then cacheable_cmp tr else uncacheable_cmp tr)
                 (mirror_choice tr m exclude) gs of
            None \<Rightarrow> None
          | Some ((h, num_remaining), gs') \<Rightarrow>
              Some ((h, num_remaining \<le> 1), gs',
                    record_usage (identifier_of tr (handle_provider h)) m)))"

subsection \<open>One job\<close>

definition get_channel ::
  "('p, 'o, 's, 'c, 'oe, 'e, 'w) job_trait \<Rightarrow> 'p \<Rightarrow> 'o \<Rightarrow> bool \<Rightarrow> ('p, 'c, 'w) shared \<Rightarrow>
    (('oe + 'c \<times> channel_establishment) \<times> ('p, 'c, 'w) shared) panics" where
  "get_channel tr p ord last_chance s =
     (case channels s p of
        Some channel \<Rightarrow>
          map_option (\<lambda>(r, w). (map_sum id (\<lambda>c. (c, ExistingChannel)) r,
                                s\<lparr>channels := (channels s)(p := None), world := w\<rparr>))
            (reuse_channel tr ord last_chance channel (world s))
      | None \<Rightarrow>
          map_option (\<lambda>(r, w). (map_sum id (\<lambda>c. (c, NewChannel)) r, s\<lparr>world := w\<rparr>))
            (new_channel tr ord last_chance (world s)))"

definition send_test_message ::
  "integration_test_message \<Rightarrow> ('p, 'c, 'w) shared \<Rightarrow> ('p, 'c, 'w) shared" where
  "send_test_message msg s = s\<lparr>messages := messages s @ [msg]\<rparr>"

definition run_job ::
  "('p, 'o, 's, 'c, 'oe, 'e, 'w) job_trait \<Rightarrow> 'p \<Rightarrow> 'o \<Rightarrow> bool \<Rightarrow> ('p, 'c, 'w) shared \<Rightarrow>
    (('p, 'c, 'e) job_result \<times> ('p, 'c, 'w) shared) panics" where
  "run_job tr p ord last_chance s =
     (case get_channel tr p ord last_chance s of
        None \<Rightarrow> None
      | Some (Inr (channel, establishment), s1) \<Rightarrow>
          (let s2 = send_test_message (ChannelEstablished establishment) s1
           in map_option (\<lambda>(result, w). (result, s2\<lparr>world := w\<rparr>))
                (serve_from_provider tr p ord channel (world s2)))
      | Some (Inl e, s1) \<Rightarrow>
          (let s2 = send_test_message OrderError s1
           in Some (handle_error tr e, s2\<lparr>world := send_progress tr ord ProgressOrderError (world s2)\<rparr>)))"

subsection \<open>The retry loop\<close>

definition NUM_MAX_ATTEMPTS :: nat where
  "NUM_MAX_ATTEMPTS = 25"

datatype phase = BeforeSelect | BeforeChannel | BeforePunish | BeforePardon

fun punishable :: "('p, 'c, 'e) job_result \<Rightarrow> bool" where
  "punishable (Partial _) = True"
| "punishable (JobError _) = True"
| "punishable _ = False"

fun aborts :: "('p, 'c, 'e) job_result \<Rightarrow> bool" where
  "aborts ClientError = True"
| "aborts UnexpectedInternalError = True"
| "aborts _ = False"

text \<open>
  The body of the loop up to the decision whether to go on: the result, whether this was the
  last chance, the provider's identifier_of, the punished providers so far and the state after the
  guard was dropped.
\<close>

definition attempt ::
  "('p, 'o, 's, 'c, 'oe, 'e, 'w) job_trait \<Rightarrow>
    (nat \<Rightarrow> phase \<Rightarrow> ('p, 'c, 'w) shared \<Rightarrow> ('p, 'c, 'w) shared) \<Rightarrow> 'o \<Rightarrow> 'p option \<Rightarrow> nat \<Rightarrow>
    provider_identifier list \<Rightarrow> provider_identifier set \<Rightarrow> ('p, 'c, 'w) shared \<Rightarrow>
    (('p, 'c, 'e) job_result \<times> bool \<times> provider_identifier \<times> provider_identifier list \<times>
      ('p, 'c, 'w) shared) panics" where
  "attempt tr env ord custom_provider num_attempt punished unsuccessful s =
     (let s0 = env num_attempt BeforeSelect s in
      case select_provider tr ord (guards s0) (metrics s0) custom_provider unsuccessful of
        None \<Rightarrow> None
      | Some ((h, is_last_provider), gs, m) \<Rightarrow>
          (let p = handle_provider h;
               ident = identifier_of tr p;
               last_chance = (NUM_MAX_ATTEMPTS \<le> num_attempt \<or> is_last_provider \<or> \<not> retryable tr ord);
               s1 = send_test_message (ProviderSelected ident) (s0\<lparr>guards := gs, metrics := m\<rparr>)
           in case run_job tr p ord last_chance (env num_attempt BeforeChannel s1) of
                None \<Rightarrow> None
              | Some (result, s2) \<Rightarrow>
                  (let s3 = (if punishable result
                             then (let s2' = env num_attempt BeforePunish s2
                                   in s2'\<lparr>metrics := punish ident (metrics s2')\<rparr>)
                             else s2);
                       punished' = (if punishable result then punished @ [ident] else punished)
                   in Some (result, last_chance, ident, punished',
                            s3\<lparr>guards := drop_guard h (guards s3)\<rparr>))))"

text \<open>
  The channel in a result. A result that is not returned is dropped at the end of the iteration,
  and with it the channel and its resources.
\<close>

fun result_channel :: "('p, 'c, 'e) job_result \<Rightarrow> 'c option" where
  "result_channel (Complete job) = Some (completed_channel job)"
| "result_channel (Partial job) = Some (partial_channel job)"
| "result_channel (JobError job) = Some (terminated_channel job)"
| "result_channel (Unavailable ch) = Some ch"
| "result_channel ClientError = None"
| "result_channel UnexpectedInternalError = None"

definition drop_result ::
  "('p, 'o, 's, 'c, 'oe, 'e, 'w) job_trait \<Rightarrow> ('p, 'c, 'e) job_result \<Rightarrow> ('p, 'c, 'w) shared \<Rightarrow>
    ('p, 'c, 'w) shared" where
  "drop_result tr result s =
     (case result_channel result of
        None \<Rightarrow> s
      | Some ch \<Rightarrow> s\<lparr>world := snd (release_job_resources tr ch (world s))\<rparr>)"

lemma drop_result_frame [simp, frame_simps]:
  "guards (drop_result tr result s) = guards s" "metrics (drop_result tr result s) = metrics s"
  "channels (drop_result tr result s) = channels s" "messages (drop_result tr result s) = messages s"
  by (simp_all add: drop_result_def split: option.splits)

lemma attempt_last_chance:
  "attempt tr env ord cp n punished unsucc s = Some (result, last_chance, ident, punished', s') \<Longrightarrow>
    NUM_MAX_ATTEMPTS \<le> n \<Longrightarrow> last_chance"
  by (auto simp: attempt_def Let_def split: option.splits prod.splits)

function try_loop ::
  "('p, 'o, 's, 'c, 'oe, 'e, 'w) job_trait \<Rightarrow>
    (nat \<Rightarrow> phase \<Rightarrow> ('p, 'c, 'w) shared \<Rightarrow> ('p, 'c, 'w) shared) \<Rightarrow> 'o \<Rightarrow> 'p option \<Rightarrow> nat \<Rightarrow>
    provider_identifier list \<Rightarrow> provider_identifier set \<Rightarrow> ('p, 'c, 'w) shared \<Rightarrow>
    (('p, 'c, 'e) job_result \<times> provider_identifier list \<times> ('p, 'c, 'w) shared) panics" where
  "try_loop tr env ord custom_provider num_attempt punished unsuccessful s =
     (case attempt tr env ord custom_provider (Suc num_attempt) punished unsuccessful s of
        None \<Rightarrow> None
      | Some (result, last_chance, ident, punished', s') \<Rightarrow>
          if aborts result then Some (result, punished', s')
          else if is_success result \<or> last_chance then Some (result, punished', s')
          else try_loop tr env ord custom_provider (Suc num_attempt) punished'
                 (insert ident unsuccessful) (drop_result tr result s'))"
  by pat_completeness auto
termination
  by (relation "measure (\<lambda>(tr, env, ord, cp, n, punished, unsucc, s). NUM_MAX_ATTEMPTS - n)")
    (auto dest: attempt_last_chance simp: not_le)

declare try_loop.simps [simp del]

definition try_until_success ::
  "('p, 'o, 's, 'c, 'oe, 'e, 'w) job_trait \<Rightarrow>
    (nat \<Rightarrow> phase \<Rightarrow> ('p, 'c, 'w) shared \<Rightarrow> ('p, 'c, 'w) shared) \<Rightarrow> 'o \<Rightarrow> 'p option \<Rightarrow>
    ('p, 'c, 'w) shared \<Rightarrow> (('p, 'c, 'e) job_result \<times> ('p, 'c, 'w) shared) panics" where
  "try_until_success tr env ord custom_provider s =
     (case try_loop tr env ord custom_provider 0 [] {} s of
        None \<Rightarrow> None
      | Some (result, punished, s') \<Rightarrow>
          if \<not> is_success result
          then (let s'' = env 0 BeforePardon s'
                in Some (result, s''\<lparr>metrics := pardon punished (metrics s'')\<rparr>))
          else Some (result, s'))"

subsection \<open>The contract of the trait functions\<close>

text \<open>
  What the loop needs of an implementation: the scores are totally ordered on the providers'
  initial scores (\<open>score_ok\<close>), for cacheable and for uncacheable orders.
\<close>

locale job_provider =
  fixes tr :: "('p, 'o, 's, 'c, 'oe, 'e, 'w) job_trait" and score_ok :: "'s \<Rightarrow> bool"
  assumes score_ord: "rust_ord (score_cmp tr) score_ok"
    and cacheable_ord: "rust_ord (cacheable_cmp tr) (\<lambda>d. score_ok (dyn_initial_score d))"
    and uncacheable_ord: "rust_ord (uncacheable_cmp tr) (\<lambda>d. score_ok (dyn_initial_score d))"

text \<open>
  The steps of the other threads: they never replace the vector of providers and never send on
  this order's test channel. Everything else they may change.
\<close>

definition rely ::
  "(nat \<Rightarrow> phase \<Rightarrow> ('p, 'c, 'w) shared \<Rightarrow> ('p, 'c, 'w) shared) \<Rightarrow> bool" where
  "rely env \<longleftrightarrow> (\<forall>n ph s. guard_providers (guards (env n ph s)) = guard_providers (guards s) \<and>
     messages (env n ph s) = messages s)"

text \<open>Nobody steps in between.\<close>

definition no_interference ::
  "nat \<Rightarrow> phase \<Rightarrow> ('p, 'c, 'w) shared \<Rightarrow> ('p, 'c, 'w) shared" where
  "no_interference n ph s = s"

lemma no_interference [simp]: "no_interference n ph s = s"
  by (simp add: no_interference_def)

lemma rely_no_interference: "rely no_interference"
  by (simp add: rely_def)

text \<open>The trait functions a job calls return (they do not panic).\<close>

definition jobs_return :: "('p, 'o, 's, 'c, 'oe, 'e, 'w) job_trait \<Rightarrow> bool" where
  "jobs_return tr \<longleftrightarrow> (\<forall>p ord last_chance s. run_job tr p ord last_chance s \<noteq> None)"

lemma jobs_returnD: "jobs_return tr \<Longrightarrow> run_job tr p ord last_chance s \<noteq> None"
  unfolding jobs_return_def by blast

definition selected_providers :: "integration_test_message list \<Rightarrow> provider_identifier list" where
  "selected_providers ms =
     List.map_filter (\<lambda>m. case m of ProviderSelected i \<Rightarrow> Some i | _ \<Rightarrow> None) ms"

lemma selected_providers_append [simp]:
  "selected_providers (xs @ ys) = selected_providers xs @ selected_providers ys"
  by (simp add: selected_providers_def List.map_filter_def)

lemma selected_providers_simps [simp]:
  "selected_providers [] = []"
  "selected_providers (ProviderSelected i # ms) = i # selected_providers ms"
  "selected_providers (ChannelEstablished c # ms) = selected_providers ms"
  "selected_providers (OrderError # ms) = selected_providers ms"
  by (simp_all add: selected_providers_def List.map_filter_simps)

lemma relyD [simp]:
  "rely env \<Longrightarrow> guard_providers (guards (env n ph s)) = guard_providers (guards s)"
  "rely env \<Longrightarrow> messages (env n ph s) = messages s"
  by (simp_all add: rely_def)

subsection \<open>What one job leaves alone\<close>

lemma get_channel_frame:
  "get_channel tr p ord lc s = Some (r, s') \<Longrightarrow>
    guards s' = guards s \<and> metrics s' = metrics s \<and> messages s' = messages s"
  by (auto simp: get_channel_def split: option.splits)

lemma run_job_frame:
  "run_job tr p ord lc s = Some (r, s') \<Longrightarrow>
    guards s' = guards s \<and> metrics s' = metrics s \<and>
    selected_providers (messages s') = selected_providers (messages s)"
  by (auto simp: run_job_def Let_def send_test_message_def
      split: option.splits prod.splits sum.splits dest!: get_channel_frame)

subsection \<open>Selection\<close>

lemma select_provider_custom [simp]:
  "select_provider tr ord gs m (Some p) excl = Some ((OwnGuard p, True), gs, m)"
  by (simp add: select_provider_def)

lemma mirror_choice_guard:
  "guard_choice (mirror_choice tr m excl) g = None \<longleftrightarrow> identifier_of tr (guarded_provider g) \<in> excl"
  by (simp add: guard_choice_def mirror_choice_def)

lemma num_candidates:
  "length (guards_with_scores (mirror_choice tr m excl) gs) =
    length (filter (\<lambda>p. identifier_of tr p \<notin> excl) (guard_providers gs))"
  by (rule guards_with_scores_length) (simp add: mirror_choice_guard)

lemma select_provider_frame:
  assumes "select_provider tr ord gs m None excl = Some ((h, is_last), gs', m')"
  shows "guard_providers gs' = guard_providers gs" and "handle_provider h \<in> set (guard_providers gs)"
    and "identifier_of tr (handle_provider h) \<notin> excl"
    and "is_last \<longleftrightarrow> length (filter (\<lambda>p. identifier_of tr p \<notin> excl) (guard_providers gs)) \<le> 1"
    and "m' = record_usage (identifier_of tr (handle_provider h)) m"
    and "drop_guard h gs' = gs"
proof -
  from assms obtain n where sel:
    "get_provider_guard (if is_cacheable tr ord then cacheable_cmp tr else uncacheable_cmp tr)
        (mirror_choice tr m excl) gs = Some ((h, n), gs')"
    and eqs: "is_last \<longleftrightarrow> n \<le> 1" "m' = record_usage (identifier_of tr (handle_provider h)) m"
    by (auto simp: select_provider_def split: option.splits)
  from get_provider_guard_frame [OF sel] obtain i where
    i: "h = SharedGuard i (guarded_provider (gs ! i))" "i < length gs"
      "guard_choice (mirror_choice tr m excl) (gs ! i) \<noteq> None"
    and rest: "guard_providers gs' = guard_providers gs" "drop_guard h gs' = gs"
      "n = length (guards_with_scores (mirror_choice tr m excl) gs)" by blast
  show "guard_providers gs' = guard_providers gs" "drop_guard h gs' = gs" by (fact rest)+
  show "handle_provider h \<in> set (guard_providers gs)" using i by simp
  show "identifier_of tr (handle_provider h) \<notin> excl" using i by (simp add: mirror_choice_guard)
  show "is_last \<longleftrightarrow> length (filter (\<lambda>p. identifier_of tr p \<notin> excl) (guard_providers gs)) \<le> 1"
    using eqs rest by (simp add: num_candidates)
  show "m' = record_usage (identifier_of tr (handle_provider h)) m" by (fact eqs)
qed

context job_provider
begin

lemma selection_ord:
  "rust_ord (if is_cacheable tr ord then cacheable_cmp tr else uncacheable_cmp tr)
    (\<lambda>d. score_ok (dyn_initial_score d))"
  using cacheable_ord uncacheable_ord by simp

lemma select_provider_selects:
  assumes "\<forall>p \<in> set (guard_providers gs). score_ok (initial_score tr p)"
    and "\<exists>p \<in> set (guard_providers gs). identifier_of tr p \<notin> excl"
  shows "\<exists>i. guard_selected (if is_cacheable tr ord then cacheable_cmp tr else uncacheable_cmp tr)
           (mirror_choice tr m excl) gs i \<and>
         select_provider tr ord gs m None excl =
           Some ((SharedGuard i (guarded_provider (gs ! i)),
                  length (filter (\<lambda>p. identifier_of tr p \<notin> excl) (guard_providers gs)) \<le> 1),
                 arc_clone i gs, record_usage (identifier_of tr (guarded_provider (gs ! i))) m)"
proof -
  have "\<forall>g \<in> set gs. \<forall>s. guard_choice (mirror_choice tr m excl) g = Some s \<longrightarrow>
      score_ok (dyn_initial_score s)"
    using assms(1) by (auto simp: guard_choice_def mirror_choice_def split: if_splits)
  moreover have "\<exists>g \<in> set gs. guard_choice (mirror_choice tr m excl) g \<noteq> None"
    using assms(2) by (auto simp: mirror_choice_guard)
  ultimately obtain i where
    "guard_selected (if is_cacheable tr ord then cacheable_cmp tr else uncacheable_cmp tr)
      (mirror_choice tr m excl) gs i"
    and "get_provider_guard (if is_cacheable tr ord then cacheable_cmp tr else uncacheable_cmp tr)
      (mirror_choice tr m excl) gs =
        Some ((SharedGuard i (guarded_provider (gs ! i)),
               length (guards_with_scores (mirror_choice tr m excl) gs)), arc_clone i gs)"
    using rust_ord.get_provider_guard_selects [OF selection_ord] by metis
  then show ?thesis
    by (intro exI [of _ i]) (simp only: select_provider_def num_candidates option.case prod.case
        handle_provider.simps simp_thms)
qed

lemma select_provider_defined:
  assumes "\<forall>p \<in> set (guard_providers gs). score_ok (initial_score tr p)"
    and "\<exists>p \<in> set (guard_providers gs). identifier_of tr p \<notin> excl"
  shows "select_provider tr ord gs m None excl \<noteq> None"
  using select_provider_selects [OF assms, of ord m] by (elim exE conjE) simp

end

subsection \<open>One attempt\<close>

definition provider_ids ::
  "('p, 'o, 's, 'c, 'oe, 'e, 'w) job_trait \<Rightarrow> ('p, 'c, 'w) shared \<Rightarrow> provider_identifier list" where
  "provider_ids tr s = map (identifier_of tr) (guard_providers (guards s))"

lemma provider_ids_cong:
  "guard_providers (guards s') = guard_providers (guards s) \<Longrightarrow> provider_ids tr s' = provider_ids tr s"
  by (simp only: provider_ids_def)

lemma candidates_left:
  assumes "distinct (map f xs)" and "excl \<subseteq> f ` set xs"
  shows "length (filter (\<lambda>x. f x \<notin> excl) xs) = length xs - card excl"
proof -
  have "card (f ` set (filter (\<lambda>x. f x \<in> excl) xs)) = length (filter (\<lambda>x. f x \<in> excl) xs)"
    using assms(1) distinct_map_filter [of f xs "\<lambda>x. f x \<in> excl"] distinct_card [of "map f (filter (\<lambda>x. f x \<in> excl) xs)"]
    by simp
  moreover have "f ` set (filter (\<lambda>x. f x \<in> excl) xs) = excl" using assms(2) by auto
  ultimately have "length (filter (\<lambda>x. f x \<in> excl) xs) = card excl" by simp
  with sum_length_filter_compl [of "\<lambda>x. f x \<in> excl" xs] show ?thesis by simp
qed

lemma candidates_left_ids:
  assumes "distinct (provider_ids tr s)" and "excl \<subseteq> set (provider_ids tr s)"
  shows "length (filter (\<lambda>p. identifier_of tr p \<notin> excl) (guard_providers (guards s))) =
    length (provider_ids tr s) - card excl"
  using candidates_left [of "identifier_of tr" "guard_providers (guards s)" excl] assms
  unfolding provider_ids_def length_map set_map by blast

lemma attempt_SomeE:
  assumes "attempt tr env ord cp n punished unsucc s = Some (result, last_chance, ident, punished', s')"
  obtains h is_last gs m s2 s3 where
    "select_provider tr ord (guards (env n BeforeSelect s)) (metrics (env n BeforeSelect s)) cp unsucc =
      Some ((h, is_last), gs, m)"
    and "ident = identifier_of tr (handle_provider h)"
    and "last_chance = (NUM_MAX_ATTEMPTS \<le> n \<or> is_last \<or> \<not> retryable tr ord)"
    and "run_job tr (handle_provider h) ord last_chance
      (env n BeforeChannel (send_test_message (ProviderSelected ident)
        ((env n BeforeSelect s)\<lparr>guards := gs, metrics := m\<rparr>))) = Some (result, s2)"
    and "s3 = (if punishable result
               then (env n BeforePunish s2)\<lparr>metrics := punish ident (metrics (env n BeforePunish s2))\<rparr>
               else s2)"
    and "punished' = (if punishable result then punished @ [ident] else punished)"
    and "s' = s3\<lparr>guards := drop_guard h (guards s3)\<rparr>"
proof -
  from assms obtain h is_last gs m where
    sel: "select_provider tr ord (guards (env n BeforeSelect s)) (metrics (env n BeforeSelect s)) cp unsucc =
      Some ((h, is_last), gs, m)"
    unfolding attempt_def Let_def by (auto split: option.splits prod.splits)
  from assms obtain s2 where
    job: "run_job tr (handle_provider h) ord (NUM_MAX_ATTEMPTS \<le> n \<or> is_last \<or> \<not> retryable tr ord)
      (env n BeforeChannel (send_test_message (ProviderSelected (identifier_of tr (handle_provider h)))
        ((env n BeforeSelect s)\<lparr>guards := gs, metrics := m\<rparr>))) = Some (result, s2)"
    unfolding attempt_def Let_def sel option.case prod.case by (auto split: option.splits)
  show thesis
    by (rule that [of h is_last gs m s2 "if punishable result
        then (env n BeforePunish s2)\<lparr>metrics := punish ident (metrics (env n BeforePunish s2))\<rparr> else s2"])
      (use assms job sel in \<open>auto simp: attempt_def Let_def\<close>)
qed

lemma attempt_frame:
  assumes "attempt tr env ord None n punished unsucc s = Some (result, last_chance, ident, punished', s')"
    and "rely env"
  shows "guard_providers (guards s') = guard_providers (guards s)"
    and "ident \<in> set (provider_ids tr s)" and "ident \<notin> unsucc"
    and "selected_providers (messages s') = selected_providers (messages s) @ [ident]"
    and "last_chance \<longleftrightarrow> NUM_MAX_ATTEMPTS \<le> n \<or>
      length (filter (\<lambda>p. identifier_of tr p \<notin> unsucc) (guard_providers (guards s))) \<le> 1 \<or>
      \<not> retryable tr ord"
    and "punished' = (if punishable result then punished @ [ident] else punished)"
proof -
  from assms(1) obtain h is_last gs m s2 s3 where
    sel: "select_provider tr ord (guards (env n BeforeSelect s)) (metrics (env n BeforeSelect s)) None
      unsucc = Some ((h, is_last), gs, m)"
    and ident: "ident = identifier_of tr (handle_provider h)"
    and lc: "last_chance = (NUM_MAX_ATTEMPTS \<le> n \<or> is_last \<or> \<not> retryable tr ord)"
    and job: "run_job tr (handle_provider h) ord last_chance
      (env n BeforeChannel (send_test_message (ProviderSelected ident)
        ((env n BeforeSelect s)\<lparr>guards := gs, metrics := m\<rparr>))) = Some (result, s2)"
    and s3: "s3 = (if punishable result
               then (env n BeforePunish s2)\<lparr>metrics := punish ident (metrics (env n BeforePunish s2))\<rparr>
               else s2)"
    and p': "punished' = (if punishable result then punished @ [ident] else punished)"
    and s': "s' = s3\<lparr>guards := drop_guard h (guards s3)\<rparr>"
    by (rule attempt_SomeE)
  note sel' = select_provider_frame [OF sel]
  note job' = run_job_frame [OF job]
  show "guard_providers (guards s') = guard_providers (guards s)"
    using job' sel'(1) s3 s' assms(2) by (simp add: send_test_message_def)
  have "handle_provider h \<in> set (guard_providers (guards s))"
    using sel'(2) relyD(1) [OF assms(2)] by metis
  then show "ident \<in> set (provider_ids tr s)" unfolding ident provider_ids_def list.set_map(1) [of "identifier_of tr"]
    by (rule imageI)
  show "ident \<notin> unsucc" using sel'(3) ident by simp
  show "selected_providers (messages s') = selected_providers (messages s) @ [ident]"
    using job' s3 s' assms(2) by (simp add: send_test_message_def)
  show "last_chance \<longleftrightarrow> NUM_MAX_ATTEMPTS \<le> n \<or>
      length (filter (\<lambda>p. identifier_of tr p \<notin> unsucc) (guard_providers (guards s))) \<le> 1 \<or>
      \<not> retryable tr ord"
    using lc sel'(4) assms(2) by simp
  show "punished' = (if punishable result then punished @ [ident] else punished)" by (fact p')
qed

lemma attempt_failures:
  assumes "attempt tr env ord None n punished unsucc s = Some (result, last_chance, ident, punished', s')"
    and quiet: "\<And>n ph s. metrics (env n ph s) = metrics s"
  shows "failures (metrics s') = (failures (metrics s))
      (ident := failures (metrics s) ident + (if punishable result then 1 else 0))"
    and "dom (metrics s') = insert ident (dom (metrics s))"
proof -
  from assms(1) obtain h is_last gs m s2 s3 where
    sel: "select_provider tr ord (guards (env n BeforeSelect s)) (metrics (env n BeforeSelect s)) None
      unsucc = Some ((h, is_last), gs, m)"
    and ident: "ident = identifier_of tr (handle_provider h)"
    and job: "run_job tr (handle_provider h) ord last_chance
      (env n BeforeChannel (send_test_message (ProviderSelected ident)
        ((env n BeforeSelect s)\<lparr>guards := gs, metrics := m\<rparr>))) = Some (result, s2)"
    and s3: "s3 = (if punishable result
               then (env n BeforePunish s2)\<lparr>metrics := punish ident (metrics (env n BeforePunish s2))\<rparr>
               else s2)"
    and s': "s' = s3\<lparr>guards := drop_guard h (guards s3)\<rparr>"
    by (rule attempt_SomeE)
  have "metrics s2 = record_usage ident (metrics s)"
    using run_job_frame [OF job] select_provider_frame(5) [OF sel] ident
    by (simp add: send_test_message_def quiet)
  with s3 s' show "failures (metrics s') = (failures (metrics s))
      (ident := failures (metrics s) ident + (if punishable result then 1 else 0))"
    and "dom (metrics s') = insert ident (dom (metrics s))"
    by (auto simp: failures_punish quiet)
qed

context job_provider
begin

lemma attempt_defined:
  assumes "rely env" and "jobs_return tr"
    and "\<forall>p \<in> set (guard_providers (guards s)). score_ok (initial_score tr p)"
    and "\<exists>p \<in> set (guard_providers (guards s)). identifier_of tr p \<notin> unsucc"
  shows "attempt tr env ord None n punished unsucc s \<noteq> None"
proof -
  let ?s0 = "env n BeforeSelect s"
  have ps: "guard_providers (guards ?s0) = guard_providers (guards s)" using assms(1) by simp
  have "select_provider tr ord (guards ?s0) (metrics ?s0) None unsucc \<noteq> None"
    by (rule select_provider_defined) (use assms(3,4) in \<open>simp_all only: ps\<close>)
  then obtain h is_last gs m where
    "select_provider tr ord (guards ?s0) (metrics ?s0) None unsucc = Some ((h, is_last), gs, m)" by auto
  then show ?thesis
    using jobs_returnD [OF assms(2)] by (simp add: attempt_def Let_def split: option.splits)
qed

end

subsection \<open>The whole loop\<close>

text \<open>
  The providers the loop selects, as a list \<open>new\<close>: distinct, among those not yet excluded, at
  most \<open>NUM_MAX_ATTEMPTS\<close> with the attempts before; a retryable order that fails without being
  aborted has used every attempt there was.
\<close>

definition loop_trace ::
  "('p, 'o, 's, 'c, 'oe, 'e, 'w) job_trait \<Rightarrow> 'o \<Rightarrow> provider_identifier list \<Rightarrow>
    provider_identifier set \<Rightarrow> ('p, 'c, 'e) job_result \<Rightarrow> provider_identifier list \<Rightarrow> bool" where
  "loop_trace tr ord ids unsucc result new \<longleftrightarrow>
     new \<noteq> [] \<and> distinct new \<and> set new \<subseteq> set ids - unsucc \<and>
     card unsucc + length new \<le> NUM_MAX_ATTEMPTS \<and>
     (\<not> is_success result \<and> \<not> aborts result \<and> retryable tr ord \<longrightarrow>
        card unsucc + length new = min NUM_MAX_ATTEMPTS (length ids))"

lemma try_loop_run:
  assumes "try_loop tr env ord None n punished unsucc s = Some (result, punished', s')"
    and "rely env" and "distinct (provider_ids tr s)"
    and "unsucc \<subseteq> set (provider_ids tr s)" and "card unsucc = n" and "n < NUM_MAX_ATTEMPTS"
  shows "\<exists>new. selected_providers (messages s') = selected_providers (messages s) @ new \<and>
      guard_providers (guards s') = guard_providers (guards s) \<and>
      loop_trace tr ord (provider_ids tr s) unsucc result new"
  using assms(1,3-)
proof (induction "NUM_MAX_ATTEMPTS - n" arbitrary: n punished unsucc s rule: less_induct)
  case less
  from less.prems(1) obtain r lc ident punished1 s1 where
    att: "attempt tr env ord None (Suc n) punished unsucc s = Some (r, lc, ident, punished1, s1)"
    and rest: "(if aborts r then Some (r, punished1, s1)
          else if is_success r \<or> lc then Some (r, punished1, s1)
          else try_loop tr env ord None (Suc n) punished1 (insert ident unsucc) (drop_result tr r s1)) =
        Some (result, punished', s')"
    by (subst (asm) try_loop.simps) (auto split: option.splits)
  note frame = attempt_frame [OF att assms(2)]
  have fin: "finite unsucc" using less.prems(3) finite_subset by blast
  have card: "card (insert ident unsucc) = Suc n" using fin frame(3) less.prems(4) by simp
  have ids: "insert ident unsucc \<subseteq> set (provider_ids tr s)" using frame(2) less.prems(3) by simp
  have "card (set (provider_ids tr s)) = length (provider_ids tr s)"
    using less.prems(2) by (rule distinct_card)
  then have len: "Suc n \<le> length (provider_ids tr s)"
    using card_mono [OF _ ids] card by simp
  have left: "length (filter (\<lambda>p. identifier_of tr p \<notin> unsucc) (guard_providers (guards s))) =
      length (provider_ids tr s) - n"
    using candidates_left_ids less.prems(2-4) by blast
  show ?case
  proof (cases "aborts r \<or> is_success r \<or> lc")
    case True
    with rest have eq: "r = result" "s' = s1" by (auto split: if_splits)
    have "loop_trace tr ord (provider_ids tr s) unsucc result [ident]"
      using True eq frame(2,3,5) less.prems(4,5) len left
      by (auto simp: loop_trace_def)
    with frame eq show ?thesis by (intro exI [of _ "[ident]"]) simp
  next
    case False
    with rest have rec: "try_loop tr env ord None (Suc n) punished1 (insert ident unsucc) (drop_result tr r s1) =
        Some (result, punished', s')" by simp
    from False frame(5) left have more: "Suc n < NUM_MAX_ATTEMPTS" by auto
    have same: "provider_ids tr (drop_result tr r s1) = provider_ids tr s"
      using frame(1) by (intro provider_ids_cong) simp
    have "NUM_MAX_ATTEMPTS - Suc n < NUM_MAX_ATTEMPTS - n" using more by simp
    from less.hyps [OF this rec _ _ card more, unfolded same, OF less.prems(2) ids] obtain new where
      new: "selected_providers (messages s') = selected_providers (messages s1) @ new"
        "guard_providers (guards s') = guard_providers (guards s1)"
        "loop_trace tr ord (provider_ids tr s) (insert ident unsucc) result new" by auto
    have "loop_trace tr ord (provider_ids tr s) unsucc result (ident # new)"
      using new(3) frame(2,3) card less.prems(4) by (auto simp: loop_trace_def)
    with new frame show ?thesis by (intro exI [of _ "ident # new"]) simp
  qed
qed

text \<open>With no interference on the metrics, the failure counters grow by the punishments.\<close>

lemma try_loop_failures:
  assumes "try_loop tr env ord None n punished unsucc s = Some (result, punished', s')"
    and quiet: "\<And>n ph s. metrics (env n ph s) = metrics s"
    and "set punished \<subseteq> dom (metrics s)"
  shows "set punished' \<subseteq> dom (metrics s') \<and>
    failures (metrics s') x + of_nat (count_list punished x) =
      failures (metrics s) x + of_nat (count_list punished' x)"
  using assms(1,3)
proof (induction "NUM_MAX_ATTEMPTS - n" arbitrary: n punished unsucc s rule: less_induct)
  case less
  from less.prems(1) obtain r lc ident punished1 s1 where
    att: "attempt tr env ord None (Suc n) punished unsucc s = Some (r, lc, ident, punished1, s1)"
    and rest: "(if aborts r then Some (r, punished1, s1)
          else if is_success r \<or> lc then Some (r, punished1, s1)
          else try_loop tr env ord None (Suc n) punished1 (insert ident unsucc) (drop_result tr r s1)) =
        Some (result, punished', s')"
    by (subst (asm) try_loop.simps) (auto split: option.splits)
  from att have p1: "punished1 = (if punishable r then punished @ [ident] else punished)"
    by (rule attempt_SomeE)
  note fails = attempt_failures [OF att quiet]
  have sub: "set punished1 \<subseteq> dom (metrics s1)"
    using less.prems(2) fails(2) p1 by auto
  have step: "failures (metrics s1) x + of_nat (count_list punished x) =
      failures (metrics s) x + of_nat (count_list punished1 x)"
    using fails(1) p1 by (simp add: count_list_append)
  show ?case
  proof (cases "aborts r \<or> is_success r \<or> lc")
    case True
    with rest have "punished' = punished1" "s' = s1" by (auto split: if_splits)
    with sub step show ?thesis by simp
  next
    case False
    with rest have rec: "try_loop tr env ord None (Suc n) punished1 (insert ident unsucc) (drop_result tr r s1) =
        Some (result, punished', s')" by simp
    have "\<not> NUM_MAX_ATTEMPTS \<le> Suc n" using attempt_last_chance [OF att] False by blast
    then have "NUM_MAX_ATTEMPTS - Suc n < NUM_MAX_ATTEMPTS - n" by simp
    from less.hyps [OF this rec, unfolded drop_result_frame, OF sub] have dom: "set punished' \<subseteq> dom (metrics s')"
      and eq: "failures (metrics s') x + of_nat (count_list punished1 x) =
        failures (metrics s1) x + of_nat (count_list punished' x)" by auto
    show ?thesis using dom balance_trans [OF eq step] by (rule conjI)
  qed
qed

context job_provider
begin

lemma try_loop_defined:
  assumes "rely env" and "jobs_return tr" and "distinct (provider_ids tr s)"
    and "\<forall>p \<in> set (guard_providers (guards s)). score_ok (initial_score tr p)"
    and "unsucc \<subseteq> set (provider_ids tr s)" and "card unsucc = n"
    and "n < NUM_MAX_ATTEMPTS" and "n < length (provider_ids tr s)"
  shows "try_loop tr env ord None n punished unsucc s \<noteq> None"
  using assms(3-)
proof (induction "NUM_MAX_ATTEMPTS - n" arbitrary: n punished unsucc s rule: less_induct)
  case less
  have left: "length (filter (\<lambda>p. identifier_of tr p \<notin> unsucc) (guard_providers (guards s))) =
      length (provider_ids tr s) - n"
    using candidates_left_ids less.prems(1,3,4) by blast
  then have "filter (\<lambda>p. identifier_of tr p \<notin> unsucc) (guard_providers (guards s)) \<noteq> []"
    using less.prems(6) by (intro notI) simp
  then have "\<exists>p \<in> set (guard_providers (guards s)). identifier_of tr p \<notin> unsucc"
    unfolding filter_empty_conv by blast
  from attempt_defined [OF assms(1,2) less.prems(2) this] obtain r lc ident punished1 s1 where
    att: "attempt tr env ord None (Suc n) punished unsucc s = Some (r, lc, ident, punished1, s1)"
    by fast
  note frame = attempt_frame [OF att assms(1)]
  show ?case
  proof (cases "aborts r \<or> is_success r \<or> lc")
    case True
    then show ?thesis by (subst try_loop.simps) (auto simp: att)
  next
    case False
    have "finite unsucc" using less.prems(3) finite_subset by blast
    then have "card (insert ident unsucc) = Suc n" using frame(3) less.prems(4) by simp
    moreover have "Suc n < NUM_MAX_ATTEMPTS" "Suc n < length (provider_ids tr s)"
      using False frame(5) left by auto
    moreover have same: "provider_ids tr (drop_result tr r s1) = provider_ids tr s"
      using frame(1) by (intro provider_ids_cong) simp
    moreover have "insert ident unsucc \<subseteq> set (provider_ids tr s)" using frame(2) less.prems(3) by simp
    moreover have "NUM_MAX_ATTEMPTS - Suc n < NUM_MAX_ATTEMPTS - n"
      using \<open>Suc n < NUM_MAX_ATTEMPTS\<close> by simp
    ultimately have "try_loop tr env ord None (Suc n) punished1 (insert ident unsucc) (drop_result tr r s1) \<noteq> None"
      using less.hyps [of "Suc n" "drop_result tr r s1" "insert ident unsucc" punished1] less.prems(1,2)
      unfolding same drop_result_frame frame(1) by blast
    with False show ?thesis by (subst try_loop.simps) (simp add: att)
  qed
qed

end

subsection \<open>Who is punished\<close>

lemma try_loop_selects:
  assumes "try_loop tr env ord None n punished unsucc s = Some (result, punished', s')" and "rely env"
  shows "selected_providers (messages s') \<noteq> selected_providers (messages s)"
proof -
  have "\<exists>new. new \<noteq> [] \<and> selected_providers (messages s') = selected_providers (messages s) @ new"
    using assms(1)
  proof (induction "NUM_MAX_ATTEMPTS - n" arbitrary: n punished unsucc s rule: less_induct)
    case less
    from less.prems(1) obtain r lc ident punished1 s1 where
      att: "attempt tr env ord None (Suc n) punished unsucc s = Some (r, lc, ident, punished1, s1)"
      and rest: "s' = s1 \<or> \<not> lc \<and> try_loop tr env ord None (Suc n) punished1 (insert ident unsucc) (drop_result tr r s1) =
          Some (result, punished', s')"
      by (subst (asm) try_loop.simps) (auto split: option.splits if_splits)
    from rest show ?case
    proof
      assume "s' = s1"
      then show ?thesis using attempt_frame(4) [OF att assms(2)] by simp
    next
      assume go: "\<not> lc \<and> try_loop tr env ord None (Suc n) punished1 (insert ident unsucc) (drop_result tr r s1) =
          Some (result, punished', s')"
      then have "\<not> NUM_MAX_ATTEMPTS \<le> Suc n" using attempt_last_chance [OF att] by blast
      then have "NUM_MAX_ATTEMPTS - Suc n < NUM_MAX_ATTEMPTS - n" by simp
      from less.hyps [OF this] go show ?thesis
        using attempt_frame(4) [OF att assms(2)] by fastforce
    qed
  qed
  then show ?thesis by auto
qed

lemma distinct_subseq: "subseq xs ys \<Longrightarrow> distinct ys \<Longrightarrow> distinct xs"
  by (induction rule: list_emb.induct) (auto dest: list_emb_set)

lemma try_loop_punished:
  assumes "try_loop tr env ord None n punished unsucc s = Some (result, punished', s')" and "rely env"
  shows "\<exists>new pun. selected_providers (messages s') = selected_providers (messages s) @ new \<and>
    punished' = punished @ pun \<and> subseq pun new \<and> (is_success result \<longrightarrow> subseq pun (butlast new))"
  using assms(1)
proof (induction "NUM_MAX_ATTEMPTS - n" arbitrary: n punished unsucc s rule: less_induct)
  case less
  from less.prems(1) obtain r lc ident punished1 s1 where
    att: "attempt tr env ord None (Suc n) punished unsucc s = Some (r, lc, ident, punished1, s1)"
    and rest: "(if aborts r then Some (r, punished1, s1)
          else if is_success r \<or> lc then Some (r, punished1, s1)
          else try_loop tr env ord None (Suc n) punished1 (insert ident unsucc) (drop_result tr r s1)) =
        Some (result, punished', s')"
    by (subst (asm) try_loop.simps) (auto split: option.splits)
  note frame = attempt_frame [OF att assms(2)]
  define pun1 where "pun1 = (if punishable r then [ident] else [])"
  have pun1: "punished1 = punished @ pun1" "subseq pun1 [ident]" using frame(6) by (simp_all add: pun1_def)
  show ?case
  proof (cases "aborts r \<or> is_success r \<or> lc")
    case True
    with rest have eq: "r = result" "punished' = punished1" "s' = s1" by (auto split: if_splits)
    have "is_success result \<longrightarrow> pun1 = []" using eq by (cases r) (auto simp: pun1_def)
    with eq pun1 frame(4) show ?thesis
      by (intro exI [of _ "[ident]"] exI [of _ pun1]) simp
  next
    case False
    with rest have rec: "try_loop tr env ord None (Suc n) punished1 (insert ident unsucc) (drop_result tr r s1) =
        Some (result, punished', s')" by simp
    have "\<not> NUM_MAX_ATTEMPTS \<le> Suc n" using attempt_last_chance [OF att] False by blast
    then have "NUM_MAX_ATTEMPTS - Suc n < NUM_MAX_ATTEMPTS - n" by simp
    from less.hyps [OF this rec] obtain new pun where
      IH: "selected_providers (messages s') = selected_providers (messages s1) @ new"
        "punished' = punished1 @ pun" "subseq pun new" "is_success result \<longrightarrow> subseq pun (butlast new)"
      unfolding drop_result_frame by blast
    have ne: "is_success result \<longrightarrow> new \<noteq> []"
    proof (rule impI, rule notI)
      assume "new = []"
      with rec show False
        using try_loop_selects [OF rec assms(2)] IH(1) by simp
    qed
    have "subseq (pun1 @ pun) ([ident] @ new)" using pun1(2) IH(3) by (rule list_emb_append_mono)
    moreover have "is_success result \<longrightarrow> subseq (pun1 @ pun) (butlast ([ident] @ new))"
      using list_emb_append_mono [OF pun1(2), of pun "butlast new"] IH(4) ne by (simp add: butlast_append)
    ultimately show ?thesis
      using IH(1,2) pun1(1) frame(4) by (intro exI [of _ "ident # new"] exI [of _ "pun1 @ pun"]) simp
  qed
qed

subsection \<open>Invariants of the world\<close>

text \<open>
  What the jobs of an order and the dropping of their channels keep true of the world, the whole
  loop keeps true, if the other threads do.
\<close>

locale world_invariant =
  fixes tr :: "('p, 'o, 's, 'c, 'oe, 'e, 'w) job_trait" and ord :: 'o and inv :: "'w \<Rightarrow> bool"
  assumes job_keeps: "run_job tr p ord last_chance s = Some (result, s') \<Longrightarrow> inv (world s) \<Longrightarrow> inv (world s')"
    and release_keeps: "inv w \<Longrightarrow> inv (snd (release_job_resources tr ch w))"
begin

lemma drop_result_keeps: "inv (world s) \<Longrightarrow> inv (world (drop_result tr result s))"
  by (auto simp: drop_result_def release_keeps split: option.splits)

lemma attempt_keeps:
  assumes "attempt tr env ord cp n punished unsucc s = Some (result, lc, ident, punished', s')"
    and env: "\<And>n ph s. inv (world s) \<Longrightarrow> inv (world (env n ph s))" and "inv (world s)"
  shows "inv (world s')"
proof -
  from assms(1) obtain h is_last gs m s2 s3 where
    job: "run_job tr (handle_provider h) ord lc
      (env n BeforeChannel (send_test_message (ProviderSelected ident)
        ((env n BeforeSelect s)\<lparr>guards := gs, metrics := m\<rparr>))) = Some (result, s2)"
    and s3: "s3 = (if punishable result
       then (env n BeforePunish s2)\<lparr>metrics := punish ident (metrics (env n BeforePunish s2))\<rparr> else s2)"
    and s': "s' = s3\<lparr>guards := drop_guard h (guards s3)\<rparr>"
    by (rule attempt_SomeE)
  have "inv (world (env n BeforeChannel (send_test_message (ProviderSelected ident)
      ((env n BeforeSelect s)\<lparr>guards := gs, metrics := m\<rparr>))))"
    by (rule env) (simp add: send_test_message_def env assms(3))
  with job have "inv (world s2)" by (rule job_keeps)
  then show ?thesis using env [of s2] s' s3 by (simp split: if_splits)
qed

lemma try_loop_keeps:
  assumes "try_loop tr env ord cp n punished unsucc s = Some (result, punished', s')"
    and env: "\<And>n ph s. inv (world s) \<Longrightarrow> inv (world (env n ph s))" and "inv (world s)"
  shows "inv (world s')"
  using assms(1,3)
proof (induction "NUM_MAX_ATTEMPTS - n" arbitrary: n punished unsucc s rule: less_induct)
  case less
  from less.prems(1) obtain r lc ident punished1 s1 where
    att: "attempt tr env ord cp (Suc n) punished unsucc s = Some (r, lc, ident, punished1, s1)"
    and rest: "s' = s1 \<or> \<not> lc \<and> try_loop tr env ord cp (Suc n) punished1 (insert ident unsucc)
        (drop_result tr r s1) = Some (result, punished', s')"
    by (subst (asm) try_loop.simps) (auto split: option.splits if_splits)
  have inv1: "inv (world s1)" using attempt_keeps [OF att env less.prems(2)] .
  show ?case
  proof (cases "s' = s1")
    case True
    with inv1 show ?thesis by simp
  next
    case False
    with rest have go: "\<not> lc" and rec: "try_loop tr env ord cp (Suc n) punished1 (insert ident unsucc)
        (drop_result tr r s1) = Some (result, punished', s')" by auto
    have "\<not> NUM_MAX_ATTEMPTS \<le> Suc n" using attempt_last_chance [OF att] go by blast
    then have "NUM_MAX_ATTEMPTS - Suc n < NUM_MAX_ATTEMPTS - n" by simp
    from less.hyps [OF this rec drop_result_keeps [OF inv1]] show ?thesis .
  qed
qed

lemma try_until_success_keeps:
  assumes "try_until_success tr env ord cp s = Some (result, s')"
    and env: "\<And>n ph s. inv (world s) \<Longrightarrow> inv (world (env n ph s))" and "inv (world s)"
  shows "inv (world s')"
proof -
  from assms(1) obtain punished s1 where "try_loop tr env ord cp 0 [] {} s = Some (result, punished, s1)"
    and s': "world s' = world s1 \<or> world s' = world (env 0 BeforePardon s1)"
    by (auto simp: try_until_success_def Let_def split: option.splits if_splits)
  from try_loop_keeps [OF this(1) env assms(3)] s' env show ?thesis by auto
qed

end

end
