(* ===== verification/Dummy_Job.thy ===== *)
theory Dummy_Job
  imports Order_Loop
begin

section \<open>A concrete implementation of the traits (tests/integration\_test.rs)\<close>

text \<open>
  The providers and orders of the repository's own integration tests, at which the witnesses of
  the generic properties are evaluated: a provider succeeds, completes partially or fails; an
  order succeeds or fails. The world is the list of progress messages. The tests' blocking and
  panicking orders are left out: they are about threads, not about the loop.
\<close>

record dummy_provider_item =
  item_identifier :: nat
  item_score :: int

datatype dummy_provider =
    DummySuccess dummy_provider_item
  | DummyPartialCompletion dummy_provider_item
  | DummyFailure dummy_provider_item

fun dummy_item :: "dummy_provider \<Rightarrow> dummy_provider_item" where
  "dummy_item (DummySuccess i) = i"
| "dummy_item (DummyPartialCompletion i) = i"
| "dummy_item (DummyFailure i) = i"

datatype dummy_order_variant = SuccessVariant | FailureVariant

record dummy_order =
  variant :: dummy_order_variant
  order_identifier :: nat
  order_is_cacheable :: bool

definition dummy_identifier :: "dummy_provider \<Rightarrow> provider_identifier" where
  "dummy_identifier p = ''DummyProvider '' @ show_nat (item_identifier (dummy_item p))"

definition dummy_serve ::
  "dummy_provider \<Rightarrow> dummy_order \<Rightarrow> unit \<Rightarrow> flexo_progress list \<Rightarrow>
    ((dummy_provider, unit, unit) job_result \<times> flexo_progress list) panics" where
  "dummy_serve p ord ch w =
     Some (case variant ord of
             FailureVariant \<Rightarrow> JobError \<lparr>terminated_channel = ch, job_error = ()\<rparr>
           | SuccessVariant \<Rightarrow>
              (case p of
                 DummySuccess _ \<Rightarrow>
                   Complete \<lparr>completed_channel = ch, completed_provider = p, completed_size = 1\<rparr>
               | DummyPartialCompletion _ \<Rightarrow> Partial \<lparr>partial_channel = ch, continue_at = 1\<rparr>
               | DummyFailure _ \<Rightarrow> JobError \<lparr>terminated_channel = ch, job_error = ()\<rparr>), w)"

definition dummy_cacheable_cmp ::
  "int dynamic_provider_metrics \<Rightarrow> int dynamic_provider_metrics \<Rightarrow> ordering panics" where
  "dummy_cacheable_cmp x y =
     then_cmp (cmp_lin (dyn_num_failures x) (dyn_num_failures y))
      (then_cmp (cmp_lin (dyn_num_current_usages x) (dyn_num_current_usages y))
        (cmp_lin (dyn_initial_score x) (dyn_initial_score y)))"

definition dummy_trait ::
  "(dummy_provider, dummy_order, int, unit, unit, unit, flexo_progress list) job_trait" where
  "dummy_trait = \<lparr>
     identifier_of = dummy_identifier,
     initial_score = (\<lambda>p. item_score (dummy_item p)),
     score_cmp = cmp_lin,
     cacheable_cmp = dummy_cacheable_cmp,
     uncacheable_cmp = (\<lambda>x y. cmp_lin (dyn_initial_score x) (dyn_initial_score y)),
     is_cacheable = order_is_cacheable,
     retryable = (\<lambda>_. True),
     cache_state = (\<lambda>_ w. Some (None, w)),
     new_channel = (\<lambda>_ _ w. Some (Inr (), w)),
     reuse_channel = (\<lambda>_ _ ch w. Some (Inr ch, w)),
     serve_from_provider = dummy_serve,
     handle_error = (\<lambda>_. UnexpectedInternalError),
     send_progress = (\<lambda>_ m w. w @ [m]),
     release_job_resources = Pair\<rparr>"

lemma dummy_trait_simps [simp]:
  "identifier_of dummy_trait = dummy_identifier"
  "initial_score dummy_trait p = item_score (dummy_item p)"
  "score_cmp dummy_trait = cmp_lin"
  "cacheable_cmp dummy_trait = dummy_cacheable_cmp"
  "uncacheable_cmp dummy_trait = (\<lambda>x y. cmp_lin (dyn_initial_score x) (dyn_initial_score y))"
  "is_cacheable dummy_trait ord = order_is_cacheable ord"
  "retryable dummy_trait ord"
  "cache_state dummy_trait ord w = Some (None, w)"
  "new_channel dummy_trait ord lc w = Some (Inr (), w)"
  "reuse_channel dummy_trait ord lc ch w = Some (Inr ch, w)"
  "serve_from_provider dummy_trait = dummy_serve"
  "handle_error dummy_trait e = UnexpectedInternalError"
  "send_progress dummy_trait ord m w = w @ [m]"
  "release_job_resources dummy_trait ch w = (ch, w)"
  by (simp_all add: dummy_trait_def)

interpretation dummy_tail: rust_ord_lex
  "\<lambda>x y. cmp_lin (dyn_num_current_usages x) (dyn_num_current_usages y)"
  "\<lambda>x y. cmp_lin (dyn_initial_score x :: int) (dyn_initial_score y)" "\<lambda>_. True"
  by (intro rust_ord_lex.intro rust_ord_lin_key)

interpretation dummy_lex: rust_ord_lex
  "\<lambda>x y. cmp_lin (dyn_num_failures x) (dyn_num_failures y)"
  "\<lambda>x y. then_cmp (cmp_lin (dyn_num_current_usages x) (dyn_num_current_usages y))
      (cmp_lin (dyn_initial_score x :: int) (dyn_initial_score y))" "\<lambda>_. True"
  by (intro rust_ord_lex.intro rust_ord_lin_key dummy_tail.lex.rust_ord_axioms)

interpretation dummy: job_provider dummy_trait "\<lambda>_. True"
proof (rule job_provider.intro)
  show "rust_ord (score_cmp dummy_trait) (\<lambda>_. True)" by (simp add: rust_ord_linI)
  show "rust_ord (cacheable_cmp dummy_trait) (\<lambda>_. True)"
    using dummy_lex.lex.rust_ord_axioms by (simp add: dummy_cacheable_cmp_def [abs_def])
  show "rust_ord (uncacheable_cmp dummy_trait) (\<lambda>_. True)" by (simp add: rust_ord_lin_key)
qed

lemma dummy_jobs_return: "jobs_return dummy_trait"
  by (auto simp: jobs_return_def run_job_def get_channel_def dummy_serve_def Let_def
      split: option.splits prod.splits sum.splits)

text \<open>The scenarios of the tests: one provider, or a failing one before a succeeding one.\<close>

definition dummy_state ::
  "dummy_provider list \<Rightarrow> (dummy_provider, unit, flexo_progress list) shared" where
  "dummy_state ps = \<lparr>guards = provider_guards_new ps, metrics = (\<lambda>_. None),
     channels = (\<lambda>_. None), world = [], messages = []\<rparr>"

definition dummy_p1 :: dummy_provider where
  "dummy_p1 = DummyFailure \<lparr>item_identifier = 1, item_score = 1\<rparr>"

definition dummy_p2 :: dummy_provider where
  "dummy_p2 = DummySuccess \<lparr>item_identifier = 2, item_score = 2\<rparr>"

definition success_order :: dummy_order where
  "success_order = \<lparr>variant = SuccessVariant, order_identifier = 0, order_is_cacheable = True\<rparr>"

lemma dummy_state_simps [simp]:
  "guard_providers (guards (dummy_state ps)) = ps"
  "metrics (dummy_state ps) = (\<lambda>_. None)"
  "channels (dummy_state ps) = (\<lambda>_. None)"
  "world (dummy_state ps) = []"
  "messages (dummy_state ps) = []"
  "provider_ids dummy_trait (dummy_state ps) = map dummy_identifier ps"
  by (simp_all add: dummy_state_def provider_ids_def del: map_map)

lemma dummy_ids [simp]:
  "dummy_identifier dummy_p1 = ''DummyProvider 1''"
  "dummy_identifier dummy_p2 = ''DummyProvider 2''"
  by (simp_all add: dummy_identifier_def dummy_p1_def dummy_p2_def show_nat.simps digit_char_def)

lemmas loop_eval = try_until_success_def try_loop.simps attempt_def select_provider_def
  get_provider_guard_def guards_with_scores_def guard_choice_def mirror_choice_def
  run_job_def get_channel_def send_test_message_def num_current_usages_def
  metrics_or_default_def provider_metrics_default_def record_usage_def punish_def
  NUM_MAX_ATTEMPTS_def arc_clone_def drop_guard.simps(1) List.map_filter_simps Let_def

end
