(* ===== verification/Order_Properties.thy ===== *)
theory Order_Properties
  imports Dummy_Job
begin

section \<open>Properties of provider selection and of the retry loop\<close>



lemma custom_loop:
  "try_until_success tr env ord (Some p) s =
     (case run_job tr p ord True
             (env 1 BeforeChannel
               (send_test_message (ProviderSelected (identifier_of tr p)) (env 1 BeforeSelect s))) of
        None \<Rightarrow> None
      | Some (result, s2) \<Rightarrow>
          (if punishable result
           then (let s3 = (env 1 BeforePunish s2)
                   \<lparr>metrics := punish (identifier_of tr p) (metrics (env 1 BeforePunish s2))\<rparr>;
                     s4 = env 0 BeforePardon s3
                 in Some (result, s4\<lparr>metrics := pardon [identifier_of tr p] (metrics s4)\<rparr>))
           else if is_success result then Some (result, s2)
           else Some (result, (env 0 BeforePardon s2))))"
  by (cases "run_job tr p ord True
             (env 1 BeforeChannel
               (send_test_message (ProviderSelected (identifier_of tr p)) (env 1 BeforeSelect s)))")
    (auto simp: try_until_success_def try_loop.simps [of tr env ord "Some p" 0] attempt_def Let_def
      split: option.splits elim: is_success.elims punishable.elims)

subsection \<open>Selection\<close>

text \<open>\<open>get_provider_guard\<close> hands out an included provider whose score is least, the
  first one in the vector among equals, together with the number of included providers, and adds one
  reference to that provider and to no other.\<close>

lemma get_provider_guard_least:
  assumes "rust_ord cmp ok"
    and "\<forall>g \<in> set gs. \<forall>s. guard_choice mirror_score g = Some s \<longrightarrow> ok s"
    and "\<exists>g \<in> set gs. guard_choice mirror_score g \<noteq> None"
  shows "\<exists>i. guard_selected cmp mirror_score gs i \<and>
    get_provider_guard cmp mirror_score gs =
      Some ((SharedGuard i (guarded_provider (gs ! i)), length (guards_with_scores mirror_score gs)),
            arc_clone i gs)"
  using assms by (rule rust_ord.get_provider_guard_selects)

theorem get_provider_guard_least_witness:
  "\<exists>i. guard_selected cmp_lin (\<lambda>p n. if p = 5 then Exclude else Include (p + n))
      (provider_guards_new [5, 9, 7, 7 :: nat]) i \<and>
    get_provider_guard cmp_lin (\<lambda>p n. if p = 5 then Exclude else Include (p + n))
      (provider_guards_new [5, 9, 7, 7]) =
      Some ((SharedGuard i (guarded_provider (provider_guards_new [5, 9, 7, 7] ! i)),
             length (guards_with_scores (\<lambda>p n. if p = 5 then Exclude else Include (p + n))
               (provider_guards_new [5, 9, 7, 7]))),
            arc_clone i (provider_guards_new [5, 9, 7, 7]))"
  by (rule get_provider_guard_least [OF rust_ord_linI])
    (simp_all add: provider_guards_new_def provider_guard_new_def guard_choice_def)



subsection \<open>The retry loop\<close>









text \<open>An order for a custom repository is tried at its own provider only, and exactly once,
  without a selection among the mirrors.\<close>

lemma custom_provider_once:
  assumes "try_until_success tr env ord (Some p) s = Some (result, s')" and "rely env"
  shows "selected_providers (messages s') = selected_providers (messages s) @ [identifier_of tr p]"
    (is ?sel)
  using assms
  by (auto simp: custom_loop Let_def send_test_message_def split: option.splits if_splits
      dest!: run_job_frame)

theorem custom_provider_once_witness:
  "\<exists>result s'. try_until_success dummy_trait no_interference success_order (Some dummy_p1)
      (dummy_state [dummy_p2]) = Some (result, s') \<and>
    selected_providers (messages s') = [''DummyProvider 1'']"
proof -
  have "try_until_success dummy_trait no_interference success_order (Some dummy_p1)
      (dummy_state [dummy_p2]) \<noteq> None" by code_simp
  then obtain result s' where run: "try_until_success dummy_trait no_interference success_order
      (Some dummy_p1) (dummy_state [dummy_p2]) = Some (result, s')" by auto
  show ?thesis using run custom_provider_once [OF run rely_no_interference] by simp
qed

text \<open>C39: A first failing order for a custom repository leaves that provider with 4294967295
  failures: \<open>punish\<close> inserts a fresh entry with zero failures, because a custom provider is never
  entered by \<open>select_provider\<close>, and \<open>pardon\<close> then subtracts one from zero (a panic in a debug
  build, wrap-around in a release build).\<close>

theorem custom_provider_failure_wraps:
  assumes "try_until_success tr env ord (Some p) s = Some (result, s')"
    and "punishable result" and "metrics s (identifier_of tr p) = None"
    and "\<forall>n ph s. metrics (env n ph s) = metrics s"
  shows "metrics s' (identifier_of tr p) = Some \<lparr>num_usages = 0, num_failures = 4294967295\<rparr>"
proof -
  have quiet: "metrics (env n ph s) = metrics s" for n ph s using assms(4) by blast
  from assms(1,2) obtain s2 where
    job: "run_job tr p ord True (env 1 BeforeChannel
      (send_test_message (ProviderSelected (identifier_of tr p)) (env 1 BeforeSelect s))) = Some (result, s2)"
    and m: "metrics s' = pardon [identifier_of tr p] (punish (identifier_of tr p) (metrics s2))"
    by (auto simp: custom_loop Let_def quiet split: option.splits if_splits)
  have "metrics s2 = metrics s"
    using run_job_frame [OF job] by (simp add: send_test_message_def quiet)
  with m assms(3) show ?thesis by (simp add: punish_def provider_metrics_default_def)
qed

theorem custom_provider_failure_wraps_witness:
  "\<exists>result s'. try_until_success dummy_trait no_interference success_order (Some dummy_p1)
      (dummy_state [dummy_p2]) = Some (result, s') \<and>
    metrics s' ''DummyProvider 1'' = Some \<lparr>num_usages = 0, num_failures = 4294967295\<rparr>"
proof -
  have "map_option (punishable \<circ> fst) (try_until_success dummy_trait no_interference success_order
      (Some dummy_p1) (dummy_state [dummy_p2])) = Some True" by code_simp
  then obtain result s' where run: "try_until_success dummy_trait no_interference success_order
      (Some dummy_p1) (dummy_state [dummy_p2]) = Some (result, s')" "punishable result" by auto
  show ?thesis using run custom_provider_failure_wraps [OF run] by simp
qed

end
