(* ===== verification/Job_Context.thy ===== *)
theory Job_Context
  imports Order_Loop
begin

section \<open>The job context: scheduling orders on threads (lib.rs)\<close>

text \<open>
  \<open>JobContext\<close> holds the shared state of \<open>Order_Loop\<close>, the orders in progress and the
  panic monitor. Its operations are functions; the threads they spawn make the program a state
  machine, the inductive relation \<open>ctx_step\<close>, whose states add to the context what each thread
  holds locally: the order and the channel of the attempt it is in, or the result it still has to
  clean up after.
\<close>

datatype mutex_state = Unlocked | Locked | Poisoned

datatype ('p, 'o, 'c, 'e) job_thread =
    Running 'o "'c option"
  | Finishing 'o "('p, 'c, 'e) job_result"

record ('p, 'o, 'c, 'e, 'w) job_context =
  ctx_shared :: "('p, 'c, 'w) shared"
  orders_in_progress :: "'o set"
  panic_monitor :: "nat list"
  thread_mutex :: "nat \<Rightarrow> mutex_state"
  threads :: "nat \<rightharpoonup> ('p, 'o, 'c, 'e) job_thread"
  next_thread :: nat

datatype 'p schedule_outcome =
    AlreadyInProgress
  | Scheduled nat
  | Cached
  | Uncacheable "'p guard_handle"

datatype 'p job_outcome =
    OutcomeSuccess 'p
  | OutcomeError metrics_map

subsection \<open>Creating a context\<close>

fun check_duplicates_from ::
  "('p \<Rightarrow> provider_identifier) \<Rightarrow> provider_identifier set \<Rightarrow> 'p list \<Rightarrow> unit panics" where
  "check_duplicates_from ident identifiers [] = Some ()"
| "check_duplicates_from ident identifiers (p # ps) =
     (if ident p \<in> identifiers then None
      else check_duplicates_from ident (insert (ident p) identifiers) ps)"

definition check_duplicates :: "('p \<Rightarrow> provider_identifier) \<Rightarrow> 'p list \<Rightarrow> unit panics" where
  "check_duplicates ident ps = check_duplicates_from ident {} ps"

definition job_context_new ::
  "('p, 'o, 's, 'c, 'oe, 'e, 'w) job_trait \<Rightarrow> 'p list \<Rightarrow> 'w \<Rightarrow>
    ('p, 'o, 'c, 'e, 'w) job_context panics" where
  "job_context_new tr initial_providers w =
     (case check_duplicates (identifier_of tr) initial_providers of
        None \<Rightarrow> None
      | Some _ \<Rightarrow> Some
          \<lparr>ctx_shared = \<lparr>guards = provider_guards_new initial_providers, metrics = (\<lambda>_. None),
             channels = (\<lambda>_. None), world = w, messages = []\<rparr>,
           orders_in_progress = {},
           panic_monitor = [],
           thread_mutex = (\<lambda>_. Unlocked),
           threads = (\<lambda>_. None),
           next_thread = 0\<rparr>)"

definition reset_provider_metrics ::
  "('p, 'o, 'c, 'e, 'w) job_context \<Rightarrow> ('p, 'o, 'c, 'e, 'w) job_context" where
  "reset_provider_metrics c = c\<lparr>ctx_shared := (ctx_shared c)\<lparr>metrics := (\<lambda>_. None)\<rparr>\<rparr>"

subsection \<open>Scheduling\<close>

definition best_provider ::
  "('p, 'o, 's, 'c, 'oe, 'e, 'w) job_trait \<Rightarrow> 'p option \<Rightarrow> 'p provider_guards \<Rightarrow>
    ('p guard_handle \<times> 'p provider_guards) panics" where
  "best_provider tr custom_provider gs =
     (case custom_provider of
        None \<Rightarrow>
          map_option (\<lambda>((h, _), gs'). (h, gs'))
            (get_provider_guard (score_cmp tr) (\<lambda>p _. Include (initial_score tr p)) gs)
      | Some p \<Rightarrow> Some (OwnGuard p, gs))"

text \<open>The sweep over the panic monitor: finished threads leave, a poisoned mutex panics.\<close>

fun sweep_monitor :: "(nat \<Rightarrow> mutex_state) \<Rightarrow> nat list \<Rightarrow> nat list panics" where
  "sweep_monitor st [] = Some []"
| "sweep_monitor st (t # ts) =
     (case st t of
        Unlocked \<Rightarrow> sweep_monitor st ts
      | Locked \<Rightarrow> map_option ((#) t) (sweep_monitor st ts)
      | Poisoned \<Rightarrow> None)"

definition schedule ::
  "'o \<Rightarrow> ('p, 'o, 'c, 'e, 'w) job_context \<Rightarrow>
    ('p schedule_outcome \<times> ('p, 'o, 'c, 'e, 'w) job_context) panics" where
  "schedule ord c =
     (case sweep_monitor (thread_mutex c) (panic_monitor c) of
        None \<Rightarrow> None
      | Some ts \<Rightarrow>
          (let t = next_thread c
           in Some (Scheduled t,
                c\<lparr>panic_monitor := ts @ [t],
                  thread_mutex := (thread_mutex c)(t := Unlocked),
                  threads := (threads c)(t \<mapsto> Running ord None),
                  next_thread := Suc t\<rparr>)))"

definition redirect_outcome ::
  "('p, 'o, 's, 'c, 'oe, 'e, 'w) job_trait \<Rightarrow> 'p option \<Rightarrow> ('p, 'o, 'c, 'e, 'w) job_context \<Rightarrow>
    ('p schedule_outcome \<times> ('p, 'o, 'c, 'e, 'w) job_context) panics" where
  "redirect_outcome tr custom_provider c =
     map_option (\<lambda>(h, gs). (Uncacheable h, c\<lparr>ctx_shared := (ctx_shared c)\<lparr>guards := gs\<rparr>\<rparr>))
       (best_provider tr custom_provider (guards (ctx_shared c)))"

definition try_schedule ::
  "('p, 'o, 's, 'c, 'oe, 'e, 'w) job_trait \<Rightarrow> 'o \<Rightarrow> 'p option \<Rightarrow> u64 option \<Rightarrow>
    ('p, 'o, 'c, 'e, 'w) job_context \<Rightarrow>
    ('p schedule_outcome \<times> ('p, 'o, 'c, 'e, 'w) job_context) panics" where
  "try_schedule tr ord custom_provider resume c =
     (let resume_from = (case resume of Some r \<Rightarrow> r | None \<Rightarrow> 0)
      in if ord \<in> orders_in_progress c then Some (AlreadyInProgress, c)
         else
           (case (if is_cacheable tr ord then cache_state tr ord (world (ctx_shared c))
                  else Some (None, world (ctx_shared c))) of
              None \<Rightarrow> None
            | Some (cache_state_result, w) \<Rightarrow>
                (let c1 = c\<lparr>ctx_shared := (ctx_shared c)\<lparr>world := w\<rparr>\<rparr>;
                     c2 = c1\<lparr>orders_in_progress := insert ord (orders_in_progress c1)\<rparr>
                 in case cache_state_result of
                      None \<Rightarrow>
                        if 0 < resume_from then redirect_outcome tr custom_provider c1
                        else schedule ord c2
                    | Some item \<Rightarrow>
                        if cached_size item < resume_from
                        then redirect_outcome tr custom_provider c1
                        else if complete_size item = Some (cached_size item) then Some (Cached, c1)
                        else schedule ord c2)))"

text \<open>The caller drops the guard of an uncacheable outcome when it has sent the redirection.\<close>

definition release_guard ::
  "'p guard_handle \<Rightarrow> ('p, 'o, 'c, 'e, 'w) job_context \<Rightarrow> ('p, 'o, 'c, 'e, 'w) job_context" where
  "release_guard h c = c\<lparr>ctx_shared := (ctx_shared c)\<lparr>guards := drop_guard h (guards (ctx_shared c))\<rparr>\<rparr>"

lemma release_guard_frame [simp, frame_simps]:
  "orders_in_progress (release_guard h c) = orders_in_progress c" "threads (release_guard h c) = threads c"
  "thread_mutex (release_guard h c) = thread_mutex c" "next_thread (release_guard h c) = next_thread c"
  "metrics (ctx_shared (release_guard h c)) = metrics (ctx_shared c)"
  "channels (ctx_shared (release_guard h c)) = channels (ctx_shared c)"
  "world (ctx_shared (release_guard h c)) = world (ctx_shared c)"
  "guards (ctx_shared (release_guard h c)) = drop_guard h (guards (ctx_shared c))"
  by (simp_all add: release_guard_def)

subsection \<open>What a thread does after its order was served\<close>

text \<open>The order leaves the set first; resources are released and the channel is kept after that.\<close>

definition finish_order ::
  "nat \<Rightarrow> 'o \<Rightarrow> ('p, 'c, 'e) job_result \<Rightarrow> ('p, 'o, 'c, 'e, 'w) job_context \<Rightarrow>
    ('p, 'o, 'c, 'e, 'w) job_context" where
  "finish_order t ord result c =
     c\<lparr>orders_in_progress := orders_in_progress c - {ord},
       threads := (threads c)(t \<mapsto> Finishing ord result)\<rparr>"

definition release_channel ::
  "('p, 'o, 's, 'c, 'oe, 'e, 'w) job_trait \<Rightarrow> 'c \<Rightarrow> ('p, 'c, 'w) shared \<Rightarrow>
    'c \<times> ('p, 'c, 'w) shared" where
  "release_channel tr ch s =
     (case release_job_resources tr ch (world s) of (ch', w) \<Rightarrow> (ch', s\<lparr>world := w\<rparr>))"

fun handle_result ::
  "('p, 'o, 's, 'c, 'oe, 'e, 'w) job_trait \<Rightarrow> ('p, 'c, 'e) job_result \<Rightarrow> ('p, 'c, 'w) shared \<Rightarrow>
    'p job_outcome \<times> ('p, 'c, 'w) shared" where
  "handle_result tr (Complete job) s =
     (case release_channel tr (completed_channel job) s of (ch, s') \<Rightarrow>
        (OutcomeSuccess (completed_provider job),
         s'\<lparr>channels := (channels s')(completed_provider job \<mapsto> ch)\<rparr>))"
| "handle_result tr (Partial job) s =
     (case release_channel tr (partial_channel job) s of (_, s') \<Rightarrow> (OutcomeError (metrics s'), s'))"
| "handle_result tr (JobError job) s =
     (case release_channel tr (terminated_channel job) s of (_, s') \<Rightarrow> (OutcomeError (metrics s'), s'))"
| "handle_result tr (Unavailable ch) s =
     (case release_channel tr ch s of (_, s') \<Rightarrow> (OutcomeError (metrics s'), s'))"
| "handle_result tr ClientError s = (OutcomeError (metrics s), s)"
| "handle_result tr UnexpectedInternalError s = (OutcomeError (metrics s), s)"

definition complete_thread ::
  "('p, 'o, 's, 'c, 'oe, 'e, 'w) job_trait \<Rightarrow> nat \<Rightarrow> ('p, 'c, 'e) job_result \<Rightarrow>
    ('p, 'o, 'c, 'e, 'w) job_context \<Rightarrow> 'p job_outcome \<times> ('p, 'o, 'c, 'e, 'w) job_context" where
  "complete_thread tr t result c =
     (case handle_result tr result (ctx_shared c) of (outcome, s) \<Rightarrow>
        (outcome, c\<lparr>ctx_shared := s, thread_mutex := (thread_mutex c)(t := Unlocked),
                    threads := (threads c)(t := None)\<rparr>))"

subsection \<open>The steps of the program\<close>

fun thread_channel :: "('p, 'o, 'c, 'e) job_thread \<Rightarrow> 'c option" where
  "thread_channel (Running ord ch) = ch"
| "thread_channel (Finishing ord result) = result_channel result"

text \<open>
  Where a channel can be: idle, under its provider, or held by a thread. A token identifies the
  handle (the connection) of a channel.
\<close>

definition channel_at :: "('p, 'o, 'c, 'e, 'w) job_context \<Rightarrow> 'p + nat \<Rightarrow> 'c option" where
  "channel_at c l =
     (case l of
        Inl p \<Rightarrow> channels (ctx_shared c) p
      | Inr t \<Rightarrow> (case threads c t of None \<Rightarrow> None | Some th \<Rightarrow> thread_channel th))"

definition tokens_in_use :: "('c \<Rightarrow> nat) \<Rightarrow> ('p, 'o, 'c, 'e, 'w) job_context \<Rightarrow> nat set" where
  "tokens_in_use token c = {token ch |l ch. channel_at c l = Some ch}"

text \<open>
  \<open>sched\<close>: a client thread schedules. \<open>start\<close>: the spawned thread locks its mutex.
  \<open>connect\<close>: an attempt gets its channel, from the idle ones or as a new handle.
  \<open>connect_fail\<close>: it does not, and an idle channel taken for it is gone. \<open>transfer\<close>: the
  job serves and records metrics and usages: the thread's channel changes its state but not its
  handle, the idle channels are left alone. \<open>give_up\<close>: the attempt's
  result, and with it the channel, is dropped. \<open>finish\<close> and \<open>clean\<close>: the two halves of
  what follows the loop. \<open>die\<close>: the thread panics while it serves. \<open>reset\<close>: a client
  clears the metrics. \<open>redirected\<close>: a client's thread drops the guard of a redirection.
  \<open>outside\<close>: the world changes, the job context does not: files are purged after a connection, or
  another program writes to the cache.
\<close>

inductive ctx_step ::
  "('p, 'o, 's, 'c, 'oe, 'e, 'w) job_trait \<Rightarrow> ('c \<Rightarrow> nat) \<Rightarrow>
    ('p, 'o, 'c, 'e, 'w) job_context \<Rightarrow> ('p, 'o, 'c, 'e, 'w) job_context \<Rightarrow> bool"
  for tr token where
  sched: "try_schedule tr ord cp resume c = Some (outcome, c') \<Longrightarrow> ctx_step tr token c c'"
| start: "threads c t = Some (Running ord None) \<Longrightarrow>
    ctx_step tr token c (c\<lparr>thread_mutex := (thread_mutex c)(t := Locked)\<rparr>)"
| connect: "threads c t = Some (Running ord None) \<Longrightarrow>
    get_channel tr p ord lc (ctx_shared c) = Some (Inr (ch, est), s') \<Longrightarrow>
    (est = NewChannel \<Longrightarrow> token ch \<notin> tokens_in_use token c) \<Longrightarrow>
    ctx_step tr token c (c\<lparr>ctx_shared := s', threads := (threads c)(t \<mapsto> Running ord (Some ch))\<rparr>)"
| connect_fail: "threads c t = Some (Running ord None) \<Longrightarrow>
    get_channel tr p ord lc (ctx_shared c) = Some (Inl e, s') \<Longrightarrow>
    ctx_step tr token c (c\<lparr>ctx_shared := s'\<rparr>)"
| transfer: "threads c t = Some (Running ord ch) \<Longrightarrow>
    guard_providers (guards s') = guard_providers (guards (ctx_shared c)) \<Longrightarrow>
    channels s' = channels (ctx_shared c) \<Longrightarrow> map_option token ch' = map_option token ch \<Longrightarrow>
    ctx_step tr token c (c\<lparr>ctx_shared := s', threads := (threads c)(t \<mapsto> Running ord ch')\<rparr>)"
| give_up: "threads c t = Some (Running ord (Some ch)) \<Longrightarrow>
    ctx_step tr token c (c\<lparr>threads := (threads c)(t \<mapsto> Running ord None)\<rparr>)"
| finish: "threads c t = Some (Running ord ch) \<Longrightarrow> result_channel result = ch \<Longrightarrow>
    ctx_step tr token c (finish_order t ord result c)"
| clean: "threads c t = Some (Finishing ord result) \<Longrightarrow>
    ctx_step tr token c (snd (complete_thread tr t result c))"
| die: "threads c t = Some (Running ord ch) \<Longrightarrow> thread_mutex c t = Locked \<Longrightarrow>
    ctx_step tr token c (c\<lparr>thread_mutex := (thread_mutex c)(t := Poisoned),
                          threads := (threads c)(t := None)\<rparr>)"
| reset: "ctx_step tr token c (reset_provider_metrics c)"
| redirected: "ctx_step tr token c (release_guard h c)"
| outside: "ctx_step tr token c (c\<lparr>ctx_shared := (ctx_shared c)\<lparr>world := w\<rparr>\<rparr>)"

inductive ctx_reachable ::
  "('p, 'o, 's, 'c, 'oe, 'e, 'w) job_trait \<Rightarrow> ('c \<Rightarrow> nat) \<Rightarrow>
    ('p, 'o, 'c, 'e, 'w) job_context \<Rightarrow> bool"
  for tr token where
  init: "job_context_new tr ps w = Some c \<Longrightarrow> ctx_reachable tr token c"
| step: "ctx_reachable tr token c \<Longrightarrow> ctx_step tr token c c' \<Longrightarrow> ctx_reachable tr token c'"

subsection \<open>Creation and scheduling\<close>

lemma check_duplicates_from:
  "check_duplicates_from ident seen ps =
    (if distinct (map ident ps) \<and> set (map ident ps) \<inter> seen = {} then Some () else None)"
  by (induction ident seen ps rule: check_duplicates_from.induct) auto

lemma job_context_new_iff:
  "job_context_new tr ps w \<noteq> None \<longleftrightarrow> distinct (map (identifier_of tr) ps)"
  by (auto simp: job_context_new_def check_duplicates_def check_duplicates_from)

lemma sweep_monitor:
  "sweep_monitor st ts =
    (if \<exists>t \<in> set ts. st t = Poisoned then None else Some (filter (\<lambda>t. st t = Locked) ts))"
  by (induction ts) (auto split: mutex_state.splits)

text \<open>What the caller of \<open>try_schedule\<close> can rely on, as a decision on the cache's state.\<close>

datatype schedule_decision = InFlight | ServeCached | Redirect | Download

definition decide :: "bool \<Rightarrow> cached_item option \<Rightarrow> u64 \<Rightarrow> schedule_decision" where
  "decide in_progress item resume_from =
     (let have = (case item of None \<Rightarrow> 0 | Some i \<Rightarrow> cached_size i);
          is_complete = (case item of None \<Rightarrow> False | Some i \<Rightarrow> complete_size i = Some (cached_size i))
      in if in_progress then InFlight
         else if have < resume_from then Redirect
         else if is_complete then ServeCached
         else Download)"

fun decision_of :: "'p schedule_outcome \<Rightarrow> schedule_decision" where
  "decision_of AlreadyInProgress = InFlight"
| "decision_of (Scheduled t) = Download"
| "decision_of Cached = ServeCached"
| "decision_of (Uncacheable h) = Redirect"

definition cache_lookup ::
  "('p, 'o, 's, 'c, 'oe, 'e, 'w) job_trait \<Rightarrow> 'o \<Rightarrow> 'w \<Rightarrow> (cached_item option \<times> 'w) panics" where
  "cache_lookup tr ord w = (if is_cacheable tr ord then cache_state tr ord w else Some (None, w))"

lemma schedule_SomeE:
  assumes "schedule ord c = Some (out, c')"
  obtains ts where "out = Scheduled (next_thread c)"
    and "sweep_monitor (thread_mutex c) (panic_monitor c) = Some ts"
    and "c' = c\<lparr>panic_monitor := ts @ [next_thread c],
           thread_mutex := (thread_mutex c)(next_thread c := Unlocked),
           threads := (threads c)(next_thread c \<mapsto> Running ord None),
           next_thread := Suc (next_thread c)\<rparr>"
  using assms by (auto simp: schedule_def Let_def split: option.splits)

lemma redirect_SomeE:
  assumes "redirect_outcome tr cp c = Some (out, c')"
  obtains h gs where "out = Uncacheable h"
    and "c' = c\<lparr>ctx_shared := (ctx_shared c)\<lparr>guards := gs\<rparr>\<rparr>"
    and "guard_providers gs = guard_providers (guards (ctx_shared c))"
proof -
  from assms obtain h gs where
    best: "best_provider tr cp (guards (ctx_shared c)) = Some (h, gs)"
    and "out = Uncacheable h" "c' = c\<lparr>ctx_shared := (ctx_shared c)\<lparr>guards := gs\<rparr>\<rparr>"
    by (auto simp: redirect_outcome_def)
  moreover have "guard_providers gs = guard_providers (guards (ctx_shared c))"
    using best by (auto simp: best_provider_def split: option.splits dest!: get_provider_guard_frame)
  ultimately show ?thesis using that by blast
qed

lemma try_schedule_cases:
  assumes "try_schedule tr ord cp resume c = Some (out, c')"
  obtains (in_flight) "ord \<in> orders_in_progress c" "out = AlreadyInProgress" "c' = c"
  | (redirect) item w h gs where "ord \<notin> orders_in_progress c"
      "cache_lookup tr ord (world (ctx_shared c)) = Some (item, w)"
      "decide False item (case resume of None \<Rightarrow> 0 | Some r \<Rightarrow> r) = Redirect" "out = Uncacheable h"
      "c' = c\<lparr>ctx_shared := (ctx_shared c)\<lparr>world := w, guards := gs\<rparr>\<rparr>"
      "guard_providers gs = guard_providers (guards (ctx_shared c))"
  | (cached) item w where "ord \<notin> orders_in_progress c"
      "cache_lookup tr ord (world (ctx_shared c)) = Some (item, w)"
      "decide False item (case resume of None \<Rightarrow> 0 | Some r \<Rightarrow> r) = ServeCached" "out = Cached"
      "c' = c\<lparr>ctx_shared := (ctx_shared c)\<lparr>world := w\<rparr>\<rparr>"
  | (scheduled) item w ts where "ord \<notin> orders_in_progress c"
      "cache_lookup tr ord (world (ctx_shared c)) = Some (item, w)"
      "decide False item (case resume of None \<Rightarrow> 0 | Some r \<Rightarrow> r) = Download"
      "out = Scheduled (next_thread c)"
      "sweep_monitor (thread_mutex c) (panic_monitor c) = Some ts"
      "c' = c\<lparr>ctx_shared := (ctx_shared c)\<lparr>world := w\<rparr>,
           orders_in_progress := insert ord (orders_in_progress c),
           panic_monitor := ts @ [next_thread c],
           thread_mutex := (thread_mutex c)(next_thread c := Unlocked),
           threads := (threads c)(next_thread c \<mapsto> Running ord None),
           next_thread := Suc (next_thread c)\<rparr>"
proof (cases "ord \<in> orders_in_progress c")
  case True
  with assms show ?thesis by (intro in_flight) (simp_all add: try_schedule_def)
next
  case False
  let ?r = "case resume of None \<Rightarrow> 0 | Some r \<Rightarrow> r"
  let ?c2 = "\<lambda>w. c\<lparr>ctx_shared := (ctx_shared c)\<lparr>world := w\<rparr>,
    orders_in_progress := insert ord (orders_in_progress c)\<rparr>"
  from False assms obtain item w where
    look: "cache_lookup tr ord (world (ctx_shared c)) = Some (item, w)"
    by (auto simp: try_schedule_def cache_lookup_def Let_def split: option.splits)
  have run: "(case decide False item ?r of
      Redirect \<Rightarrow> redirect_outcome tr cp (c\<lparr>ctx_shared := (ctx_shared c)\<lparr>world := w\<rparr>\<rparr>)
    | ServeCached \<Rightarrow> Some (Cached, c\<lparr>ctx_shared := (ctx_shared c)\<lparr>world := w\<rparr>\<rparr>)
    | _ \<Rightarrow> schedule ord (?c2 w)) = Some (out, c')"
    using assms look [unfolded cache_lookup_def] False
    by (cases item) (auto simp: try_schedule_def decide_def Let_def word_gt_0 split: if_splits)
  show ?thesis
  proof (cases "decide False item ?r")
    case Redirect
    with run have "redirect_outcome tr cp (c\<lparr>ctx_shared := (ctx_shared c)\<lparr>world := w\<rparr>\<rparr>) = Some (out, c')"
      by simp
    from redirect_SomeE [OF this] look False Redirect redirect show ?thesis by fastforce
  next
    case ServeCached
    with run have "out = Cached" "c' = c\<lparr>ctx_shared := (ctx_shared c)\<lparr>world := w\<rparr>\<rparr>" by auto
    with False look ServeCached show ?thesis by (intro cached)
  next
    case Download
    with run have "schedule ord (?c2 w) = Some (out, c')" by simp
    from schedule_SomeE [OF this] look False Download scheduled show ?thesis by fastforce
  next
    case InFlight
    then show ?thesis by (simp add: decide_def Let_def split: if_splits)
  qed
qed

subsection \<open>Invariants of the reachable states\<close>

lemma complete_thread_frame:
  "snd (complete_thread tr t result c) =
    c\<lparr>ctx_shared := snd (handle_result tr result (ctx_shared c)),
      thread_mutex := (thread_mutex c)(t := Unlocked), threads := (threads c)(t := None)\<rparr>"
  by (simp add: complete_thread_def split: prod.splits)

lemma handle_result_frame:
  "guards (snd (handle_result tr result s)) = guards s \<and>
    metrics (snd (handle_result tr result s)) = metrics s \<and>
    messages (snd (handle_result tr result s)) = messages s"
  by (cases "(tr, result, s)" rule: handle_result.cases)
    (auto simp: release_channel_def split: prod.splits)

text \<open>A thread that still serves its order is the only one that serves it, and its order is in the set.\<close>

definition ctx_inv :: "('p, 'o, 'c, 'e, 'w) job_context \<Rightarrow> bool" where
  "ctx_inv c \<longleftrightarrow>
     (\<forall>t. threads c t \<noteq> None \<longrightarrow> t < next_thread c) \<and>
     (\<forall>t ord ch. threads c t = Some (Running ord ch) \<longrightarrow> ord \<in> orders_in_progress c) \<and>
     (\<forall>t t' ord ch ch'. threads c t = Some (Running ord ch) \<longrightarrow>
        threads c t' = Some (Running ord ch') \<longrightarrow> t = t')"

lemma ctx_invI:
  assumes "\<And>t. threads c t \<noteq> None \<Longrightarrow> t < next_thread c"
    and "\<And>t ord ch. threads c t = Some (Running ord ch) \<Longrightarrow> ord \<in> orders_in_progress c"
    and "\<And>t t' ord ch ch'. threads c t = Some (Running ord ch) \<Longrightarrow>
        threads c t' = Some (Running ord ch') \<Longrightarrow> t = t'"
  shows "ctx_inv c"
  using assms unfolding ctx_inv_def by blast

lemma ctx_invD:
  assumes "ctx_inv c"
  shows "threads c t \<noteq> None \<Longrightarrow> t < next_thread c"
    and "threads c t = Some (Running ord ch) \<Longrightarrow> ord \<in> orders_in_progress c"
    and "threads c t = Some (Running ord ch) \<Longrightarrow> threads c t' = Some (Running ord ch') \<Longrightarrow> t = t'"
  using assms unfolding ctx_inv_def by blast+

text \<open>It is enough that the threads only change from one serving state of an order to another.\<close>

lemma ctx_inv_same_orders:
  assumes "ctx_inv c" and "next_thread c' = next_thread c"
    and "orders_in_progress c' = orders_in_progress c"
    and "\<And>t. threads c' t \<noteq> None \<Longrightarrow> threads c t \<noteq> None"
    and "\<And>t ord ch. threads c' t = Some (Running ord ch) \<Longrightarrow> \<exists>ch'. threads c t = Some (Running ord ch')"
  shows "ctx_inv c'"
proof (rule ctx_invI)
  show "t < next_thread c'" if "threads c' t \<noteq> None" for t
    using ctx_invD(1) [OF assms(1)] assms(2,4) that by simp
  show "ord \<in> orders_in_progress c'" if "threads c' t = Some (Running ord ch)" for t ord ch
    using ctx_invD(2) [OF assms(1)] assms(3,5) that by blast
  show "t = t'" if "threads c' t = Some (Running ord ch)" "threads c' t' = Some (Running ord ch')"
    for t t' ord ch ch'
  proof -
    from assms(5) [OF that(1)] obtain d where "threads c t = Some (Running ord d)" ..
    moreover from assms(5) [OF that(2)] obtain d' where "threads c t' = Some (Running ord d')" ..
    ultimately show ?thesis by (rule ctx_invD(3) [OF assms(1)])
  qed
qed

lemma ctx_inv_step: "ctx_step tr token c c' \<Longrightarrow> ctx_inv c \<Longrightarrow> ctx_inv c'"
proof (induction rule: ctx_step.induct)
  case (sched ord cp resume c outcome c')
  show ?case using sched.hyps
  proof (cases rule: try_schedule_cases)
    case (scheduled item w ts)
    have fresh: "threads c t = Some th \<Longrightarrow> t < Suc (next_thread c)" for t th
      using ctx_invD(1) [OF sched.prems, of t] by simp
    have idle: "threads c t = Some (Running ord ch) \<Longrightarrow> False" for t ch
      using ctx_invD(2) [OF sched.prems] scheduled(1) by blast
    show ?thesis unfolding scheduled(6)
      by (rule ctx_invI)
        (auto dest: fresh idle ctx_invD(2) [OF sched.prems] ctx_invD(3) [OF sched.prems]
          split: if_splits)
  qed (use sched.prems in \<open>auto simp: ctx_inv_def\<close>)
next
  case (finish c t ord ch result)
  have other: "threads c t' = Some (Running ord ch') \<Longrightarrow> t' = t" for t' ch'
    using ctx_invD(3) [OF finish.prems] finish.hyps(1) by blast
  have old: "threads c t' = Some th \<Longrightarrow> t' < next_thread c" for t' th
    using ctx_invD(1) [OF finish.prems, of t'] by simp
  show ?case unfolding finish_order_def
    by (rule ctx_invI)
      (auto dest: other old ctx_invD(2,3) [OF finish.prems] intro: old [OF finish.hyps(1)]
        simp: finish.hyps split: if_splits)
next
  case (start c t ord)
  show ?case by (rule ctx_inv_same_orders [OF start.prems]) (auto  split: if_splits)
next
  case (connect c t ord p lc ch est s')
  show ?case by (rule ctx_inv_same_orders [OF connect.prems]) (auto simp: connect.hyps split: if_splits)
next
  case (connect_fail c t ord p lc e s')
  show ?case by (rule ctx_inv_same_orders [OF connect_fail.prems]) (auto  split: if_splits)
next
  case (transfer c t ord ch s' ch')
  show ?case by (rule ctx_inv_same_orders [OF transfer.prems]) (auto simp: transfer.hyps split: if_splits)
next
  case (give_up c t ord ch)
  show ?case by (rule ctx_inv_same_orders [OF give_up.prems]) (auto simp: give_up.hyps split: if_splits)
next
  case (clean c t ord result)
  show ?case by (rule ctx_inv_same_orders [OF clean.prems]) (auto simp: complete_thread_frame split: if_splits)
next
  case (die c t ord ch)
  show ?case by (rule ctx_inv_same_orders [OF die.prems]) (auto simp: die.hyps split: if_splits)
next
  case (reset c)
  show ?case by (rule ctx_inv_same_orders [OF reset.prems]) (auto simp: reset_provider_metrics_def split: if_splits)
next
  case (redirected c h)
  then show ?case by (simp add: release_guard_def ctx_inv_def)
next
  case (outside c w)
  then show ?case by (simp add: ctx_inv_def)
qed

lemma ctx_reachable_inv: "ctx_reachable tr token c \<Longrightarrow> ctx_inv c"
proof (induction rule: ctx_reachable.induct)
  case (init ps w c)
  then show ?case
    by (auto simp: job_context_new_def ctx_inv_def split: option.splits)
next
  case (step c c')
  then show ?case by (blast intro: ctx_inv_step)
qed

text \<open>The vector of providers never changes, so its identifiers stay distinct.\<close>

lemma ctx_step_providers:
  "ctx_step tr token c c' \<Longrightarrow>
    guard_providers (guards (ctx_shared c')) = guard_providers (guards (ctx_shared c))"
proof (induction rule: ctx_step.induct)
  case (sched ord cp resume c outcome c')
  then show ?case by (cases rule: try_schedule_cases) simp_all
next
  case (clean c t ord result)
  then show ?case by (simp add: complete_thread_frame handle_result_frame)
qed (auto simp: finish_order_def reset_provider_metrics_def release_guard_def dest!: get_channel_frame)

lemma ctx_reachable_providers:
  "ctx_reachable tr token c \<Longrightarrow> distinct (map (identifier_of tr) (guard_providers (guards (ctx_shared c))))"
proof (induction rule: ctx_reachable.induct)
  case (init ps w c)
  then have "distinct (map (identifier_of tr) ps)" using job_context_new_iff by fastforce
  with init show ?case by (auto simp: job_context_new_def simp del: map_map split: option.splits)
next
  case (step c c')
  then show ?case using ctx_step_providers by metis
qed

subsection \<open>No connection is in two places\<close>

text \<open>Reusing and releasing a channel keep its handle (in the program: the same curl handle).\<close>

definition keeps_handle ::
  "('p, 'o, 's, 'c, 'oe, 'e, 'w) job_trait \<Rightarrow> ('c \<Rightarrow> nat) \<Rightarrow> bool" where
  "keeps_handle tr token \<longleftrightarrow>
     (\<forall>ord lc ch w ch' w'. reuse_channel tr ord lc ch w = Some (Inr ch', w') \<longrightarrow> token ch' = token ch) \<and>
     (\<forall>ch w. token (fst (release_job_resources tr ch w)) = token ch)"

definition exclusive_channels :: "('c \<Rightarrow> nat) \<Rightarrow> ('p, 'o, 'c, 'e, 'w) job_context \<Rightarrow> bool" where
  "exclusive_channels token c \<longleftrightarrow>
     (\<forall>l l' a b. channel_at c l = Some a \<longrightarrow> channel_at c l' = Some b \<longrightarrow> token a = token b \<longrightarrow> l = l')"

lemma exclusiveD:
  "exclusive_channels token c \<Longrightarrow> channel_at c l = Some a \<Longrightarrow> channel_at c l' = Some b \<Longrightarrow>
    token a = token b \<Longrightarrow> l = l'"
  unfolding exclusive_channels_def by blast

lemma channel_at_simps [simp]:
  "channel_at c (Inl p) = channels (ctx_shared c) p"
  "channel_at c (Inr t) = (case threads c t of None \<Rightarrow> None | Some th \<Rightarrow> thread_channel th)"
  by (simp_all add: channel_at_def)

text \<open>
  A step may drop channels, and move one of them: the channel at its new place \<open>dst\<close> either
  has a handle not in use, or the one of the place \<open>src\<close> it leaves.
\<close>

lemma exclusive_move:
  assumes "exclusive_channels token c"
    and other: "\<And>l a. l \<noteq> dst \<Longrightarrow> channel_at c' l = Some a \<Longrightarrow> channel_at c l = Some a"
    and moved: "\<And>a. channel_at c' dst = Some a \<Longrightarrow> token a \<notin> tokens_in_use token c \<or>
      (\<exists>src b. channel_at c src = Some b \<and> token b = token a \<and> (src = dst \<or> channel_at c' src = None))"
  shows "exclusive_channels token c'"
proof -
  have new: "l = dst" if "channel_at c' l = Some b" "channel_at c' dst = Some a" "token a = token b" for l a b
  proof (rule ccontr)
    assume ne: "l \<noteq> dst"
    from other [OF ne that(1)] have old: "channel_at c l = Some b" .
    with moved [OF that(2)] that(3) obtain src d where
      src: "channel_at c src = Some d" "token d = token a" "src = dst \<or> channel_at c' src = None"
      by (auto simp: tokens_in_use_def)
    have "src = l" using exclusiveD [OF assms(1) src(1) old] src(2) that(3) by simp
    with src(3) ne that(1) show False by simp
  qed
  have "l = l'" if ab: "channel_at c' l = Some a" "channel_at c' l' = Some b" "token a = token b" for l l' a b
  proof (cases "l = dst \<or> l' = dst")
    case True
    then show ?thesis using new ab by metis
  next
    case False
    then show ?thesis using exclusiveD [OF assms(1)] other ab by blast
  qed
  then show ?thesis unfolding exclusive_channels_def by blast
qed

lemma exclusive_mono:
  assumes "exclusive_channels token c"
    and "\<And>l a. channel_at c' l = Some a \<Longrightarrow> channel_at c l = Some a"
  shows "exclusive_channels token c'"
  using assms unfolding exclusive_channels_def by blast

lemma connect_exclusive:
  assumes "exclusive_channels token c" and "keeps_handle tr token"
    and t: "threads c t = Some (Running ord None)"
    and get: "get_channel tr p ord lc (ctx_shared c) = Some (Inr (ch, est), s')"
    and fresh: "est = NewChannel \<Longrightarrow> token ch \<notin> tokens_in_use token c"
  shows "exclusive_channels token (c\<lparr>ctx_shared := s', threads := (threads c)(t \<mapsto> Running ord (Some ch))\<rparr>)"
    (is "exclusive_channels token ?c'")
proof (rule exclusive_move [OF assms(1), where dst = "Inr t"])
  show "channel_at c l = Some a" if "l \<noteq> Inr t" "channel_at ?c' l = Some a" for l a
    using that get by (cases l) (auto simp: get_channel_def split: option.splits if_splits)
next
  fix a assume a: "channel_at ?c' (Inr t) = Some a"
  show "token a \<notin> tokens_in_use token c \<or> (\<exists>src b. channel_at c src = Some b \<and> token b = token a \<and>
      (src = Inr t \<or> channel_at ?c' src = None))"
  proof (cases est)
    case NewChannel
    with a fresh show ?thesis by simp
  next
    case ExistingChannel
    with get obtain old w where old: "channels (ctx_shared c) p = Some old"
      "reuse_channel tr ord lc old (world (ctx_shared c)) = Some (Inr ch, w)"
      "channels s' p = None"
      by (cases "channels (ctx_shared c) p") (auto simp: get_channel_def elim!: map_sum_InrE)
    with assms(2) have "token ch = token old" unfolding keeps_handle_def by blast
    with a old show ?thesis by (intro disjI2 exI [of _ "Inl p"] exI [of _ old]) simp
  qed
qed

lemma clean_exclusive:
  assumes "exclusive_channels token c" and "keeps_handle tr token"
    and t: "threads c t = Some (Finishing ord result)"
  shows "exclusive_channels token (snd (complete_thread tr t result c))"
    (is "exclusive_channels token ?c'")
proof (cases "\<exists>job. result = Complete job")
  case True
  then obtain job where r: "result = Complete job" ..
  let ?p = "completed_provider job"
  let ?ch = "fst (release_job_resources tr (completed_channel job) (world (ctx_shared c)))"
  have chans: "channels (ctx_shared ?c') = (channels (ctx_shared c))(?p \<mapsto> ?ch)"
    by (auto simp: complete_thread_frame r release_channel_def split: prod.splits)
  have ths: "threads ?c' = (threads c)(t := None)" by (simp add: complete_thread_frame)
  show ?thesis
  proof (rule exclusive_move [OF assms(1), where dst = "Inl ?p"])
    show "channel_at c l = Some a" if "l \<noteq> Inl ?p" "channel_at ?c' l = Some a" for l a
      using that by (cases l) (auto simp: chans ths split: option.splits if_splits)
    show "token a \<notin> tokens_in_use token c \<or> (\<exists>src b. channel_at c src = Some b \<and> token b = token a \<and>
      (src = Inl ?p \<or> channel_at ?c' src = None))" if "channel_at ?c' (Inl ?p) = Some a" for a
    proof -
      have "token a = token (completed_channel job)"
        using that assms(2) by (auto simp: chans keeps_handle_def)
      then show ?thesis
        by (intro disjI2 exI [of _ "Inr t"] exI [of _ "completed_channel job"]) (simp add: t r ths [unfolded r])
    qed
  qed
next
  case False
  then have "channels (ctx_shared ?c') = channels (ctx_shared c)"
    by (cases result) (auto simp: complete_thread_frame release_channel_def split: prod.splits)
  moreover have "threads ?c' = (threads c)(t := None)" by (simp add: complete_thread_frame)
  ultimately show ?thesis
    by (intro exclusive_mono [OF assms(1)]) (auto simp: channel_at_def split: sum.splits if_splits)
qed

lemma exclusive_step:
  "ctx_step tr token c c' \<Longrightarrow> keeps_handle tr token \<Longrightarrow> exclusive_channels token c \<Longrightarrow>
    exclusive_channels token c'"
proof (induction rule: ctx_step.induct)
  case (sched ord cp resume c outcome c')
  have "channel_at c l = Some a" if "channel_at c' l = Some a" for l a
    using sched.hyps that
    by (cases rule: try_schedule_cases) (auto simp: channel_at_def split: sum.splits if_splits)
  then show ?case by (rule exclusive_mono [OF sched.prems(2)])
next
  case (connect c t ord p lc ch est s')
  then show ?case by (intro connect_exclusive)
next
  case (clean c t ord result)
  then show ?case by (intro clean_exclusive)
next
  case (start c t ord)
  then show ?case by (intro exclusive_mono [OF start.prems(2)]) (simp add: channel_at_def split: sum.splits)
next
  case (connect_fail c t ord p lc e s')
  then show ?case
    by (intro exclusive_mono [OF connect_fail.prems(2)])
      (auto simp: channel_at_def get_channel_def split: sum.splits option.splits if_splits)
next
  case (transfer c t ord ch s' ch')
  let ?c' = "c\<lparr>ctx_shared := s', threads := (threads c)(t \<mapsto> Running ord ch')\<rparr>"
  show ?case
  proof (rule exclusive_move [OF transfer.prems(2), where dst = "Inr t"])
    show "channel_at c l = Some a" if "l \<noteq> Inr t" "channel_at ?c' l = Some a" for l a
      using that transfer.hyps(3) by (cases l) auto
    show "token a \<notin> tokens_in_use token c \<or> (\<exists>src b. channel_at c src = Some b \<and> token b = token a \<and>
      (src = Inr t \<or> channel_at ?c' src = None))" if "channel_at ?c' (Inr t) = Some a" for a
      using that transfer.hyps(1,4) by (cases ch) (auto intro!: disjI2 exI [of _ "Inr t"])
  qed
next
  case (give_up c t ord ch)
  then show ?case
    by (intro exclusive_mono [OF give_up.prems(2)]) (auto simp: channel_at_def split: sum.splits if_splits)
next
  case (finish c t ord ch result)
  then show ?case
    by (intro exclusive_mono [OF finish.prems(2)])
      (auto simp: channel_at_def finish_order_def split: sum.splits if_splits)
next
  case (die c t ord ch)
  then show ?case
    by (intro exclusive_mono [OF die.prems(2)]) (auto simp: channel_at_def split: sum.splits if_splits)
next
  case (reset c)
  then show ?case
    by (intro exclusive_mono [OF reset.prems(2)])
      (simp add: channel_at_def reset_provider_metrics_def split: sum.splits)
next
  case (redirected c h)
  then show ?case
    by (intro exclusive_mono [OF redirected.prems(2)]) (simp add: channel_at_def release_guard_def split: sum.splits)
next
  case (outside c w)
  then show ?case by (intro exclusive_mono [OF outside.prems(2)]) (simp add: channel_at_def split: sum.splits)
qed

lemma ctx_reachable_exclusive:
  "ctx_reachable tr token c \<Longrightarrow> keeps_handle tr token \<Longrightarrow> exclusive_channels token c"
proof (induction rule: ctx_reachable.induct)
  case (init ps w c)
  then show ?case
    by (auto simp: job_context_new_def exclusive_channels_def channel_at_def split: option.splits sum.splits)
next
  case (step c c')
  then show ?case by (blast intro: exclusive_step)
qed

end
