(* ===== verification/Thread_Body.thy ===== *)
theory Thread_Body
  imports Job_Context
begin

section \<open>The thread of an order (lib.rs)\<close>

text \<open>
  The closure that \<open>schedule\<close> spawns, as one function: it locks its mutex, serves the order, takes
  it out of the set of orders in progress, and handles the result. The locale \<open>fresh_handles\<close>
  states what the state machine of \<open>Job_Context\<close> relies on of an implementation's channels, and
  proves that the function is a sequence of its steps.
\<close>

definition thread_body ::
  "('p, 'o, 's, 'c, 'oe, 'e, 'w) job_trait \<Rightarrow>
    (nat \<Rightarrow> phase \<Rightarrow> ('p, 'c, 'w) shared \<Rightarrow> ('p, 'c, 'w) shared) \<Rightarrow> nat \<Rightarrow> 'o \<Rightarrow> 'p option \<Rightarrow>
    ('p, 'o, 'c, 'e, 'w) job_context \<Rightarrow> ('p job_outcome \<times> ('p, 'o, 'c, 'e, 'w) job_context) panics" where
  "thread_body tr env t ord custom_provider c =
     (let c0 = c\<lparr>thread_mutex := (thread_mutex c)(t := Locked)\<rparr>
      in case try_until_success tr env ord custom_provider (ctx_shared c0) of
           None \<Rightarrow> None
         | Some (result, s) \<Rightarrow>
             Some (complete_thread tr t result (finish_order t ord result (c0\<lparr>ctx_shared := s\<rparr>))))"

subsection \<open>Guards are given back\<close>

lemma attempt_guards:
  assumes "attempt tr env ord cp n punished unsucc s = Some (result, lc, ident, punished', s')"
    and quiet: "\<And>n ph s. guards (env n ph s) = guards s"
  shows "guards s' = guards s"
proof -
  from assms(1) obtain h is_last gs m s2 s3 where
    sel: "select_provider tr ord (guards (env n BeforeSelect s)) (metrics (env n BeforeSelect s)) cp unsucc =
      Some ((h, is_last), gs, m)"
    and job: "run_job tr (handle_provider h) ord lc
      (env n BeforeChannel (send_test_message (ProviderSelected ident)
        ((env n BeforeSelect s)\<lparr>guards := gs, metrics := m\<rparr>))) = Some (result, s2)"
    and s3: "s3 = (if punishable result
       then (env n BeforePunish s2)\<lparr>metrics := punish ident (metrics (env n BeforePunish s2))\<rparr> else s2)"
    and s': "s' = s3\<lparr>guards := drop_guard h (guards s3)\<rparr>"
    by (rule attempt_SomeE)
  have "guards s3 = gs"
    using run_job_frame [OF job] s3 by (simp add: quiet send_test_message_def)
  moreover have "drop_guard h gs = guards s"
    using sel
    by (auto simp: select_provider_def quiet get_provider_guard_def split: option.splits list.splits)
  ultimately show ?thesis using s' by simp
qed

lemma try_loop_guards:
  assumes "try_loop tr env ord cp n punished unsucc s = Some (result, punished', s')"
    and quiet: "\<And>n ph s. guards (env n ph s) = guards s"
  shows "guards s' = guards s"
  using assms(1)
proof (induction "NUM_MAX_ATTEMPTS - n" arbitrary: n punished unsucc s rule: less_induct)
  case less
  from less.prems obtain r lc ident punished1 s1 where
    att: "attempt tr env ord cp (Suc n) punished unsucc s = Some (r, lc, ident, punished1, s1)"
    and rest: "s' = s1 \<or> \<not> lc \<and> try_loop tr env ord cp (Suc n) punished1 (insert ident unsucc)
        (drop_result tr r s1) = Some (result, punished', s')"
    by (subst (asm) try_loop.simps) (auto split: option.splits if_splits)
  note one = attempt_guards [OF att quiet]
  show ?case
  proof (cases "s' = s1")
    case False
    with rest have go: "\<not> lc" and rec: "try_loop tr env ord cp (Suc n) punished1 (insert ident unsucc)
        (drop_result tr r s1) = Some (result, punished', s')" by auto
    have "\<not> NUM_MAX_ATTEMPTS \<le> Suc n" using attempt_last_chance [OF att] go by blast
    then have "NUM_MAX_ATTEMPTS - Suc n < NUM_MAX_ATTEMPTS - n" by simp
    from less.hyps [OF this rec] one show ?thesis by simp
  qed (use one in simp)
qed

lemma try_until_success_guards:
  assumes "try_until_success tr env ord cp s = Some (result, s')"
    and quiet: "\<And>n ph s. guards (env n ph s) = guards s"
  shows "guards s' = guards s"
proof -
  from assms(1) obtain punished s1 where "try_loop tr env ord cp 0 [] {} s = Some (result, punished, s1)"
    and "guards s' = guards s1"
    by (auto simp: try_until_success_def Let_def quiet split: option.splits if_splits)
  with try_loop_guards [OF this(1) quiet] show ?thesis by simp
qed

text \<open>An order whose first attempt succeeds.\<close>

lemma first_attempt_succeeds:
  assumes "select_provider tr ord (guards s) (metrics s) cp {} = Some ((h, is_last), gs, m)"
    and "run_job tr (handle_provider h) ord (is_last \<or> \<not> retryable tr ord)
      (send_test_message (ProviderSelected (identifier_of tr (handle_provider h)))
        (s\<lparr>guards := gs, metrics := m\<rparr>)) = Some (Complete job, s2)"
  shows "try_until_success tr no_interference ord cp s =
    Some (Complete job, s2\<lparr>guards := drop_guard h (guards s2)\<rparr>)"
proof -
  have "attempt tr no_interference ord cp 1 [] {} s =
      Some (Complete job, is_last \<or> \<not> retryable tr ord, identifier_of tr (handle_provider h), [],
        s2\<lparr>guards := drop_guard h (guards s2)\<rparr>)"
    using assms by (simp add: attempt_def Let_def NUM_MAX_ATTEMPTS_def)
  then show ?thesis by (simp add: try_until_success_def try_loop.simps [of tr no_interference ord cp 0])
qed

subsection \<open>What the steps need of the channels\<close>

text \<open>
  \<open>bound\<close> is a number above every handle in use: a new channel takes it and raises it.
\<close>

locale fresh_handles =
  fixes tr :: "('p, 'o, 's, 'c, 'oe, 'e, 'w) job_trait" and token :: "'c \<Rightarrow> nat" and bound :: "'w \<Rightarrow> nat"
  assumes new_fresh: "new_channel tr ord lc w = Some (Inr ch, w') \<Longrightarrow> bound w \<le> token ch \<and> token ch < bound w'"
    and new_fails: "new_channel tr ord lc w = Some (Inl e, w') \<Longrightarrow> bound w \<le> bound w'"
    and reuse_keeps: "reuse_channel tr ord lc ch w = Some (Inr ch', w') \<Longrightarrow> token ch' = token ch \<and> bound w \<le> bound w'"
    and reuse_fails: "reuse_channel tr ord lc ch w = Some (Inl e, w') \<Longrightarrow> bound w \<le> bound w'"
    and serve_keeps: "serve_from_provider tr p ord ch w = Some (result, w') \<Longrightarrow>
      map_option token (result_channel result) = Some (token ch) \<and> bound w \<le> bound w'"
    and no_channel: "result_channel (handle_error tr e) = None"
    and progress_keeps: "bound w \<le> bound (send_progress tr ord m w)"
    and release_keeps: "token (fst (release_job_resources tr ch w)) = token ch"
      "bound w \<le> bound (snd (release_job_resources tr ch w))"

text \<open>A state in which a thread serves, and the handles below a bound.\<close>

definition serving ::
  "('p, 'o, 'c, 'e, 'w) job_context \<Rightarrow> nat \<Rightarrow> 'o \<Rightarrow> 'c option \<Rightarrow> ('p, 'c, 'w) shared \<Rightarrow>
    ('p, 'o, 'c, 'e, 'w) job_context" where
  "serving c t ord ch s = c\<lparr>ctx_shared := s, threads := (threads c)(t \<mapsto> Running ord ch)\<rparr>"

definition handles_below :: "('c \<Rightarrow> nat) \<Rightarrow> ('p, 'o, 'c, 'e, 'w) job_context \<Rightarrow> nat \<Rightarrow> bool" where
  "handles_below token c n \<longleftrightarrow> (\<forall>l ch. channel_at c l = Some ch \<longrightarrow> token ch < n)"

lemma handles_belowI:
  "(\<And>l ch. channel_at c l = Some ch \<Longrightarrow> token ch < n) \<Longrightarrow> handles_below token c n"
  unfolding handles_below_def by blast

lemma handles_belowD: "handles_below token c n \<Longrightarrow> channel_at c l = Some ch \<Longrightarrow> token ch < n"
  unfolding handles_below_def by blast

lemma serving_simps [simp]:
  "ctx_shared (serving c t ord ch s) = s" "threads (serving c t ord ch s) t = Some (Running ord ch)"
  "thread_mutex (serving c t ord ch s) = thread_mutex c"
  "orders_in_progress (serving c t ord ch s) = orders_in_progress c"
  "serving (serving c t ord ch s) t ord ch' s' = serving c t ord ch' s'"
  by (simp_all add: serving_def)

lemma channel_at_serving:
  "channel_at (serving c t ord ch s) l = (if l = Inr t then ch else if isl l then channels s (projl l) else channel_at c l)"
  by (cases l) (auto simp: serving_def)

lemma serving_self:
  "threads c t = Some (Running ord ch) \<Longrightarrow> ctx_shared c = s \<Longrightarrow> serving c t ord ch s = c"
  by (auto simp: serving_def fun_upd_idem)

text \<open>The job goes on: shared state changes, but not the idle channels, and the handle stays.\<close>

lemma serving_transfer:
  assumes "guard_providers (guards s') = guard_providers (guards s)" and "channels s' = channels s"
    and "map_option token ch' = map_option token ch"
  shows "ctx_step tr token (serving c t ord ch s) (serving c t ord ch' s')"
  using ctx_step.transfer [of "serving c t ord ch s" t ord ch s' token ch' tr] assms by (simp add: serving_def)

lemma serving_give_up: "ctx_step tr token (serving c t ord (Some ch) s) (serving c t ord None s)"
  using ctx_step.give_up [of "serving c t ord (Some ch) s" t ord ch tr token] by (simp add: serving_def)

lemma handles_below_serving:
  assumes "handles_below token (serving c t ord ch s) n" and "channels s' = channels s"
    and "map_option token ch' = map_option token ch" and "n \<le> n'"
  shows "handles_below token (serving c t ord ch' s') n'"
proof (rule handles_belowI)
  fix l d assume d: "channel_at (serving c t ord ch' s') l = Some d"
  have "token d < n"
  proof (cases "l = Inr t")
    case True
    with d assms(3) obtain b where "ch = Some b" "token b = token d"
      by (cases ch) (auto simp: channel_at_serving)
    then show ?thesis
      using handles_belowD [OF assms(1), of "Inr t" b] by (simp add: channel_at_serving)
  next
    case False
    with d assms(2) have "channel_at (serving c t ord ch s) l = Some d"
      by (simp add: channel_at_serving split: if_splits)
    then show ?thesis by (rule handles_belowD [OF assms(1)])
  qed
  with assms(4) show "token d < n'" by simp
qed

lemma handles_below_drop:
  assumes "handles_below token (serving c t ord ch s) n"
  shows "handles_below token (serving c t ord None s) n"
proof (rule handles_belowI)
  fix l d assume "channel_at (serving c t ord None s) l = Some d"
  then have "channel_at (serving c t ord ch s) l = Some d" by (simp add: channel_at_serving split: if_splits)
  then show "token d < n" by (rule handles_belowD [OF assms])
qed

subsection \<open>The loop as steps\<close>

text \<open>Steps of other threads that leave the idle channels and the vector of providers alone, and
  take handles only upwards.\<close>

definition quiet :: "('w \<Rightarrow> nat) \<Rightarrow> (nat \<Rightarrow> phase \<Rightarrow> ('p, 'c, 'w) shared \<Rightarrow> ('p, 'c, 'w) shared) \<Rightarrow> bool" where
  "quiet bound env \<longleftrightarrow> (\<forall>n ph s. guard_providers (guards (env n ph s)) = guard_providers (guards s) \<and>
     channels (env n ph s) = channels s \<and> bound (world s) \<le> bound (world (env n ph s)))"

context fresh_handles
begin

lemma get_channel_new_or_idle:
  assumes "get_channel tr p ord lc s = Some (Inr (ch, est), s1)"
  shows "bound (world s) \<le> bound (world s1)"
    and "est = NewChannel \<Longrightarrow> channels s1 = channels s \<and> bound (world s) \<le> token ch \<and> token ch < bound (world s1)"
    and "est = ExistingChannel \<Longrightarrow> channels s1 = (channels s)(p := None) \<and>
      (\<exists>old. channels s p = Some old \<and> token old = token ch)"
proof (atomize (full), cases "channels s p")
  case None
  with assms have "new_channel tr ord lc (world s) = Some (Inr ch, world s1)" "est = NewChannel" "channels s1 = channels s"
    by (auto simp: get_channel_def elim!: map_sum_InrE)
  with new_fresh [OF this(1)] show "bound (world s) \<le> bound (world s1) \<and>
      (est = NewChannel \<longrightarrow> channels s1 = channels s \<and> bound (world s) \<le> token ch \<and> token ch < bound (world s1)) \<and>
      (est = ExistingChannel \<longrightarrow> channels s1 = (channels s)(p := None) \<and>
        (\<exists>old. channels s p = Some old \<and> token old = token ch))" by simp
next
  case (Some old)
  with assms have "reuse_channel tr ord lc old (world s) = Some (Inr ch, world s1)" "est = ExistingChannel"
    "channels s1 = (channels s)(p := None)"
    by (auto simp: get_channel_def elim!: map_sum_InrE)
  with reuse_keeps [OF this(1)] Some show "bound (world s) \<le> bound (world s1) \<and>
      (est = NewChannel \<longrightarrow> channels s1 = channels s \<and> bound (world s) \<le> token ch \<and> token ch < bound (world s1)) \<and>
      (est = ExistingChannel \<longrightarrow> channels s1 = (channels s)(p := None) \<and>
        (\<exists>old. channels s p = Some old \<and> token old = token ch))" by simp
qed

lemma get_channel_fails:
  assumes "get_channel tr p ord lc s = Some (Inl e, s1)"
  shows "bound (world s) \<le> bound (world s1)" and "channels s1 \<subseteq>\<^sub>m channels s"
  using assms new_fails reuse_fails
  by (auto simp: get_channel_def map_le_def dom_def elim!: map_sum_InlE split: option.splits if_splits)

lemma connect_below:
  assumes "handles_below token (serving c t ord None s) (bound (world s))"
    and "get_channel tr p ord lc s = Some (Inr (ch, est), s1)"
  shows "handles_below token (serving c t ord (Some ch) s1) (bound (world s1))"
proof (rule handles_belowI)
  note new = get_channel_new_or_idle [OF assms(2)]
  fix l d assume d: "channel_at (serving c t ord (Some ch) s1) l = Some d"
  show "token d < bound (world s1)"
  proof (cases "l = Inr t")
    case True
    with d have "d = ch" by (simp add: channel_at_serving)
    show ?thesis
    proof (cases est)
      case NewChannel
      with new(2) \<open>d = ch\<close> show ?thesis by simp
    next
      case ExistingChannel
      with new(3) obtain old where "channels s p = Some old" "token old = token ch" by blast
      then have "token ch < bound (world s)"
        using handles_belowD [OF assms(1), of "Inl p" old] by (simp add: channel_at_serving)
      with new(1) \<open>d = ch\<close> show ?thesis by simp
    qed
  next
    case False
    with d new(2,3) have "channel_at (serving c t ord None s) l = Some d"
      by (cases est) (auto simp: channel_at_serving split: if_splits)
    from handles_belowD [OF assms(1) this] new(1) show ?thesis by simp
  qed
qed

lemma run_job_steps:
  assumes "run_job tr p ord lc s = Some (result, s')"
    and below: "handles_below token (serving c t ord None s) (bound (world s))"
  shows "(ctx_step tr token)\<^sup>*\<^sup>* (serving c t ord None s) (serving c t ord (result_channel result) s')"
    and "handles_below token (serving c t ord (result_channel result) s') (bound (world s'))"
proof -
  from assms(1) consider
      (ok) ch est s1 w where "get_channel tr p ord lc s = Some (Inr (ch, est), s1)"
        "serve_from_provider tr p ord ch (world s1) = Some (result, w)"
        "s' = (send_test_message (ChannelEstablished est) s1)\<lparr>world := w\<rparr>"
    | (failed) e s1 where "get_channel tr p ord lc s = Some (Inl e, s1)" "result = handle_error tr e"
        "s' = (send_test_message OrderError s1)\<lparr>world := send_progress tr ord ProgressOrderError (world s1)\<rparr>"
    by (auto simp: run_job_def Let_def send_test_message_def split: option.splits sum.splits)
  then have "(ctx_step tr token)\<^sup>*\<^sup>* (serving c t ord None s) (serving c t ord (result_channel result) s') \<and>
    handles_below token (serving c t ord (result_channel result) s') (bound (world s'))"
  proof cases
    case ok
    have fresh: "token ch \<notin> tokens_in_use token (serving c t ord None s)" if "est = NewChannel"
      using get_channel_new_or_idle(2) [OF ok(1) that] handles_belowD [OF below]
      by (fastforce simp: tokens_in_use_def)
    have one: "ctx_step tr token (serving c t ord None s) (serving c t ord (Some ch) s1)"
      using ctx_step.connect [of "serving c t ord None s" t ord tr p lc ch est s1 token] ok(1) fresh
      by (simp add: serving_def)
    have s': "guards s' = guards s1" "channels s' = channels s1" "world s' = w"
      using ok(3) by (simp_all add: send_test_message_def)
    note keeps = serve_keeps [OF ok(2)]
    have "ctx_step tr token (serving c t ord (Some ch) s1) (serving c t ord (result_channel result) s')"
      using s' keeps by (intro serving_transfer) simp_all
    moreover have "handles_below token (serving c t ord (result_channel result) s') (bound (world s'))"
      using handles_below_serving [OF connect_below [OF below ok(1)] s'(2)] keeps s'(3) by simp
    ultimately show ?thesis using one by (auto intro: rtranclp.rtrancl_into_rtrancl)
  next
    case failed
    have none: "result_channel result = None" using failed(2) no_channel by simp
    have "(serving c t ord None s)\<lparr>ctx_shared := s1\<rparr> = serving c t ord None s1"
      by (cases c) (simp add: serving_def)
    then have one: "ctx_step tr token (serving c t ord None s) (serving c t ord None s1)"
      using ctx_step.connect_fail [of "serving c t ord None s" t ord tr p lc e s1 token] failed(1) by simp
    have s': "guards s' = guards s1" "channels s' = channels s1"
      "world s' = send_progress tr ord ProgressOrderError (world s1)"
      using failed(3) by (simp_all add: send_test_message_def)
    have "ctx_step tr token (serving c t ord None s1) (serving c t ord None s')"
      using s' by (intro serving_transfer) simp_all
    moreover have "handles_below token (serving c t ord None s') (bound (world s'))"
    proof (rule handles_belowI)
      fix l d assume d: "channel_at (serving c t ord None s') l = Some d"
      have "channel_at (serving c t ord None s) l = Some d"
        using d s'(2) get_channel_fails(2) [OF failed(1)]
        by (auto simp: channel_at_serving map_le_def dom_def split: if_splits)
      from handles_belowD [OF below this] get_channel_fails(1) [OF failed(1)] progress_keeps
      show "token d < bound (world s')" unfolding s'(3) by (meson less_le_trans)
    qed
    ultimately show ?thesis using one none by (auto intro: rtranclp.rtrancl_into_rtrancl)
  qed
  then show "(ctx_step tr token)\<^sup>*\<^sup>* (serving c t ord None s) (serving c t ord (result_channel result) s')"
    and "handles_below token (serving c t ord (result_channel result) s') (bound (world s'))" by blast+
qed

lemma drop_result_steps:
  assumes "handles_below token (serving c t ord (result_channel result) s) (bound (world s))"
  shows "(ctx_step tr token)\<^sup>*\<^sup>* (serving c t ord (result_channel result) s)
      (serving c t ord None (drop_result tr result s))"
    and "handles_below token (serving c t ord None (drop_result tr result s)) (bound (world (drop_result tr result s)))"
proof -
  have grows: "bound (world s) \<le> bound (world (drop_result tr result s))"
    using release_keeps(2) by (simp add: drop_result_def split: option.splits)
  have "ctx_step tr token (serving c t ord (result_channel result) s)
      (serving c t ord (result_channel result) (drop_result tr result s))"
    by (rule serving_transfer) simp_all
  moreover have "(ctx_step tr token)\<^sup>*\<^sup>* (serving c t ord ch s1) (serving c t ord None s1)" for ch s1
    by (cases ch) (auto intro: serving_give_up)
  ultimately show "(ctx_step tr token)\<^sup>*\<^sup>* (serving c t ord (result_channel result) s)
      (serving c t ord None (drop_result tr result s))"
    by (rule converse_rtranclp_into_rtranclp)
  show "handles_below token (serving c t ord None (drop_result tr result s)) (bound (world (drop_result tr result s)))"
    using handles_below_serving [OF handles_below_drop [OF assms] _ refl grows] by simp
qed

lemma serving_change:
  assumes "guard_providers (guards s') = guard_providers (guards s)" and "channels s' = channels s"
    and "bound (world s) \<le> bound (world s')"
    and "handles_below token (serving c t ord ch s) (bound (world s))"
  shows "ctx_step tr token (serving c t ord ch s) (serving c t ord ch s')"
    and "handles_below token (serving c t ord ch s') (bound (world s'))"
  by (rule serving_transfer [OF assms(1,2) refl], rule handles_below_serving [OF assms(4,2) refl assms(3)])

lemma attempt_steps:
  assumes "attempt tr env ord cp n punished unsucc s = Some (result, lc, ident, punished', s')"
    and "quiet bound env" and below: "handles_below token (serving c t ord None s) (bound (world s))"
  shows "(ctx_step tr token)\<^sup>*\<^sup>* (serving c t ord None s) (serving c t ord (result_channel result) s')"
    and "handles_below token (serving c t ord (result_channel result) s') (bound (world s'))"
proof -
  from assms(1) obtain h is_last gs m s2 s3 where
    sel: "select_provider tr ord (guards (env n BeforeSelect s)) (metrics (env n BeforeSelect s)) cp unsucc =
      Some ((h, is_last), gs, m)"
    and job: "run_job tr (handle_provider h) ord lc
      (env n BeforeChannel (send_test_message (ProviderSelected ident)
        ((env n BeforeSelect s)\<lparr>guards := gs, metrics := m\<rparr>))) = Some (result, s2)"
    and s3: "s3 = (if punishable result
       then (env n BeforePunish s2)\<lparr>metrics := punish ident (metrics (env n BeforePunish s2))\<rparr> else s2)"
    and s': "s' = s3\<lparr>guards := drop_guard h (guards s3)\<rparr>"
    by (rule attempt_SomeE)
  let ?s1 = "env n BeforeChannel (send_test_message (ProviderSelected ident)
        ((env n BeforeSelect s)\<lparr>guards := gs, metrics := m\<rparr>))"
  have env: "guard_providers (guards (env n ph s)) = guard_providers (guards s)" "channels (env n ph s) = channels s"
    "bound (world s) \<le> bound (world (env n ph s))" for n ph s
    using assms(2) unfolding quiet_def by blast+
  have gs: "guard_providers gs = guard_providers (guards s)"
    using sel env(1)
    by (auto simp: select_provider_def get_provider_guard_def split: option.splits list.splits)
  have "bound (world (env n BeforeSelect s)) \<le> bound (world ?s1)"
    using env(3) [of "send_test_message (ProviderSelected ident)
      ((env n BeforeSelect s)\<lparr>guards := gs, metrics := m\<rparr>)" n BeforeChannel] by (simp add: send_test_message_def)
  then have "bound (world s) \<le> bound (world ?s1)" using env(3) order_trans by blast
  moreover have "guard_providers (guards ?s1) = guard_providers (guards s)" "channels ?s1 = channels s"
    using gs by (simp_all add: env send_test_message_def)
  ultimately have select: "ctx_step tr token (serving c t ord None s) (serving c t ord None ?s1)"
    and below1: "handles_below token (serving c t ord None ?s1) (bound (world ?s1))"
    using serving_change below by blast+
  note job' = run_job_steps [OF job below1]
  have "guard_providers (guards s') = guard_providers (guards s2)" "channels s' = channels s2"
    "bound (world s2) \<le> bound (world s')"
    using s' s3 env by (simp_all split: if_splits)
  note after = serving_change [OF this job'(2)]
  show "(ctx_step tr token)\<^sup>*\<^sup>* (serving c t ord None s) (serving c t ord (result_channel result) s')"
    using select job'(1) after(1)
    by (meson converse_rtranclp_into_rtranclp rtranclp.rtrancl_into_rtrancl)
  show "handles_below token (serving c t ord (result_channel result) s') (bound (world s'))" by (rule after(2))
qed

lemma try_loop_steps:
  assumes "try_loop tr env ord cp n punished unsucc s = Some (result, punished', s')"
    and "quiet bound env" and "handles_below token (serving c t ord None s) (bound (world s))"
  shows "(ctx_step tr token)\<^sup>*\<^sup>* (serving c t ord None s) (serving c t ord (result_channel result) s') \<and>
    handles_below token (serving c t ord (result_channel result) s') (bound (world s'))"
  using assms(1,3)
proof (induction "NUM_MAX_ATTEMPTS - n" arbitrary: n punished unsucc s rule: less_induct)
  case less
  from less.prems(1) obtain r lc ident punished1 s1 where
    att: "attempt tr env ord cp (Suc n) punished unsucc s = Some (r, lc, ident, punished1, s1)"
    and rest: "(s' = s1 \<and> result = r) \<or> \<not> lc \<and> try_loop tr env ord cp (Suc n) punished1 (insert ident unsucc)
        (drop_result tr r s1) = Some (result, punished', s')"
    by (subst (asm) try_loop.simps) (auto split: option.splits if_splits)
  note one = attempt_steps [OF att assms(2) less.prems(2)]
  show ?case
  proof (cases "s' = s1 \<and> result = r")
    case False
    with rest have go: "\<not> lc" and rec: "try_loop tr env ord cp (Suc n) punished1 (insert ident unsucc)
        (drop_result tr r s1) = Some (result, punished', s')" by auto
    have "\<not> NUM_MAX_ATTEMPTS \<le> Suc n" using attempt_last_chance [OF att] go by blast
    then have "NUM_MAX_ATTEMPTS - Suc n < NUM_MAX_ATTEMPTS - n" by simp
    note dropped = drop_result_steps [OF one(2)]
    show ?thesis
      using less.hyps [OF \<open>NUM_MAX_ATTEMPTS - Suc n < NUM_MAX_ATTEMPTS - n\<close> rec dropped(2)] one(1) dropped(1)
      by (meson rtranclp_trans)
  qed (use one in blast)
qed

lemma handle_result_below:
  assumes "\<And>l ch. l \<noteq> Inr t \<Longrightarrow> channel_at c l = Some ch \<Longrightarrow> token ch < bound (world (ctx_shared c))"
    and "\<And>ch. result_channel result = Some ch \<Longrightarrow> token ch < bound (world (ctx_shared c))"
  shows "handles_below token (snd (complete_thread tr t result c))
    (bound (world (ctx_shared (snd (complete_thread tr t result c)))))"
proof (rule handles_belowI)
  let ?s = "snd (handle_result tr result (ctx_shared c))"
  fix l d assume d: "channel_at (snd (complete_thread tr t result c)) l = Some d"
  have grows: "bound (world (ctx_shared c)) \<le> bound (world ?s)"
    using release_keeps(2) by (cases result) (simp_all add: release_channel_def case_prod_beta)
  have "token d < bound (world (ctx_shared c))"
  proof (cases "\<exists>job. result = Complete job \<and> l = Inl (completed_provider job)")
    case True
    then obtain job where job: "result = Complete job" "l = Inl (completed_provider job)" by blast
    with d have "token d = token (completed_channel job)"
      using release_keeps(1) by (auto simp: complete_thread_frame release_channel_def case_prod_beta)
    with assms(2) job(1) show ?thesis by simp
  next
    case False
    with d have "l \<noteq> Inr t" "channel_at c l = Some d"
      by (cases l; cases result; auto simp: complete_thread_frame release_channel_def split: prod.splits if_splits)+
    then show ?thesis by (rule assms(1))
  qed
  with grows show "token d < bound (world (ctx_shared (snd (complete_thread tr t result c))))"
    by (simp add: complete_thread_frame)
qed

text \<open>The thread's whole body is a sequence of steps that ends with the thread gone.\<close>

lemma thread_body_steps:
  assumes "thread_body tr env t ord cp c = Some (outcome, c')" and "quiet bound env"
    and "threads c t = Some (Running ord None)" and "handles_below token c (bound (world (ctx_shared c)))"
  shows "(ctx_step tr token)\<^sup>*\<^sup>* c c' \<and> handles_below token c' (bound (world (ctx_shared c'))) \<and>
    threads c' = (threads c)(t := None) \<and> thread_mutex c' = (thread_mutex c)(t := Unlocked) \<and>
    orders_in_progress c' = orders_in_progress c - {ord}"
proof -
  let ?c0 = "c\<lparr>thread_mutex := (thread_mutex c)(t := Locked)\<rparr>"
  from assms(1) obtain result s where
    run: "try_until_success tr env ord cp (ctx_shared c) = Some (result, s)"
    and c': "c' = snd (complete_thread tr t result (finish_order t ord result (?c0\<lparr>ctx_shared := s\<rparr>)))"
    by (auto simp: thread_body_def split: option.splits)
  from run obtain punished s1 where
    loop: "try_loop tr env ord cp 0 [] {} (ctx_shared c) = Some (result, punished, s1)"
    and s: "s = (if is_success result then s1
      else (env 0 BeforePardon s1)\<lparr>metrics := pardon punished (metrics (env 0 BeforePardon s1))\<rparr>)"
    by (auto simp: try_until_success_def Let_def split: option.splits if_splits)
  have c0: "serving ?c0 t ord None (ctx_shared c) = ?c0" using assms(3) by (intro serving_self) simp_all
  have "channel_at ?c0 = channel_at c" by (rule ext) (simp add: channel_at_def split: sum.splits)
  then have "handles_below token (serving ?c0 t ord None (ctx_shared c)) (bound (world (ctx_shared c)))"
    using assms(4) unfolding c0 handles_below_def by simp
  note loop' = try_loop_steps [OF loop assms(2) this, THEN conjunct1] try_loop_steps [OF loop assms(2) this, THEN conjunct2]
  have "guard_providers (guards s) = guard_providers (guards s1)" "channels s = channels s1"
    "bound (world s1) \<le> bound (world s)"
    using s assms(2) by (simp_all add: quiet_def)
  note pardoned = serving_change [OF this loop'(2)]
  let ?c1 = "serving ?c0 t ord (result_channel result) s"
  have same: "finish_order t ord result ?c1 = finish_order t ord result (?c0\<lparr>ctx_shared := s\<rparr>)"
    by (simp add: finish_order_def serving_def)
  have "ctx_step tr token c ?c0" using assms(3) by (rule ctx_step.start)
  moreover have "ctx_step tr token ?c1 (finish_order t ord result ?c1)" by (rule ctx_step.finish) simp_all
  moreover have "ctx_step tr token (finish_order t ord result ?c1)
      (snd (complete_thread tr t result (finish_order t ord result ?c1)))"
    by (rule ctx_step.clean [where ord = ord]) (simp add: finish_order_def)
  ultimately have "(ctx_step tr token)\<^sup>*\<^sup>* c c'"
    using loop'(1) pardoned(1) unfolding c0 c' same
    by (metis (no_types, lifting) converse_rtranclp_into_rtranclp rtranclp.rtrancl_into_rtrancl)
  moreover have "handles_below token c' (bound (world (ctx_shared c')))"
    unfolding c' same [symmetric]
  proof (rule handle_result_below)
    have shared: "ctx_shared (finish_order t ord result ?c1) = s" by (simp add: finish_order_def)
    show "token ch < bound (world (ctx_shared (finish_order t ord result ?c1)))"
      if "l \<noteq> Inr t" "channel_at (finish_order t ord result ?c1) l = Some ch" for l ch
    proof -
      have "channel_at ?c1 l = Some ch"
        using that by (cases l) (auto simp: finish_order_def serving_def)
      from handles_belowD [OF pardoned(2) this] show ?thesis by (simp add: shared)
    qed
    show "token ch < bound (world (ctx_shared (finish_order t ord result ?c1)))"
      if "result_channel result = Some ch" for ch
      unfolding shared using handles_belowD [OF pardoned(2), of "Inr t" ch] that by (simp add: channel_at_serving)
  qed
  moreover have "threads c' = (threads c)(t := None)" "thread_mutex c' = (thread_mutex c)(t := Unlocked)"
    "orders_in_progress c' = orders_in_progress c - {ord}"
    by (simp_all add: c' complete_thread_frame finish_order_def)
  ultimately show ?thesis by blast
qed

end

end
