(* ===== verification/Context_Properties.thy ===== *)
theory Context_Properties
  imports Thread_Body Dummy_Job
begin

section \<open>Properties of the job context\<close>

text \<open>
  The properties of \<open>JobContext\<close>: creation, the decision of \<open>try_schedule\<close>, what holds in
  every state the threads can reach, and that an order gives back the guards it took. The witnesses run the integration tests' providers.
\<close>

subsection \<open>A run of the tests' context\<close>

definition dummy_ctx0 ::
  "(dummy_provider, dummy_order, unit, unit, flexo_progress list) job_context" where
  "dummy_ctx0 = \<lparr>ctx_shared = dummy_state [dummy_p1, dummy_p2], orders_in_progress = {},
     panic_monitor = [], thread_mutex = (\<lambda>_. Unlocked), threads = (\<lambda>_. None), next_thread = 0\<rparr>"

definition dummy_ctx1 ::
  "(dummy_provider, dummy_order, unit, unit, flexo_progress list) job_context" where
  "dummy_ctx1 = dummy_ctx0\<lparr>orders_in_progress := {success_order}, panic_monitor := [0],
     threads := [0 \<mapsto> Running success_order None], next_thread := 1\<rparr>"

abbreviation no_token :: "unit \<Rightarrow> nat" where
  "no_token \<equiv> (\<lambda>_. 0)"

definition dummy_ctx2 ::
  "(dummy_provider, dummy_order, unit, unit, flexo_progress list) job_context" where
  "dummy_ctx2 = dummy_ctx1\<lparr>threads := (threads dummy_ctx1)(0 \<mapsto> Running success_order (Some ()))\<rparr>"

lemma dummy_ctx0: "job_context_new dummy_trait [dummy_p1, dummy_p2] [] = Some dummy_ctx0"
  by (simp add: job_context_new_def check_duplicates_def dummy_ctx0_def dummy_state_def)

lemma dummy_ctx0_simps [simp]:
  "orders_in_progress dummy_ctx0 = {}" "panic_monitor dummy_ctx0 = []"
  "thread_mutex dummy_ctx0 = (\<lambda>_. Unlocked)" "threads dummy_ctx0 = (\<lambda>_. None)"
  "next_thread dummy_ctx0 = 0" "ctx_shared dummy_ctx0 = dummy_state [dummy_p1, dummy_p2]"
  by (simp_all add: dummy_ctx0_def)

lemma dummy_schedule:
  "try_schedule dummy_trait success_order None None dummy_ctx0 = Some (Scheduled 0, dummy_ctx1)"
proof -
  have "(\<lambda>_. Unlocked)(0 := Unlocked) = (\<lambda>_ :: nat. Unlocked)" by auto
  then show ?thesis
    by (simp add: try_schedule_def schedule_def dummy_ctx1_def success_order_def)
qed

lemma dummy_reachable:
  "ctx_reachable dummy_trait no_token dummy_ctx0" "ctx_reachable dummy_trait no_token dummy_ctx1"
  using ctx_reachable.init [OF dummy_ctx0] dummy_schedule
  by (blast intro: ctx_reachable.step ctx_step.sched)+

lemma dummy_ctx1_simps [simp]:
  "orders_in_progress dummy_ctx1 = {success_order}" "panic_monitor dummy_ctx1 = [0]"
  "thread_mutex dummy_ctx1 = (\<lambda>_. Unlocked)" "threads dummy_ctx1 = [0 \<mapsto> Running success_order None]"
  "next_thread dummy_ctx1 = 1" "ctx_shared dummy_ctx1 = dummy_state [dummy_p1, dummy_p2]"
  by (simp_all add: dummy_ctx1_def)

lemma dummy_keeps_handle: "keeps_handle dummy_trait no_token"
  by (simp add: keeps_handle_def)

lemma dummy_lookup: "cache_lookup dummy_trait ord w = Some (None, w)"
  by (simp add: cache_lookup_def)

subsection \<open>Creation and scheduling\<close>

text \<open>\<open>JobContext::new\<close> accepts exactly the lists of providers whose identifiers are
  pairwise distinct; on any other list it panics.\<close>

lemma job_context_new_distinct:
  "job_context_new tr ps w \<noteq> None \<longleftrightarrow> distinct (map (identifier_of tr) ps)"
  by (rule job_context_new_iff)

text \<open>C14: \<open>try_schedule\<close> refines the abstract decision: an order in flight changes nothing; a
  resume offset beyond what is cached is redirected; a complete file is served from the cache;
  anything else is downloaded by a new thread, and only then is the order entered in the set.\<close>

theorem try_schedule_decides:
  assumes "try_schedule tr ord cp resume c = Some (out, c')"
    and "cache_lookup tr ord (world (ctx_shared c)) = Some (item, w)"
  shows "decision_of out =
      decide (ord \<in> orders_in_progress c) item (case resume of None \<Rightarrow> 0 | Some r \<Rightarrow> r)
    \<and> (decision_of out = InFlight \<longrightarrow> c' = c)
    \<and> orders_in_progress c' =
        (if decision_of out = Download then insert ord (orders_in_progress c) else orders_in_progress c)
    \<and> threads c' =
        (if decision_of out = Download then (threads c)(next_thread c \<mapsto> Running ord None) else threads c)
    \<and> metrics (ctx_shared c') = metrics (ctx_shared c)
    \<and> channels (ctx_shared c') = channels (ctx_shared c)"
  using assms(1)
proof (cases rule: try_schedule_cases)
  case in_flight
  then show ?thesis by (simp add: decide_def Let_def)
qed (use assms(2) in auto)

theorem try_schedule_decides_witness:
  "decision_of (Scheduled 0 :: dummy_provider schedule_outcome) =
      decide (success_order \<in> orders_in_progress dummy_ctx0) None 0 \<and>
    decision_of (AlreadyInProgress :: dummy_provider schedule_outcome) =
      decide (success_order \<in> orders_in_progress dummy_ctx1) None 7"
proof -
  have again: "try_schedule dummy_trait success_order None (Some 7) dummy_ctx1 =
      Some (AlreadyInProgress, dummy_ctx1)"
    by (simp add: try_schedule_def)
  show ?thesis
    using try_schedule_decides [OF dummy_schedule dummy_lookup]
      try_schedule_decides [OF again dummy_lookup] by simp
qed

subsection \<open>The reachable states\<close>

text \<open>C1: Two threads never download the same order at the same time, and an order being
  downloaded is in the set of orders in progress, in every reachable state.\<close>

theorem one_download_per_order:
  assumes "ctx_reachable tr token c"
    and "threads c t = Some (Running ord ch)" and "threads c t' = Some (Running ord ch')"
  shows "t = t' \<and> ord \<in> orders_in_progress c"
  using ctx_invD(2,3) [OF ctx_reachable_inv [OF assms(1)]] assms(2,3) by blast

theorem one_download_per_order_witness:
  "{t. \<exists>ch. threads dummy_ctx1 t = Some (Running success_order ch)} = {0} \<and>
    success_order \<in> orders_in_progress dummy_ctx1"
proof -
  have here: "threads dummy_ctx1 0 = Some (Running success_order None)" by (simp add: dummy_ctx1_def)
  note one = one_download_per_order [OF dummy_reachable(2) here]
  show ?thesis using one [of 0] here by (auto dest: one)
qed

text \<open>C15: A connection is never in two places: in every reachable state two channels with the same
  handle are one, whether idle under a provider or held by a thread.\<close>

theorem channels_exclusive:
  assumes "ctx_reachable tr token c" and "keeps_handle tr token"
    and "channel_at c l = Some a" and "channel_at c l' = Some b" and "token a = token b"
  shows "l = l'"
  using exclusiveD [OF ctx_reachable_exclusive [OF assms(1,2)] assms(3-5)] .

lemma dummy_ctx2_reachable: "ctx_reachable dummy_trait no_token dummy_ctx2"
proof -
  have "get_channel dummy_trait dummy_p1 success_order True (ctx_shared dummy_ctx1) =
      Some (Inr ((), NewChannel), ctx_shared dummy_ctx1)"
    by (simp add: get_channel_def)
  moreover have "tokens_in_use no_token dummy_ctx1 = {}"
    by (auto simp: tokens_in_use_def channel_at_def split: sum.splits if_splits)
  ultimately have "ctx_step dummy_trait no_token dummy_ctx1
      (dummy_ctx1\<lparr>ctx_shared := ctx_shared dummy_ctx1,
        threads := (threads dummy_ctx1)(0 \<mapsto> Running success_order (Some ()))\<rparr>)"
    by (intro ctx_step.connect) simp_all
  moreover have "dummy_ctx1\<lparr>ctx_shared := ctx_shared dummy_ctx1,
      threads := (threads dummy_ctx1)(0 \<mapsto> Running success_order (Some ()))\<rparr> = dummy_ctx2"
    by (simp add: dummy_ctx2_def dummy_ctx1_def dummy_ctx0_def)
  ultimately have "ctx_step dummy_trait no_token dummy_ctx1 dummy_ctx2" by (simp only:)
  with dummy_reachable(2) show ?thesis by (rule ctx_reachable.step)
qed

theorem channels_exclusive_witness:
  "{l. channel_at dummy_ctx2 l = Some ()} = {Inr 0}"
proof -
  have here: "channel_at dummy_ctx2 (Inr 0) = Some ()" by (simp add: dummy_ctx2_def)
  show ?thesis
    using here channels_exclusive [OF dummy_ctx2_reachable dummy_keeps_handle _ here] by auto
qed



text \<open>A panic can go unnoticed: a spawned thread that has not locked its mutex yet when the
  next order is scheduled is swept from the panic monitor, and if it panics later, its poisoned
  mutex is not among those \<open>schedule\<close> looks at.\<close>

lemma unnoticed_panic:
  assumes "ctx_reachable tr token c"
    and "threads c t = Some (Running ord None)" and "thread_mutex c t = Unlocked"
    and "try_schedule tr ord' cp resume c = Some (Scheduled t', c1)"
  shows "\<exists>c2. ctx_reachable tr token c2 \<and> thread_mutex c2 t = Poisoned \<and> t \<notin> set (panic_monitor c2)"
  using assms(4)
proof (cases rule: try_schedule_cases)
  case (scheduled item w ts)
  have r1: "ctx_reachable tr token c1"
    using assms(1) ctx_step.sched [OF assms(4)] by (rule ctx_reachable.step)
  have new: "t \<noteq> next_thread c"
    using ctx_invD(1) [OF ctx_reachable_inv [OF assms(1)], of t] assms(2) by auto
  have t1: "threads c1 t = Some (Running ord None)" using scheduled(6) new assms(2) by simp
  let ?c2 = "c1\<lparr>thread_mutex := (thread_mutex c1)(t := Locked)\<rparr>"
  let ?c3 = "?c2\<lparr>thread_mutex := (thread_mutex ?c2)(t := Poisoned), threads := (threads ?c2)(t := None)\<rparr>"
  have r2: "ctx_reachable tr token ?c2" using r1 ctx_step.start [OF t1] by (rule ctx_reachable.step)
  have "ctx_reachable tr token ?c3"
    by (rule ctx_reachable.step [OF r2 ctx_step.die]) (use t1 in simp_all)
  moreover have "t \<notin> set (panic_monitor ?c3)"
    using scheduled(5,6) assms(3) new by (auto simp: sweep_monitor split: if_splits)
  ultimately show ?thesis by (intro exI [of _ ?c3]) simp
qed simp_all

theorem unnoticed_panic_witness:
  "\<exists>c. ctx_reachable dummy_trait no_token c \<and> thread_mutex c 0 = Poisoned \<and> 0 \<notin> set (panic_monitor c)"
proof -
  have "try_schedule dummy_trait (success_order\<lparr>order_identifier := 1\<rparr>) None None dummy_ctx1 =
      Some (Scheduled 1, snd (the (try_schedule dummy_trait (success_order\<lparr>order_identifier := 1\<rparr>)
        None None dummy_ctx1)))"
    by (simp add: try_schedule_def schedule_def success_order_def Let_def)
  then show ?thesis by (intro unnoticed_panic [OF dummy_reachable(2)]) simp_all
qed

subsection \<open>Usages of providers\<close>

text \<open>C17: Serving an order gives back every guard it takes: whatever the attempts come to, whether the
  order succeeds, fails or is aborted, when its thread is done every provider has as many usages as it
  had before (the other threads being counted as they are).\<close>

theorem order_returns_guards:
  assumes "thread_body tr env t ord cp c = Some (out, c')"
    and "\<forall>n ph s. guards (env n ph s) = guards s"
  shows "guards (ctx_shared c') = guards (ctx_shared c)"
proof -
  from assms(1) obtain result s where
    "try_until_success tr env ord cp (ctx_shared c) = Some (result, s)" and "guards (ctx_shared c') = guards s"
    by (auto simp: thread_body_def complete_thread_frame finish_order_def handle_result_frame
        dest!: arg_cong [where f = snd] split: option.splits)
  with try_until_success_guards [OF this(1)] assms(2) show ?thesis by simp
qed

theorem order_returns_guards_witness:
  "\<exists>out c'. thread_body dummy_trait no_interference 0 success_order None dummy_ctx1 = Some (out, c') \<and>
    map strong_count (guards (ctx_shared c')) = [1, 1]"
proof -
  have "map_option (\<lambda>_. ()) (thread_body dummy_trait no_interference 0 success_order None dummy_ctx1) = Some ()"
    by code_simp
  then obtain out c' where run: "thread_body dummy_trait no_interference 0 success_order None dummy_ctx1 = Some (out, c')"
    by auto
  have "map strong_count (guards (ctx_shared dummy_ctx1)) = [1, 1]" by code_simp
  with run order_returns_guards [OF run] show ?thesis by auto
qed

end
