(* ===== verification/Mirror_Config.thy ===== *)
theory Mirror_Config
  imports Flexo_Prelude "HOL-Library.Monad_Syntax"
begin

section \<open>Configuration (mirror\_config.rs)\<close>

text \<open>
  The settings as records, their derived values, and how they are read from environment
  variables. The crates \<open>toml\<close>, \<open>regex\<close> and \<open>humantime\<close> are parameters. A
  \<open>f64\<close> is its bit pattern; the operations of the processor on it are the record
  \<open>f64_ops\<close>. Durations are natural numbers of nanoseconds. Case conversion is that of ASCII
  letters.
\<close>

type_synonym f64 = u64

record f64_ops =
  f64_less :: "f64 \<Rightarrow> f64 \<Rightarrow> bool"
  f64_add :: "f64 \<Rightarrow> f64 \<Rightarrow> f64"
  f64_mul :: "f64 \<Rightarrow> f64 \<Rightarrow> f64"
  f64_div :: "f64 \<Rightarrow> f64 \<Rightarrow> f64"
  f64_of_u64 :: "u64 \<Rightarrow> f64"
  f64_to_u64 :: "f64 \<Rightarrow> u64"

text \<open>The bit patterns of the literal 3.0.\<close>

definition f64_three :: f64 where
  "f64_three = 0x4008000000000000"

type_synonym duration = nat

definition from_secs :: "nat \<Rightarrow> duration" where
  "from_secs s = s * 1000000000"

definition from_millis :: "nat \<Rightarrow> duration" where
  "from_millis s = s * 1000000"

datatype mirror_selection_method = Auto | Predefined

datatype mirrors_random_or_sort = Sort | Random

record mirrors_auto_config =
  mirrors_status_json_endpoint :: string
  mirrors_status_json_endpoint_fallbacks :: "string list"
  mirrors_blacklist :: "string list"
  https_required :: bool
  auto_ipv4 :: bool
  auto_ipv6 :: bool
  max_score :: f64
  num_mirrors :: nat
  random_or_sort :: mirrors_random_or_sort
  timeout :: u64
  allowed_countries :: "string list"

record custom_repo =
  repo_name :: string
  repo_url :: string

record mirror_config =
  cache_directory :: string
  mirrorlist_fallback_file :: string
  mirrorlist_latency_test_results_file :: "string option"
  refresh_latency_tests_after_setting :: "string option"
  port :: u16
  listen_ip_address :: "string option"
  selection_method :: mirror_selection_method
  mirrors_predefined :: "string list"
  custom_repos :: "custom_repo list option"
  low_speed_limit_setting :: "u32 option"
  low_speed_limit_formatted :: "string option"
  low_speed_time_secs :: "u64 option"
  connect_timeout :: "u64 option"
  max_speed_limit :: "u64 option"
  num_versions_retain :: "u32 option"
  mirrors_auto :: "mirrors_auto_config option"

text \<open>\<open>MirrorsAutoConfig::relax\<close>: 3.0 is added to the score, 100 milliseconds to the timeout.\<close>

definition relax :: "f64_ops \<Rightarrow> mirrors_auto_config \<Rightarrow> mirrors_auto_config" where
  "relax fl a = a\<lparr>max_score := f64_add fl (max_score a) f64_three, timeout := timeout a + 100\<rparr>"

subsection \<open>Bandwidth limits\<close>

definition to_lower_char :: "char \<Rightarrow> char" where
  "to_lower_char c =
     (let n = of_char c :: nat in if 65 \<le> n \<and> n \<le> 90 then char_of (n + 32) else c)"

definition to_lowercase :: "string \<Rightarrow> string" where
  "to_lowercase s = map to_lower_char s"

fun si_multiplier :: "string \<Rightarrow> u32 option" where
  "si_multiplier si_prefix =
     (if si_prefix = '''' then Some 1
      else if si_prefix = ''ki'' then Some 1024
      else if si_prefix = ''mi'' then Some (1024 * 1024)
      else if si_prefix = ''gi'' then Some (1024 * 1024 * 1024)
      else if si_prefix = ''k'' then Some 1000
      else if si_prefix = ''m'' then Some (1000 * 1000)
      else if si_prefix = ''g'' then Some (1000 * 1000 * 1000)
      else None)"

definition parse_si_unit :: "u32 \<Rightarrow> string \<Rightarrow> u32 option" where
  "parse_si_unit bandwidth_value si_unit =
     (case (if ends_with si_unit ''bit'' then Some (take (length si_unit - 3) si_unit, True)
            else if ends_with si_unit ''b'' then Some (take (length si_unit - 1) si_unit, False)
            else None) of
        None \<Rightarrow> None
      | Some (si_prefix, is_bits_not_bytes) \<Rightarrow>
          (case si_multiplier si_prefix of
             None \<Rightarrow> None
           | Some multiplier \<Rightarrow>
               Some (if is_bits_not_bytes then (bandwidth_value * multiplier) div 8
                     else bandwidth_value * multiplier)))"

text \<open>\<open>captures\<close>: the groups \<open>numeric_value\<close> and \<open>si_unit\<close> of the regular expression.\<close>

definition parse_bandwidth :: "(string \<Rightarrow> (string \<times> string) option) \<Rightarrow> string \<Rightarrow> u32 option" where
  "parse_bandwidth captures s =
     (case captures s of
        None \<Rightarrow> None
      | Some (numeric, unit) \<Rightarrow>
          (case parse_u32 numeric of
             None \<Rightarrow> None
           | Some numeric_value \<Rightarrow> parse_si_unit numeric_value (to_lowercase unit)))"

datatype 'a low_speed_configuration = ConfiguredByUser 'a | SensibleMinimumFallback 'a

definition low_speed_limit :: "(string \<Rightarrow> (string \<times> string) option) \<Rightarrow> mirror_config \<Rightarrow> u32 option" where
  "low_speed_limit captures c =
     (case low_speed_limit_formatted c of
        Some limit \<Rightarrow> parse_bandwidth captures limit
      | None \<Rightarrow> low_speed_limit_setting c)"

definition effective_low_speed_limit ::
  "(string \<Rightarrow> (string \<times> string) option) \<Rightarrow> mirror_config \<Rightarrow> u32 low_speed_configuration" where
  "effective_low_speed_limit captures c =
     (case low_speed_limit captures c of
        None \<Rightarrow> SensibleMinimumFallback 1
      | Some limit \<Rightarrow> ConfiguredByUser limit)"

definition effective_low_speed_time_secs :: "mirror_config \<Rightarrow> u64 low_speed_configuration" where
  "effective_low_speed_time_secs c =
     (case low_speed_time_secs c of
        None \<Rightarrow> SensibleMinimumFallback 5
      | Some time_secs \<Rightarrow> ConfiguredByUser time_secs)"

fun low_speed_value :: "'a low_speed_configuration \<Rightarrow> 'a" where
  "low_speed_value (ConfiguredByUser x) = x"
| "low_speed_value (SensibleMinimumFallback x) = x"

definition DEFAULT_REFRESH_AFTER_SECONDS :: nat where
  "DEFAULT_REFRESH_AFTER_SECONDS = 3600 * 24 * 14"

definition refresh_latency_tests_after :: "(string \<Rightarrow> duration option) \<Rightarrow> mirror_config \<Rightarrow> duration" where
  "refresh_latency_tests_after parse_duration c =
     (case refresh_latency_tests_after_setting c of
        None \<Rightarrow> from_secs DEFAULT_REFRESH_AFTER_SECONDS
      | Some s \<Rightarrow> (case parse_duration s of
            Some d \<Rightarrow> d
          | None \<Rightarrow> from_secs DEFAULT_REFRESH_AFTER_SECONDS))"

subsection \<open>Environment variables\<close>

text \<open>ASCII white space, as \<open>str::trim\<close> removes it at both ends.\<close>

definition is_space :: "char \<Rightarrow> bool" where
  "is_space c \<longleftrightarrow> (of_char c :: nat) \<in> {9, 10, 11, 12, 13, 32}"

definition trim :: "string \<Rightarrow> string" where
  "trim s = rev (dropWhile is_space (rev (dropWhile is_space s)))"

definition comma_separated_to_vec :: "string \<Rightarrow> string list" where
  "comma_separated_to_vec s = map trim (filter (\<lambda>p. p \<noteq> []) (split_char (CHR '','') s))"

text \<open>\<open>collect\<close> of an iterator of options: all of them, or nothing.\<close>

fun collect_options :: "'a option list \<Rightarrow> 'a list option" where
  "collect_options [] = Some []"
| "collect_options (None # xs) = None"
| "collect_options (Some x # xs) = map_option ((#) x) (collect_options xs)"

definition custom_repo_of :: "string \<Rightarrow> custom_repo option" where
  "custom_repo_of s =
     map_option (\<lambda>(name, url). \<lparr>repo_name = name, repo_url = url\<rparr>) (split_once (CHR ''@'') s)"

definition custom_repos_from_env :: "string option \<Rightarrow> custom_repo list option" where
  "custom_repos_from_env maybe_env =
     (case maybe_env of
        None \<Rightarrow> None
      | Some cr \<Rightarrow> collect_options (map custom_repo_of (split_char (CHR '' '') cr)))"

definition quote_str :: "string \<Rightarrow> string" where
  "quote_str s = ''\"'' @ s @ ''\"''"

text \<open>
  The TOML crate, as what it makes of a document with the single key \<open>value\<close> at the types the
  code asks for; strings and enumerations are quoted first.
\<close>

record toml_values =
  toml_bool :: "string \<Rightarrow> bool option"
  toml_f64 :: "string \<Rightarrow> f64 option"
  toml_usize :: "string \<Rightarrow> nat option"
  toml_u16 :: "string \<Rightarrow> u16 option"
  toml_u32 :: "string \<Rightarrow> u32 option"
  toml_u64 :: "string \<Rightarrow> u64 option"
  toml_string :: "string \<Rightarrow> string option"
  toml_strings :: "string \<Rightarrow> string list option"
  toml_method :: "string \<Rightarrow> mirror_selection_method option"
  toml_random_or_sort :: "string \<Rightarrow> mirrors_random_or_sort option"

definition parse_env_toml ::
  "(string \<rightharpoonup> string) \<Rightarrow> (string \<Rightarrow> string) \<Rightarrow> (string \<Rightarrow> 'a option) \<Rightarrow> string \<Rightarrow> 'a option panics" where
  "parse_env_toml env toml_value_from_str from_toml s =
     (case env s of
        None \<Rightarrow> Some None
      | Some env_var \<Rightarrow>
          map_option Some (from_toml (''value = '' @ toml_value_from_str env_var)))"

definition unwrap_env :: "'a option panics \<Rightarrow> 'a panics" where
  "unwrap_env x = (case x of None \<Rightarrow> None | Some v \<Rightarrow> v)"

definition DEFAULT_JSON_URI :: string where
  "DEFAULT_JSON_URI = ''https://archlinux.org/mirrors/status/json/''"

definition mirrors_auto_config_from_env ::
  "toml_values \<Rightarrow> (string \<rightharpoonup> string) \<Rightarrow> mirrors_auto_config panics" where
  "mirrors_auto_config_from_env tv env = do {
     a_https \<leftarrow> unwrap_env (parse_env_toml env id (toml_bool tv) ''FLEXO_MIRRORS_AUTO_HTTPS_REQUIRED'');
     a_ipv4 \<leftarrow> unwrap_env (parse_env_toml env id (toml_bool tv) ''FLEXO_MIRRORS_AUTO_IPV4'');
     a_ipv6 \<leftarrow> unwrap_env (parse_env_toml env id (toml_bool tv) ''FLEXO_MIRRORS_AUTO_IPV6'');
     a_score \<leftarrow> unwrap_env (parse_env_toml env id (toml_f64 tv) ''FLEXO_MIRRORS_AUTO_MAX_SCORE'');
     a_num \<leftarrow> unwrap_env (parse_env_toml env id (toml_usize tv) ''FLEXO_MIRRORS_AUTO_NUM_MIRRORS'');
     a_sort \<leftarrow> unwrap_env (parse_env_toml env quote_str (toml_random_or_sort tv)
       ''FLEXO_MIRRORS_AUTO_MIRRORS_RANDOM_OR_SORT'');
     a_timeout \<leftarrow> unwrap_env (parse_env_toml env id (toml_u64 tv) ''FLEXO_MIRRORS_AUTO_TIMEOUT'');
     a_endpoint \<leftarrow> parse_env_toml env quote_str (toml_string tv)
       ''FLEXO_MIRRORS_AUTO_MIRRORS_STATUS_JSON_ENDPOINT'';
     a_fallbacks \<leftarrow> parse_env_toml env quote_str (toml_string tv)
       ''FLEXO_MIRRORS_AUTO_MIRRORS_STATUS_JSON_ENDPOINT_FALLBACKS'';
     a_countries \<leftarrow> parse_env_toml env quote_str (toml_string tv) ''FLEXO_MIRRORS_AUTO_ALLOWED_COUNTRIES'';
     a_blacklist \<leftarrow> parse_env_toml env id (toml_strings tv) ''FLEXO_MIRRORS_AUTO_MIRRORS_BLACKLIST'';
     Some \<lparr>
       mirrors_status_json_endpoint = (case a_endpoint of Some e \<Rightarrow> e | None \<Rightarrow> DEFAULT_JSON_URI),
       mirrors_status_json_endpoint_fallbacks =
         (case a_fallbacks of Some f \<Rightarrow> comma_separated_to_vec f | None \<Rightarrow> []),
       mirrors_blacklist = (case a_blacklist of Some b \<Rightarrow> b | None \<Rightarrow> []),
       https_required = a_https, auto_ipv4 = a_ipv4, auto_ipv6 = a_ipv6, max_score = a_score,
       num_mirrors = a_num, random_or_sort = a_sort, timeout = a_timeout,
       allowed_countries = (case a_countries of Some c \<Rightarrow> comma_separated_to_vec c | None \<Rightarrow> [])\<rparr> }"

definition mirror_config_from_env :: "toml_values \<Rightarrow> (string \<rightharpoonup> string) \<Rightarrow> mirror_config panics" where
  "mirror_config_from_env tv env = do {
     c_dir \<leftarrow> unwrap_env (parse_env_toml env quote_str (toml_string tv) ''FLEXO_CACHE_DIRECTORY'');
     c_fallback \<leftarrow> unwrap_env (parse_env_toml env quote_str (toml_string tv) ''FLEXO_MIRRORLIST_FALLBACK_FILE'');
     c_results \<leftarrow> parse_env_toml env quote_str (toml_string tv) ''FLEXO_MIRRORLIST_LATENCY_TEST_RESULTS_FILE'';
     c_listen \<leftarrow> parse_env_toml env quote_str (toml_string tv) ''FLEXO_LISTEN_IP_ADDRESS'';
     c_port \<leftarrow> unwrap_env (parse_env_toml env id (toml_u16 tv) ''FLEXO_PORT'');
     c_method \<leftarrow> unwrap_env (parse_env_toml env quote_str (toml_method tv) ''FLEXO_MIRROR_SELECTION_METHOD'');
     c_predefined \<leftarrow> unwrap_env (parse_env_toml env id (toml_strings tv) ''FLEXO_MIRRORS_PREDEFINED'');
     c_connect \<leftarrow> parse_env_toml env id (toml_u64 tv) ''FLEXO_CONNECT_TIMEOUT'';
     c_limit \<leftarrow> parse_env_toml env id (toml_u32 tv) ''FLEXO_LOW_SPEED_LIMIT'';
     c_formatted \<leftarrow> parse_env_toml env quote_str (toml_string tv) ''FLEXO_LOW_SPEED_LIMIT_FORMATTED'';
     c_time \<leftarrow> parse_env_toml env id (toml_u64 tv) ''FLEXO_LOW_SPEED_TIME_SECS'';
     c_max \<leftarrow> parse_env_toml env id (toml_u64 tv) ''FLEXO_MAX_SPEED_LIMIT'';
     c_refresh \<leftarrow> parse_env_toml env quote_str (toml_string tv) ''FLEXO_REFRESH_LATENCY_TESTS_AFTER'';
     c_repos \<leftarrow> parse_env_toml env quote_str (toml_string tv) ''FLEXO_CUSTOM_REPO'';
     c_retain \<leftarrow> parse_env_toml env id (toml_u32 tv) ''FLEXO_NUM_VERSIONS_RETAIN'';
     c_auto \<leftarrow> (case c_method of
         Auto \<Rightarrow> map_option Some (mirrors_auto_config_from_env tv env)
       | Predefined \<Rightarrow> Some None);
     Some \<lparr>
       cache_directory = c_dir, mirrorlist_fallback_file = c_fallback,
       mirrorlist_latency_test_results_file = c_results,
       refresh_latency_tests_after_setting = c_refresh, port = c_port, listen_ip_address = c_listen,
       selection_method = c_method, mirrors_predefined = c_predefined,
       custom_repos = custom_repos_from_env c_repos, low_speed_limit_setting = c_limit,
       low_speed_limit_formatted = c_formatted, low_speed_time_secs = c_time,
       connect_timeout = c_connect, max_speed_limit = c_max, num_versions_retain = c_retain,
       mirrors_auto = c_auto\<rparr> }"

text \<open>
  \<open>load_config\<close>: the variables if there is one whose name starts with \<open>FLEXO_\<close>, the file
  otherwise. \<open>vars\<close> lists the environment; \<open>config_file\<close> is the parsed file, or None
  when it cannot be read or parsed.
\<close>

definition load_config ::
  "toml_values \<Rightarrow> (string \<times> string) list \<Rightarrow> mirror_config option \<Rightarrow> mirror_config panics" where
  "load_config tv vars config_file =
     (if list_ex (\<lambda>(key, _). strip_prefix ''FLEXO_'' key \<noteq> None) vars
      then mirror_config_from_env tv (map_of vars)
      else config_file)"

subsection \<open>Lemmas\<close>

lemma ends_with_append [simp]: "ends_with (s @ suf) suf"
  by (auto simp: ends_with_iff)

lemma parse_si_unit_bits:
  "parse_si_unit v (p @ ''bit'') = map_option (\<lambda>m. (v * m) div 8) (si_multiplier p)"
  by (simp add: parse_si_unit_def split: option.splits)

lemma parse_si_unit_bytes:
  "parse_si_unit v (p @ ''b'') = map_option (\<lambda>m. v * m) (si_multiplier p)"
proof -
  have "\<not> ends_with (p @ ''b'') ''bit''" by (simp add: ends_with_def)
  then show ?thesis by (simp add: parse_si_unit_def split: option.splits)
qed

lemma collect_options_map:
  "(\<forall>x \<in> set xs. f x = Some (g x)) \<Longrightarrow> collect_options (map f xs) = Some (map g xs)"
  by (induction xs) auto

end
