(* ===== verification/Config_Properties.thy ===== *)
theory Config_Properties
  imports Mirror_Config
begin

section \<open>Properties of the configuration\<close>

text \<open>
  Bandwidth limits, with the wrap-around of \<open>u32\<close>; the custom repositories and the required
  variables of the environment.
\<close>

lemma unwrap_env_missing: "env name = None \<Longrightarrow> unwrap_env (parse_env_toml env f g name) = None"
  by (simp add: unwrap_env_def parse_env_toml_def)

text \<open>The value of \<open>FLEXO_CUSTOM_REPO\<close> for a list of repositories.\<close>

fun env_of_repos :: "custom_repo list \<Rightarrow> string" where
  "env_of_repos [] = ''''"
| "env_of_repos [r] = repo_name r @ ''@'' @ repo_url r"
| "env_of_repos (r # rs) = repo_name r @ ''@'' @ repo_url r @ '' '' @ env_of_repos rs"

lemma custom_repo_of_item:
  "CHR ''@'' \<notin> set (repo_name r) \<Longrightarrow> custom_repo_of (repo_name r @ ''@'' @ repo_url r) = Some r"
proof -
  assume "CHR ''@'' \<notin> set (repo_name r)"
  then have "split_once (CHR ''@'') (repo_name r @ ''@'' @ repo_url r) = Some (repo_name r, repo_url r)"
    by (simp add: split_once_Some_iff)
  then show ?thesis by (simp add: custom_repo_of_def)
qed

lemma split_env_of_repos:
  "rs \<noteq> [] \<Longrightarrow> \<forall>r \<in> set rs. CHR '' '' \<notin> set (repo_name r) \<union> set (repo_url r) \<Longrightarrow>
    split_char (CHR '' '') (env_of_repos rs) = map (\<lambda>r. repo_name r @ ''@'' @ repo_url r) rs"
proof (induction rs rule: env_of_repos.induct)
  case (3 r r' rs)
  have "split_char (CHR '' '') ((repo_name r @ ''@'' @ repo_url r) @ CHR '' '' # env_of_repos (r' # rs)) =
      (repo_name r @ ''@'' @ repo_url r) # split_char (CHR '' '') (env_of_repos (r' # rs))"
    by (rule split_char_append) (use "3.prems" in simp)
  with "3.IH" "3.prems" show ?case by simp
qed (simp_all add: split_char_no_sep)

text \<open>\<open>parse_si_unit\<close> computes the limit in bytes per second, the bits divided by eight
  and rounded down, whenever the product with the unit's factor fits 32 bits.\<close>

lemma parse_si_unit_exact:
  assumes "si_multiplier si_prefix = Some m" and "unat v * unat m < 2 ^ 32"
  shows "map_option unat (parse_si_unit v (si_prefix @ ''b'')) = Some (unat v * unat m)
    \<and> map_option unat (parse_si_unit v (si_prefix @ ''bit'')) = Some (unat v * unat m div 8)"
proof -
  have "unat (v * m) = unat v * unat m" using assms(2) by (subst unat_mult_lem [symmetric]) simp
  then show ?thesis
    using assms(1) by (simp add: parse_si_unit_bits parse_si_unit_bytes unat_div)
qed

lemma parse_si_unit_exact_witness:
  "map_option unat (parse_si_unit 25 (''mi'' @ ''b'')) = Some 26214400
    \<and> map_option unat (parse_si_unit 25 (''mi'' @ ''bit'')) = Some 3276800"
  using parse_si_unit_exact [of "''mi''" "1024 * 1024" 25] by simp

text \<open>A limit of a multiple of 4 GiB/s is read as zero bytes per second: the product wraps
  around at 32 bits, so the limit that was meant to be high switches the low-speed check off.\<close>

lemma four_gib_is_zero:
  assumes "captures s = Some (show_nat (4 * k), ''GiB'')" and "4 * k < 2 ^ 32"
    and "low_speed_limit_formatted c = Some s"
  shows "effective_low_speed_limit captures c = ConfiguredByUser 0"
proof -
  have "(4 :: u32) * of_nat k * (1024 * 1024 * 1024) = of_nat k * 2 ^ 32" by simp
  also have "(2 :: u32) ^ 32 = 0" by simp
  finally have "(4 :: u32) * of_nat k * (1024 * 1024 * 1024) = 0" by simp
  moreover have "parse_u32 (show_nat (4 * k)) = Some (4 * of_nat k)"
    using assms(2) by (simp add: parse_u32_def)
  moreover have "to_lowercase ''GiB'' = ''gi'' @ ''b''"
    by code_simp
  ultimately have "parse_bandwidth captures s = Some 0"
    using assms(1) by (simp add: parse_bandwidth_def parse_si_unit_bytes del: append.simps)
  then show ?thesis using assms(3) by (simp add: effective_low_speed_limit_def low_speed_limit_def)
qed

definition plain_config :: mirror_config where
  "plain_config = \<lparr>cache_directory = ''/var/cache/flexo/pkg'', mirrorlist_fallback_file = ''/var/cache/flexo/state/mirrorlist'',
     mirrorlist_latency_test_results_file = None, refresh_latency_tests_after_setting = None,
     port = 7878, listen_ip_address = None, selection_method = Predefined,
     mirrors_predefined = [''https://mirror.example/''], custom_repos = None,
     low_speed_limit_setting = None, low_speed_limit_formatted = Some ''4 GiB/s'',
     low_speed_time_secs = None, connect_timeout = None, max_speed_limit = None,
     num_versions_retain = Some 3, mirrors_auto = None\<rparr>"

theorem four_gib_is_zero_witness:
  "effective_low_speed_limit (\<lambda>s. if s = ''4 GiB/s'' then Some (''4'', ''GiB'') else None) plain_config =
    ConfiguredByUser 0"
proof -
  have "show_nat (4 * 1) = ''4''" by (simp add: show_nat.simps digit_char_def)
  then show ?thesis
    by (intro four_gib_is_zero [where k = 1 and s = "''4 GiB/s''"]) (simp_all add: plain_config_def)
qed

text \<open>Custom repositories round-trip through their variable: what is written as
  \<open>name@url\<close> items separated by blanks is read back, if no name contains an at sign and
  neither names nor URLs contain a blank.\<close>

lemma custom_repos_roundtrip:
  assumes "rs \<noteq> []" and "\<forall>r \<in> set rs. CHR ''@'' \<notin> set (repo_name r)"
    and "\<forall>r \<in> set rs. CHR '' '' \<notin> set (repo_name r) \<union> set (repo_url r)"
  shows "custom_repos_from_env (Some (env_of_repos rs)) = Some rs"
proof -
  have "collect_options (map (\<lambda>r. custom_repo_of (repo_name r @ ''@'' @ repo_url r)) rs) =
      Some (map (\<lambda>r. r) rs)"
    by (rule collect_options_map) (use assms(2) custom_repo_of_item in auto)
  then show ?thesis
    using split_env_of_repos [OF assms(1,3)] by (simp add: custom_repos_from_env_def comp_def)
qed

theorem custom_repos_roundtrip_witness:
  "custom_repos_from_env (Some (env_of_repos
      [\<lparr>repo_name = ''archzfs'', repo_url = ''https://archzfs.com''\<rparr>,
       \<lparr>repo_name = ''eschwartz'', repo_url = ''https://pkgbuild.com''\<rparr>])) =
    Some [\<lparr>repo_name = ''archzfs'', repo_url = ''https://archzfs.com''\<rparr>,
      \<lparr>repo_name = ''eschwartz'', repo_url = ''https://pkgbuild.com''\<rparr>]"
  by (rule custom_repos_roundtrip) simp_all

text \<open>One variable whose name starts with \<open>FLEXO_\<close> is enough to ignore the configuration
  file: if any of the required variables is then missing, loading the configuration panics.\<close>

lemma partial_environment_panics:
  assumes "(key, val) \<in> set vars" and "strip_prefix ''FLEXO_'' key \<noteq> None"
    and "map_of vars name = None"
    and "name \<in> {''FLEXO_CACHE_DIRECTORY'', ''FLEXO_MIRRORLIST_FALLBACK_FILE'', ''FLEXO_PORT'',
      ''FLEXO_MIRROR_SELECTION_METHOD'', ''FLEXO_MIRRORS_PREDEFINED''}"
  shows "load_config tv vars config_file = None"
proof -
  have "list_ex (\<lambda>(key, _). strip_prefix ''FLEXO_'' key \<noteq> None) vars"
    using assms(1,2) by (auto simp: list_ex_iff)
  moreover have "mirror_config_from_env tv (map_of vars) = None"
    unfolding mirror_config_from_env_def
    using assms(3,4) by (auto simp: unwrap_env_missing bind_eq_None_conv)
  ultimately show ?thesis by (simp add: load_config_def)
qed

definition no_toml :: toml_values where
  "no_toml = \<lparr>toml_bool = (\<lambda>_. None), toml_f64 = (\<lambda>_. None), toml_usize = (\<lambda>_. None),
     toml_u16 = (\<lambda>_. None), toml_u32 = (\<lambda>_. None), toml_u64 = (\<lambda>_. None),
     toml_string = Some, toml_strings = (\<lambda>_. None), toml_method = (\<lambda>_. None),
     toml_random_or_sort = (\<lambda>_. None)\<rparr>"

theorem partial_environment_panics_witness:
  "load_config no_toml [(''FLEXO_CACHE_DIRECTORY'', ''/var/cache/flexo/pkg'')] (Some plain_config) = None"
  by (rule partial_environment_panics [where name = "''FLEXO_PORT''", OF list.set_intros(1)]) simp_all

end
