(* ===== verification/Str_Path.thy ===== *)
theory Str_Path
  imports Flexo_Prelude
begin

section \<open>Paths (std::path, str\_path.rs, the guards of main.rs)\<close>

text \<open>
  A \<open>Path\<close> is its string; \<open>components\<close> reads it as the standard library does on Unix:
  repeated separators and inner dots are skipped, a leading dot is kept, \<open>..\<close> is never
  resolved. The file system identifies a file by its components. \<open>StrPath\<close> is the path of a
  request, without its leading slash.
\<close>

datatype component = RootDir | CurDir | ParentDir | Normal string

fun piece_component :: "string \<Rightarrow> component option" where
  "piece_component s =
     (if s = '''' \<or> s = ''.'' then None
      else if s = ''..'' then Some ParentDir
      else Some (Normal s))"

declare piece_component.simps [simp del]

definition body_components :: "string \<Rightarrow> component list" where
  "body_components s = List.map_filter piece_component (split_char (CHR ''/'') s)"

definition has_root :: "string \<Rightarrow> bool" where
  "has_root s \<longleftrightarrow> (case s of [] \<Rightarrow> False | c # _ \<Rightarrow> c = CHR ''/'')"

definition components :: "string \<Rightarrow> component list" where
  "components s =
     (if has_root s then RootDir # body_components s
      else if hd (split_char (CHR ''/'') s) = ''.'' then CurDir # body_components s
      else body_components s)"

fun component_str :: "component \<Rightarrow> string" where
  "component_str RootDir = ''/''"
| "component_str CurDir = ''.''"
| "component_str ParentDir = ''..''"
| "component_str (Normal s) = s"

text \<open>\<open>Path::join\<close>, that is \<open>PathBuf::push\<close>: an absolute second path replaces the first.\<close>

definition path_join :: "string \<Rightarrow> string \<Rightarrow> string" where
  "path_join p q =
     (if has_root q then q
      else if p \<noteq> [] \<and> last p \<noteq> CHR ''/'' then p @ ''/'' @ q
      else p @ q)"

text \<open>\<open>collect::<PathBuf>()\<close> of components: each is pushed onto the empty path.\<close>

definition path_collect :: "component list \<Rightarrow> string" where
  "path_collect cs = foldl path_join '''' (map component_str cs)"

definition file_name :: "component list \<Rightarrow> string option" where
  "file_name cs = (if cs = [] then None else (case last cs of Normal s \<Rightarrow> Some s | _ \<Rightarrow> None))"

definition with_file_name :: "component list \<Rightarrow> string \<Rightarrow> component list" where
  "with_file_name cs name =
     (if file_name cs = None then cs @ [Normal name] else butlast cs @ [Normal name])"

subsection \<open>StrPath\<close>

record str_path =
  path_buf :: string
  inner :: string

definition str_path_new :: "string \<Rightarrow> str_path" where
  "str_path_new s =
     (let s' = (case strip_prefix ''/'' s of Some stripped \<Rightarrow> stripped | None \<Rightarrow> s)
      in \<lparr>path_buf = s', inner = s'\<rparr>)"

definition from_path_buf :: "string \<Rightarrow> str_path option" where
  "from_path_buf p = Some (str_path_new p)"

definition permitted_path :: "string \<Rightarrow> bool" where
  "permitted_path p = list_all (\<lambda>c. case c of Normal _ \<Rightarrow> True | RootDir \<Rightarrow> True | _ \<Rightarrow> False) (components p)"

definition valid_path :: "string \<Rightarrow> bool" where
  "valid_path p =
     (if components p = [] then False
      else (case last (components p) of Normal _ \<Rightarrow> True | _ \<Rightarrow> False))"

subsection \<open>Components of joined paths\<close>

lemma split_char_join: "split_char c (a @ c # b) = split_char c a @ split_char c b"
  by (induction a) (auto split: list.splits)

lemma map_filter_append: "List.map_filter f (xs @ ys) = List.map_filter f xs @ List.map_filter f ys"
  by (simp add: List.map_filter_def)

lemma body_components_join:
  "body_components (a @ CHR ''/'' # b) = body_components a @ body_components b"
  by (simp add: body_components_def split_char_join map_filter_append)

lemma body_components_Nil [simp]: "body_components '''' = []"
  by (simp add: body_components_def List.map_filter_def piece_component.simps)

lemma body_components_slash [simp]: "body_components (CHR ''/'' # s) = body_components s"
  using body_components_join [of "''''" s] by simp

lemma has_root_simps [simp]: "\<not> has_root ''''" "has_root (c # s) \<longleftrightarrow> c = CHR ''/''"
  by (simp_all add: has_root_def)

lemma has_root_append [simp]: "p \<noteq> [] \<Longrightarrow> has_root (p @ q) = has_root p"
  by (cases p) simp_all

lemma body_no_root: "c \<in> set (body_components s) \<Longrightarrow> c \<noteq> RootDir \<and> c \<noteq> CurDir"
  by (auto simp: body_components_def set_map_filter_iff piece_component.simps split: if_splits)

lemma path_join_absolute [simp]: "has_root q \<Longrightarrow> path_join p q = q"
  by (simp add: path_join_def)

lemma hd_split_slash: "hd (split_char c (a @ c # b)) = hd (split_char c a)"
  by (simp add: split_char_join hd_append)

lemma components_slash:
  "components (r @ CHR ''/'' # b) = components (r @ [CHR ''/'']) @ body_components b"
proof (cases "r = []")
  case True
  then show ?thesis by (simp add: components_def)
next
  case False
  then show ?thesis
    by (simp add: components_def hd_split_slash body_components_join)
qed

lemma components_join:
  assumes "\<not> has_root q" and "hd (split_char (CHR ''/'') q) \<noteq> ''.''"
  shows "components (path_join p q) = components p @ components q"
proof -
  have q: "components q = body_components q" using assms by (simp add: components_def)
  consider "p = []" | r where "p = r @ ''/''" | "p \<noteq> []" "last p \<noteq> CHR ''/''"
    by (metis append_butlast_last_id)
  then show ?thesis
  proof cases
    case 1
    then show ?thesis using assms by (simp add: path_join_def components_def)
  next
    case 2
    then have "path_join p q = r @ CHR ''/'' # q" using assms(1) by (simp add: path_join_def)
    with q 2 show ?thesis by (simp only: components_slash [of r q])
  next
    case 3
    then have p: "path_join p q = p @ CHR ''/'' # q" using assms(1) by (simp add: path_join_def)
    have "components (p @ CHR ''/'' # []) = components p"
      by (simp only: components_def has_root_append [OF 3(1)] hd_split_slash body_components_join
          body_components_Nil append_Nil2)
    with p q show ?thesis by (simp only: components_slash [of p q])
  qed
qed

text \<open>A permitted path that is not absolute has only normal components.\<close>

lemma permitted_relative:
  assumes "permitted_path q" and "\<not> has_root q"
  shows "hd (split_char (CHR ''/'') q) \<noteq> ''.''" and "\<forall>c \<in> set (components q). \<exists>s. c = Normal s"
proof -
  show dot: "hd (split_char (CHR ''/'') q) \<noteq> ''.''"
    using assms by (auto simp: permitted_path_def components_def)
  show "\<forall>c \<in> set (components q). \<exists>s. c = Normal s"
  proof
    fix c assume c: "c \<in> set (components q)"
    then have "c \<noteq> RootDir"
      using assms(2) dot body_no_root [of c q] by (auto simp: components_def)
    then show "\<exists>s. c = Normal s"
      using assms(1) c by (cases c) (auto simp: permitted_path_def list_all_iff)
  qed
qed

end
