(* ===== verification/File_System.thy ===== *)
theory File_System
  imports Str_Path
begin

section \<open>The file system, as std::fs shows it\<close>

text \<open>
  Files and directories by their components, without links. Walking to a file fails at the first
  ancestor that is missing or is not a directory. Some paths may be unreadable or unwritable, and
  the device may be full (appending fails). A directory has a size of its own.
\<close>

datatype node = FileNode string | DirNode

datatype error_kind =
    NotFound | PermissionDenied | NotADirectory | IsADirectory | TimedOut | WouldBlock
  | ConnectionReset | BrokenPipe | OtherKind

record file_system =
  nodes :: "component list \<rightharpoonup> node"
  dir_size :: u64
  unreadable :: "component list set"
  unwritable :: "component list set"
  device_full :: bool

definition len_u64 :: "string \<Rightarrow> u64" where
  "len_u64 s = of_nat (length s)"

definition node_len :: "file_system \<Rightarrow> node \<Rightarrow> u64" where
  "node_len fs n = (case n of FileNode s \<Rightarrow> len_u64 s | DirNode \<Rightarrow> dir_size fs)"

definition ancestors :: "component list \<Rightarrow> component list list" where
  "ancestors p = map (\<lambda>i. take i p) [1..<length p]"

text \<open>The error of walking through the ancestors of a path, if any.\<close>

definition walk_error :: "file_system \<Rightarrow> component list \<Rightarrow> error_kind option" where
  "walk_error fs p =
     (case List.find (\<lambda>q. nodes fs q \<noteq> Some DirNode) (ancestors p) of
        None \<Rightarrow> None
      | Some q \<Rightarrow> Some (if nodes fs q = None then NotFound else NotADirectory))"

definition stat :: "file_system \<Rightarrow> component list \<Rightarrow> error_kind + node" where
  "stat fs p =
     (case walk_error fs p of
        Some e \<Rightarrow> Inl e
      | None \<Rightarrow> (case nodes fs p of None \<Rightarrow> Inl NotFound | Some n \<Rightarrow> Inr n))"

text \<open>\<open>File::open\<close>: opening a directory for reading succeeds; reading its contents does not.\<close>

definition open_read :: "file_system \<Rightarrow> component list \<Rightarrow> error_kind + node" where
  "open_read fs p =
     (case stat fs p of
        Inl e \<Rightarrow> Inl e
      | Inr n \<Rightarrow> if p \<in> unreadable fs then Inl PermissionDenied else Inr n)"

definition read_file :: "file_system \<Rightarrow> component list \<Rightarrow> error_kind + string" where
  "read_file fs p =
     (case open_read fs p of
        Inl e \<Rightarrow> Inl e
      | Inr (FileNode s) \<Rightarrow> Inr s
      | Inr DirNode \<Rightarrow> Inl IsADirectory)"

definition write_node :: "component list \<Rightarrow> string \<Rightarrow> file_system \<Rightarrow> file_system" where
  "write_node p s fs = fs\<lparr>nodes := (nodes fs)(p \<mapsto> FileNode s)\<rparr>"

text \<open>\<open>open\<close> with \<open>create\<close>: an existing file is kept (\<open>append\<close>) or emptied (\<open>truncate\<close>).\<close>

definition open_write :: "bool \<Rightarrow> component list \<Rightarrow> file_system \<Rightarrow> error_kind + file_system" where
  "open_write trunc p fs =
     (case walk_error fs p of
        Some e \<Rightarrow> Inl e
      | None \<Rightarrow>
         (case nodes fs p of
            Some DirNode \<Rightarrow> Inl IsADirectory
          | Some (FileNode s) \<Rightarrow>
              if p \<in> unwritable fs then Inl PermissionDenied
              else Inr (write_node p (if trunc then [] else s) fs)
          | None \<Rightarrow> if p \<in> unwritable fs then Inl PermissionDenied else Inr (write_node p [] fs)))"

text \<open>\<open>write_all\<close> on a file opened for appending; the file may have been removed meanwhile.\<close>

definition append_file :: "component list \<Rightarrow> string \<Rightarrow> file_system \<Rightarrow> error_kind + file_system" where
  "append_file p s fs =
     (if device_full fs \<and> s \<noteq> '''' then Inl OtherKind
      else (case nodes fs p of
              Some (FileNode old) \<Rightarrow> Inr (write_node p (old @ s) fs)
            | _ \<Rightarrow> Inr fs))"

definition remove_file :: "component list \<Rightarrow> file_system \<Rightarrow> error_kind + file_system" where
  "remove_file p fs =
     (case stat fs p of
        Inl e \<Rightarrow> Inl e
      | Inr DirNode \<Rightarrow> Inl IsADirectory
      | Inr (FileNode _) \<Rightarrow>
          if p \<in> unwritable fs then Inl PermissionDenied
          else Inr (fs\<lparr>nodes := (nodes fs)(p := None)\<rparr>))"

text \<open>\<open>fs::create_dir_all\<close>: the missing directories along the path, from the top.\<close>

fun create_dirs :: "component list list \<Rightarrow> file_system \<Rightarrow> error_kind + file_system" where
  "create_dirs [] fs = Inr fs"
| "create_dirs (d # ds) fs =
     (case nodes fs d of
        Some DirNode \<Rightarrow> create_dirs ds fs
      | Some (FileNode _) \<Rightarrow> Inl NotADirectory
      | None \<Rightarrow>
          if d \<in> unwritable fs then Inl PermissionDenied
          else create_dirs ds (fs\<lparr>nodes := (nodes fs)(d \<mapsto> DirNode)\<rparr>))"

definition create_dir_all :: "component list \<Rightarrow> file_system \<Rightarrow> error_kind + file_system" where
  "create_dir_all p fs = create_dirs (ancestors p @ [p]) fs"

text \<open>\<open>create_dir_unless_exists\<close> of \<open>fs_utils.rs\<close> panics when a directory cannot be created.\<close>

definition create_dir_unless_exists :: "component list \<Rightarrow> file_system \<Rightarrow> file_system panics" where
  "create_dir_unless_exists p fs = (case create_dir_all p fs of Inl _ \<Rightarrow> None | Inr fs' \<Rightarrow> Some fs')"

subsection \<open>Lemmas\<close>

lemma ancestors_shorter: "q \<in> set (ancestors p) \<Longrightarrow> length q < length p"
  by (auto simp: ancestors_def)

lemma not_own_ancestor: "p \<notin> set (ancestors p)"
  using ancestors_shorter by blast

lemma ancestors_snoc: "d \<noteq> [] \<Longrightarrow> ancestors (d @ [c]) = ancestors d @ [d]"
  by (auto simp: ancestors_def Suc_le_eq)

lemma walk_error_None_iff:
  "walk_error fs p = None \<longleftrightarrow> (\<forall>q \<in> set (ancestors p). nodes fs q = Some DirNode)"
  using find_None_iff [of "\<lambda>q. nodes fs q \<noteq> Some DirNode" "ancestors p"]
  by (auto simp: walk_error_def split: option.splits)

lemma walk_error_cong:
  "(\<And>q. q \<in> set (ancestors p) \<Longrightarrow> nodes fs' q = nodes fs q) \<Longrightarrow> walk_error fs' p = walk_error fs p"
proof -
  assume same: "\<And>q. q \<in> set (ancestors p) \<Longrightarrow> nodes fs' q = nodes fs q"
  have "List.find (\<lambda>q. nodes fs' q \<noteq> Some DirNode) (ancestors p) =
      List.find (\<lambda>q. nodes fs q \<noteq> Some DirNode) (ancestors p)"
    by (rule find_cong) (simp_all add: same)
  moreover have "q \<in> set (ancestors p)"
    if "List.find (\<lambda>q. nodes fs q \<noteq> Some DirNode) (ancestors p) = Some q" for q
    using that by (metis find_Some_iff nth_mem)
  ultimately show ?thesis by (auto simp: walk_error_def same split: option.splits)
qed

lemma write_node_simps [simp]:
  "nodes (write_node p s fs) = (nodes fs)(p \<mapsto> FileNode s)"
  "dir_size (write_node p s fs) = dir_size fs"
  "unreadable (write_node p s fs) = unreadable fs" "unwritable (write_node p s fs) = unwritable fs"
  "device_full (write_node p s fs) = device_full fs"
  by (simp_all add: write_node_def)

text \<open>Writing a file does not change which paths can be walked to when the file was no directory.\<close>

lemma walk_error_write [simp]:
  assumes "nodes fs p \<noteq> Some DirNode" and "walk_error fs q = None"
  shows "walk_error (write_node p s fs) q = None"
  using assms unfolding walk_error_None_iff by auto

lemma walk_error_write_self [simp]: "walk_error (write_node p s fs) p = walk_error fs p"
  by (rule walk_error_cong) (use not_own_ancestor in auto)

text \<open>Only the files in \<open>A\<close> differ, and no directory appeared or went away.\<close>

definition only_files :: "component list set \<Rightarrow> file_system \<Rightarrow> file_system \<Rightarrow> bool" where
  "only_files A fs fs' \<longleftrightarrow>
     (\<forall>q. q \<notin> A \<longrightarrow> nodes fs' q = nodes fs q) \<and>
     (\<forall>q. nodes fs' q = Some DirNode \<longleftrightarrow> nodes fs q = Some DirNode) \<and>
     dir_size fs' = dir_size fs \<and> unreadable fs' = unreadable fs \<and>
     unwritable fs' = unwritable fs \<and> device_full fs' = device_full fs"

lemma only_filesD:
  assumes "only_files A fs fs'"
  shows "q \<notin> A \<Longrightarrow> nodes fs' q = nodes fs q"
    and "nodes fs' q = Some DirNode \<longleftrightarrow> nodes fs q = Some DirNode"
    and "dir_size fs' = dir_size fs" and "unreadable fs' = unreadable fs"
    and "unwritable fs' = unwritable fs" and "device_full fs' = device_full fs"
  using assms unfolding only_files_def by blast+

lemma only_files_refl [intro, simp]: "only_files A fs fs"
  by (simp add: only_files_def)

lemma only_files_trans: "only_files A fs fs' \<Longrightarrow> only_files B fs' fs'' \<Longrightarrow> only_files (A \<union> B) fs fs''"
  by (simp add: only_files_def)

lemma only_files_mono: "only_files A fs fs' \<Longrightarrow> A \<subseteq> B \<Longrightarrow> only_files B fs fs'"
  unfolding only_files_def by blast

lemma only_files_write: "nodes fs p \<noteq> Some DirNode \<Longrightarrow> only_files {p} fs (write_node p s fs)"
  by (simp add: only_files_def)

lemma only_files_open_write: "open_write trunc p fs = Inr fs' \<Longrightarrow> only_files {p} fs fs'"
  by (auto simp: open_write_def intro: only_files_write split: option.splits node.splits if_splits)

lemma only_files_append: "append_file p s fs = Inr fs' \<Longrightarrow> only_files {p} fs fs'"
  by (auto simp: append_file_def intro!: only_files_write split: option.splits node.splits if_splits)

lemma only_files_remove: "remove_file p fs = Inr fs' \<Longrightarrow> only_files {p} fs fs'"
  by (auto simp: remove_file_def stat_def only_files_def split: sum.splits option.splits node.splits if_splits)

text \<open>Without a change of directories, the same paths can be walked to.\<close>

lemma only_files_walk: "only_files A fs fs' \<Longrightarrow> walk_error fs' p = None \<longleftrightarrow> walk_error fs p = None"
  by (simp add: walk_error_None_iff only_files_def)

end
