(* ===== verification/Download_Order.thy ===== *)
theory Download_Order
  imports Mirror_Config File_System Rust_Ord
begin

section \<open>Requests, providers and orders (mirror\_flexo.rs, main.rs)\<close>

text \<open>
  What a client asks for and what is made of it: the request, the custom repository it may name,
  the order with its cacheability and the file it is stored in; and the mirrors as providers with
  their measured latencies and the scores by which they are compared.
\<close>

subsection \<open>Requests and orders\<close>

datatype request_method = Get | Post

record request =
  resume_from :: "u64 option"
  path :: str_path
  request_method :: request_method

type_synonym uuid = string

datatype cacheability = NonCacheable uuid | Cacheable

record download_order =
  requested_path :: str_path
  cacheability :: cacheability

definition is_cacheable_path :: "str_path \<Rightarrow> bool" where
  "is_cacheable_path p \<longleftrightarrow>
     \<not> (ends_with (inner p) ''.db'' \<or> ends_with (inner p) ''.db.sig'' \<or>
        ends_with (inner p) ''.files'' \<or> ends_with (inner p) ''.files.sig'')"

text \<open>\<open>fresh\<close> is the identifier \<open>Uuid::new_v4\<close> draws.\<close>

definition download_order_new :: "uuid \<Rightarrow> str_path \<Rightarrow> download_order" where
  "download_order_new fresh p =
     \<lparr>requested_path = p,
      cacheability = (if is_cacheable_path p then Cacheable else NonCacheable fresh)\<rparr>"

definition download_is_cacheable :: "download_order \<Rightarrow> bool" where
  "download_is_cacheable ord = (case cacheability ord of NonCacheable _ \<Rightarrow> False | Cacheable \<Rightarrow> True)"

definition download_retryable :: "download_order \<Rightarrow> bool" where
  "download_retryable ord \<longleftrightarrow>
     \<not> (ends_with (inner (requested_path ord)) ''.db.sig'' \<or>
        ends_with (inner (requested_path ord)) ''.files.sig'')"

definition UNCACHEABLE_DIRECTORY :: string where
  "UNCACHEABLE_DIRECTORY = ''/tmp/flexo/uncacheable''"

text \<open>The file of an order, and the directory \<open>filepath\<close> creates for an uncacheable one.\<close>

definition filepath :: "mirror_config \<Rightarrow> download_order \<Rightarrow> string" where
  "filepath cfg ord =
     (case cacheability ord of
        Cacheable \<Rightarrow> path_join (cache_directory cfg) (path_buf (requested_path ord))
      | NonCacheable unique_id \<Rightarrow>
          path_join UNCACHEABLE_DIRECTORY (inner (requested_path ord) @ ''-'' @ unique_id))"

definition filepath_mkdir :: "download_order \<Rightarrow> file_system \<Rightarrow> file_system panics" where
  "filepath_mkdir ord fs =
     (case cacheability ord of
        Cacheable \<Rightarrow> Some fs
      | NonCacheable unique_id \<Rightarrow>
          (case components (path_join UNCACHEABLE_DIRECTORY (path_buf (requested_path ord))) of
             [] \<Rightarrow> None
           | c # cs \<Rightarrow>
               if butlast (c # cs) = [] then None
               else create_dir_unless_exists (butlast (c # cs)) fs))"

definition file_key :: "mirror_config \<Rightarrow> download_order \<Rightarrow> component list" where
  "file_key cfg ord = components (filepath cfg ord)"

subsection \<open>Providers\<close>

record mirror_results =
  total_time :: duration
  namelookup_duration :: duration
  connect_duration :: duration
  pretransfer_time :: duration
  starttransfer_time :: duration

definition default_mirror_results :: mirror_results where
  "default_mirror_results = \<lparr>total_time = 0, namelookup_duration = 0, connect_duration = 0,
     pretransfer_time = 0, starttransfer_time = 0\<rparr>"

text \<open>Subtracting durations panics when the result would be negative.\<close>

definition duration_sub :: "duration \<Rightarrow> duration \<Rightarrow> duration panics" where
  "duration_sub a b = (if b \<le> a then Some (a - b) else None)"

definition mirror_results_cmp :: "mirror_results \<Rightarrow> mirror_results \<Rightarrow> ordering panics" where
  "mirror_results_cmp a b =
     (case duration_sub (total_time a) (namelookup_duration a) of
        None \<Rightarrow> None
      | Some self_latency \<Rightarrow>
          (case duration_sub (total_time b) (namelookup_duration b) of
             None \<Rightarrow> None
           | Some other_latency \<Rightarrow> cmp_lin self_latency other_latency))"

record download_provider =
  uri :: string
  provider_name :: string
  mirror_results :: mirror_results
  country_code :: string

definition uri_from_components :: "string \<Rightarrow> string \<Rightarrow> string" where
  "uri_from_components pre suf = trim_end_char (CHR ''/'') pre @ ''/'' @ trim_start_char (CHR ''/'') suf"

subsection \<open>Custom repositories\<close>

definition repo_name_from_get_request :: "request \<Rightarrow> (string \<times> str_path) option" where
  "repo_name_from_get_request req =
     (case components (path_buf (path req)) of
        [] \<Rightarrow> None
      | c # cs \<Rightarrow>
          if component_str c = ''custom_repo''
          then (case cs of
                  [] \<Rightarrow> None
                | r # rest \<Rightarrow>
                    map_option (\<lambda>p. (component_str r, p)) (from_path_buf (path_collect rest)))
          else None)"

definition custom_provider_from_request ::
  "request \<Rightarrow> custom_repo list \<Rightarrow> download_provider option \<times> request" where
  "custom_provider_from_request req repos =
     (case repo_name_from_get_request req of
        None \<Rightarrow> (None, req)
      | Some (name, p) \<Rightarrow>
          (case List.find (\<lambda>r. repo_name r = name) repos of
             None \<Rightarrow> (None, req)
           | Some r \<Rightarrow>
               (Some \<lparr>uri = repo_url r, provider_name = repo_name r,
                      mirror_results = default_mirror_results, country_code = ''Unknown''\<rparr>,
                \<lparr>resume_from = resume_from req, path = p, request_method = request_method req\<rparr>)))"

subsection \<open>Latencies are totally preordered\<close>

definition latency_ok :: "mirror_results \<Rightarrow> bool" where
  "latency_ok r \<longleftrightarrow> namelookup_duration r \<le> total_time r"

definition latency :: "mirror_results \<Rightarrow> duration" where
  "latency r = total_time r - namelookup_duration r"

lemma mirror_results_cmp_ok:
  "latency_ok a \<Longrightarrow> latency_ok b \<Longrightarrow> mirror_results_cmp a b = cmp_lin (latency a) (latency b)"
  by (simp add: mirror_results_cmp_def duration_sub_def latency_ok_def latency_def)

lemma mirror_results_cmp_panics_iff:
  "mirror_results_cmp a b = None \<longleftrightarrow> \<not> latency_ok a \<or> \<not> latency_ok b"
  by (auto simp: mirror_results_cmp_def duration_sub_def latency_ok_def cmp_lin_def)

lemma latency_default [simp]: "latency_ok default_mirror_results" "latency default_mirror_results = 0"
  by (simp_all add: latency_ok_def latency_def default_mirror_results_def)

interpretation by_latency: rust_ord mirror_results_cmp latency_ok
  by (rule rust_ord_keyI [OF rust_ord_linI, where f = latency]) (simp_all add: mirror_results_cmp_ok)

subsection \<open>The file of an order\<close>

lemma file_key_cacheable:
  "cacheability ord = Cacheable \<Longrightarrow>
    file_key cfg ord = components (path_join (cache_directory cfg) (path_buf (requested_path ord)))"
  by (simp add: file_key_def filepath_def)

lemma str_path_new_simps [simp]:
  "path_buf (str_path_new (CHR ''/'' # s)) = s" "inner (str_path_new (CHR ''/'' # s)) = s"
  "\<not> has_root s \<Longrightarrow> path_buf (str_path_new s) = s" "\<not> has_root s \<Longrightarrow> inner (str_path_new s) = s"
  by (cases s; simp add: str_path_new_def Let_def)+

end
