(* ===== verification/Path_Properties.thy ===== *)
theory Path_Properties
  imports Download_Order Config_Properties
begin

section \<open>Properties of request paths\<close>

text \<open>
  Where the guards \<open>permitted_path\<close> and \<open>valid_path\<close> let a request reach, which orders
  share a file, and what the path of a custom repository is rewritten to.
\<close>

lemma body_component_plain:
  "Normal s \<in> set (body_components t) \<Longrightarrow> s \<noteq> '''' \<and> s \<noteq> ''.'' \<and> s \<noteq> ''..'' \<and> CHR ''/'' \<notin> set s"
  by (auto simp: body_components_def set_map_filter_iff piece_component.simps dest: split_char_pieces
      split: if_splits)

lemma no_slash_relative: "CHR ''/'' \<notin> set s \<Longrightarrow> \<not> has_root s"
  by (cases s) auto

lemma components_plain:
  "s \<noteq> '''' \<Longrightarrow> s \<noteq> ''.'' \<Longrightarrow> s \<noteq> ''..'' \<Longrightarrow> CHR ''/'' \<notin> set s \<Longrightarrow> components s = [Normal s]"
  by (simp add: components_def body_components_def no_slash_relative split_char_no_sep
      List.map_filter_simps piece_component.simps)

text \<open>Collecting normal components into a path and reading them back.\<close>

lemma components_path_collect:
  "\<forall>c \<in> set cs. \<exists>s. c = Normal s \<and> s \<noteq> '''' \<and> s \<noteq> ''.'' \<and> s \<noteq> ''..'' \<and> CHR ''/'' \<notin> set s \<Longrightarrow>
    components (path_collect cs) = cs"
proof (induction cs rule: rev_induct)
  case Nil
  then show ?case by (simp add: path_collect_def components_def)
next
  case (snoc c cs)
  then obtain s where s: "c = Normal s" "s \<noteq> ''''" "s \<noteq> ''.''" "s \<noteq> ''..''" "CHR ''/'' \<notin> set s" by auto
  have "components (path_join (path_collect cs) s) = components (path_collect cs) @ components s"
    by (rule components_join) (use s in \<open>simp_all add: no_slash_relative split_char_no_sep\<close>)
  moreover have "path_collect (cs @ [c]) = path_join (path_collect cs) s"
    by (simp add: path_collect_def s(1))
  ultimately show ?case using snoc components_plain [OF s(2-5)] s(1) by simp
qed

text \<open>A request for a permitted, valid and relative path is stored below the cache directory:
  the file's components are those of the directory followed by at least one normal component.\<close>

lemma cacheable_file_below_cache:
  assumes "permitted_path (path_buf (requested_path ord))" and "valid_path (path_buf (requested_path ord))"
    and "\<not> has_root (path_buf (requested_path ord))" and "cacheability ord = Cacheable"
  shows "\<exists>rest. file_key cfg ord = components (cache_directory cfg) @ rest \<and> rest \<noteq> [] \<and>
    (\<forall>c \<in> set rest. \<exists>s. c = Normal s)"
proof -
  let ?p = "path_buf (requested_path ord)"
  have "file_key cfg ord = components (cache_directory cfg) @ components ?p"
    using components_join [OF assms(3) permitted_relative(1) [OF assms(1,3)]]
    by (simp add: file_key_cacheable assms(4))
  moreover have "components ?p \<noteq> []" using assms(2) by (auto simp: valid_path_def split: if_splits)
  ultimately show ?thesis using permitted_relative(2) [OF assms(1,3)] by blast
qed



text \<open>Different orders can share a file: doubling a slash inside a request's path gives an order
  that is not equal to the first one, so both can be in progress at once, and yet has the same file.\<close>

lemma doubled_slash_same_file:
  assumes "a \<noteq> ''''" and "\<not> has_root a" and "hd (split_char (CHR ''/'') a) \<noteq> ''.''"
    and "is_cacheable_path (str_path_new (a @ ''/'' @ b))" and "is_cacheable_path (str_path_new (a @ ''//'' @ b))"
  shows "download_order_new u (str_path_new (a @ ''/'' @ b)) \<noteq> download_order_new v (str_path_new (a @ ''//'' @ b)) \<and>
    file_key cfg (download_order_new u (str_path_new (a @ ''/'' @ b))) =
    file_key cfg (download_order_new v (str_path_new (a @ ''//'' @ b)))"
proof -
  have rel: "\<not> has_root (a @ CHR ''/'' # b)" "\<not> has_root (a @ CHR ''/'' # CHR ''/'' # b)"
    using assms(1,2) by simp_all
  have dot: "hd (split_char (CHR ''/'') (a @ CHR ''/'' # b)) \<noteq> ''.''"
    "hd (split_char (CHR ''/'') (a @ CHR ''/'' # CHR ''/'' # b)) \<noteq> ''.''"
    using assms(3) by (simp_all only: hd_split_slash not_False_eq_True)
  have "components (a @ CHR ''/'' # CHR ''/'' # b) = components (a @ CHR ''/'' # b)"
    by (simp add: components_slash [of a b] components_slash [of a "CHR ''/'' # b"])
  moreover have differ: "str_path_new (a @ CHR ''/'' # b) \<noteq> str_path_new (a @ CHR ''/'' # CHR ''/'' # b)"
  proof
    assume "str_path_new (a @ CHR ''/'' # b) = str_path_new (a @ CHR ''/'' # CHR ''/'' # b)"
    then have "inner (str_path_new (a @ CHR ''/'' # b)) = inner (str_path_new (a @ CHR ''/'' # CHR ''/'' # b))"
      by (rule arg_cong)
    with rel show False by simp
  qed
  ultimately show ?thesis
    using assms(4,5) rel differ components_join [OF rel(1) dot(1)] components_join [OF rel(2) dot(2)]
    by (simp add: download_order_new_def file_key_cacheable)
qed

theorem doubled_slash_same_file_witness:
  "download_order_new ''u'' (str_path_new (''core/os'' @ ''/'' @ ''a.pkg'')) \<noteq>
      download_order_new ''v'' (str_path_new (''core/os'' @ ''//'' @ ''a.pkg'')) \<and>
    file_key plain_config (download_order_new ''u'' (str_path_new (''core/os'' @ ''/'' @ ''a.pkg''))) =
    file_key plain_config (download_order_new ''v'' (str_path_new (''core/os'' @ ''//'' @ ''a.pkg'')))"
  by (rule doubled_slash_same_file) code_simp+

text \<open>C32: A request below \<open>custom_repo/<name>\<close> goes to the first configured repository of that
  name, with the name removed from the path and nothing else changed; if there is none, the request
  is left as it is.\<close>

theorem custom_repo_request:
  assumes "name \<noteq> ''''" and "name \<noteq> ''.''" and "CHR ''/'' \<notin> set name"
    and "path req = str_path_new (''/custom_repo/'' @ name @ ''/'' @ rest)"
    and "ParentDir \<notin> set (body_components rest)"
  shows "\<exists>rest'. components rest' = body_components rest \<and>
    custom_provider_from_request req repos =
      (case List.find (\<lambda>r. repo_name r = name) repos of
         None \<Rightarrow> (None, req)
       | Some r \<Rightarrow>
           (Some \<lparr>uri = repo_url r, provider_name = repo_name r,
                  mirror_results = default_mirror_results, country_code = ''Unknown''\<rparr>,
            req\<lparr>path := str_path_new rest'\<rparr>))"
proof -
  let ?rest = "path_collect (body_components rest)"
  have p: "path_buf (path req) = ''custom_repo'' @ CHR ''/'' # name @ CHR ''/'' # rest"
    using assms(4) by simp
  have name_parts: "body_components name = [Normal name] \<or> body_components name = [ParentDir]"
    using assms(1-3) by (simp add: body_components_def split_char_no_sep List.map_filter_simps
        piece_component.simps)
  have "components (path_buf (path req)) =
      components (''custom_repo'' @ [CHR ''/'']) @ body_components (name @ CHR ''/'' # rest)"
    unfolding p by (rule components_slash)
  moreover have "components (''custom_repo'' @ [CHR ''/'']) = [Normal ''custom_repo'']" by code_simp
  ultimately have comps: "components (path_buf (path req)) =
      Normal ''custom_repo'' # body_components name @ body_components rest"
    by (simp add: body_components_join)
  have name_str: "map component_str (body_components name) = [name]"
    using assms(1-3) by (simp add: body_components_def split_char_no_sep List.map_filter_simps
        piece_component.simps)
  have "repo_name_from_get_request req = Some (name, str_path_new ?rest)"
    using name_parts name_str by (auto simp: repo_name_from_get_request_def comps from_path_buf_def)
  moreover have "components ?rest = body_components rest"
  proof (rule components_path_collect, rule ballI)
    fix c assume c: "c \<in> set (body_components rest)"
    then obtain s where "c = Normal s" using assms(5) body_no_root [OF c] by (metis component.exhaust)
    with c body_component_plain show "\<exists>s. c = Normal s \<and> s \<noteq> '''' \<and> s \<noteq> ''.'' \<and> s \<noteq> ''..'' \<and> CHR ''/'' \<notin> set s"
      by blast
  qed
  ultimately show ?thesis
    by (intro exI [of _ ?rest]) (auto simp: custom_provider_from_request_def split: option.splits)
qed

theorem custom_repo_request_witness:
  "\<exists>rest'. components rest' = [Normal ''foo'', Normal ''bar''] \<and>
    custom_provider_from_request
      \<lparr>resume_from = None, path = str_path_new ''/custom_repo/archzfs/foo/bar'', request_method = Get\<rparr>
      [\<lparr>repo_name = ''archzfs'', repo_url = ''https://archzfs.com''\<rparr>] =
    (Some \<lparr>uri = ''https://archzfs.com'', provider_name = ''archzfs'',
        mirror_results = default_mirror_results, country_code = ''Unknown''\<rparr>,
     \<lparr>resume_from = None, path = str_path_new rest', request_method = Get\<rparr>)"
  using custom_repo_request [of "''archzfs''"
      "\<lparr>resume_from = None, path = str_path_new ''/custom_repo/archzfs/foo/bar'', request_method = Get\<rparr>"
      "''foo/bar''" "[\<lparr>repo_name = ''archzfs'', repo_url = ''https://archzfs.com''\<rparr>]"]
  by (simp add: body_components_def List.map_filter_simps piece_component.simps)

end
