(* ===== verification/Cache.thy ===== *)
theory Cache
  imports Download_Order Order_Loop
begin

section \<open>The package cache on disk (mirror\_flexo.rs, main.rs)\<close>

text \<open>
  For a cached file \<open>f\<close> the size of the complete file is kept in \<open>.f.cfs\<close> beside it, in
  decimal with a newline. These are the operations that read and write it, decide what is cached of
  an order, bring the cache into shape at start, and purge what is left over.
\<close>

subsection \<open>Complete file sizes\<close>

definition cfs_path_from_pkg_path :: "component list \<Rightarrow> component list option" where
  "cfs_path_from_pkg_path p =
     (case file_name p of
        None \<Rightarrow> None
      | Some f \<Rightarrow> Some (with_file_name p (''.'' @ f @ ''.cfs'')))"

definition parse_cfs :: "string \<Rightarrow> u64 option" where
  "parse_cfs s =
     (if s \<noteq> [] \<and> last s = CHR 0x0A \<and> list_all is_digit (butlast s)
      then parse_u64 (butlast s) else None)"

definition get_complete_size_from_cfs_file :: "file_system \<Rightarrow> component list \<Rightarrow> u64 option" where
  "get_complete_size_from_cfs_file fs p =
     (case cfs_path_from_pkg_path p of
        None \<Rightarrow> None
      | Some cfs_path \<Rightarrow>
          (case read_file fs cfs_path of Inl _ \<Rightarrow> None | Inr s \<Rightarrow> parse_cfs s))"

text \<open>An I/O error leaves the file system as it is; a path without a file name panics.\<close>

definition create_cfs_file :: "component list \<Rightarrow> u64 \<Rightarrow> file_system \<Rightarrow> file_system panics" where
  "create_cfs_file p complete_filesize fs =
     (case cfs_path_from_pkg_path p of
        None \<Rightarrow> None
      | Some cfs_path \<Rightarrow>
          (case open_write True cfs_path fs of
             Inl _ \<Rightarrow> Some fs
           | Inr fs1 \<Rightarrow>
               (case append_file cfs_path (show_u64 complete_filesize @ [CHR 0x0A]) fs1 of
                  Inl _ \<Rightarrow> Some fs1
                | Inr fs2 \<Rightarrow> Some fs2)))"

subsection \<open>What is cached of a file\<close>

definition persist_and_get_cache_state ::
  "component list \<Rightarrow> file_system \<Rightarrow> (cached_item option \<times> file_system) panics" where
  "persist_and_get_cache_state p fs =
     (case open_read fs p of
        Inl NotFound \<Rightarrow> Some (None, fs)
      | Inl _ \<Rightarrow> None
      | Inr n \<Rightarrow>
          (let file_size = node_len fs n in
           case get_complete_size_from_cfs_file fs p of
             Some s \<Rightarrow> Some (Some \<lparr>complete_size = Some s, cached_size = file_size\<rparr>, fs)
           | None \<Rightarrow>
               if file_size = 0
               then Some (None, (case remove_file p fs of Inl _ \<Rightarrow> fs | Inr fs' \<Rightarrow> fs'))
               else map_option
                      (\<lambda>fs'. (Some \<lparr>complete_size = Some file_size, cached_size = file_size\<rparr>, fs'))
                      (create_cfs_file p file_size fs)))"

text \<open>
  \<open>inspect_and_initialize_cache\<close>, given the entries the \<open>walkdir\<close> crate yields
  (one that is an error panics): the number of cached items, their total size (in 64 bits) and the file
  system afterwards.
\<close>

definition is_visible :: "component list \<Rightarrow> bool" where
  "is_visible p = (case file_name p of None \<Rightarrow> False | Some f \<Rightarrow> strip_prefix ''.'' f = None)"

definition inspect_entry ::
  "component list \<Rightarrow> u64 \<times> nat \<Rightarrow> file_system \<Rightarrow> ((u64 \<times> nat) \<times> file_system) panics" where
  "inspect_entry p acc fs =
     (if is_visible p \<and> nodes fs p \<noteq> None \<and> nodes fs p \<noteq> Some DirNode
      then map_option
             (\<lambda>(item, fs'). ((case item of
                  None \<Rightarrow> acc
                | Some i \<Rightarrow> (fst acc + cached_size i, snd acc + 1)), fs'))
             (persist_and_get_cache_state p fs)
      else Some (acc, fs))"

fun initialize_entries ::
  "component list list \<Rightarrow> u64 \<times> nat \<Rightarrow> file_system \<Rightarrow> ((u64 \<times> nat) \<times> file_system) panics" where
  "initialize_entries [] acc fs = Some (acc, fs)"
| "initialize_entries (p # ps) acc fs =
     (case inspect_entry p acc fs of
        None \<Rightarrow> None
      | Some (acc', fs') \<Rightarrow> initialize_entries ps acc' fs')"

definition inspect_and_initialize_cache ::
  "mirror_config \<Rightarrow> (file_system \<Rightarrow> component list list panics) \<Rightarrow> file_system \<Rightarrow>
    ((u64 \<times> nat) \<times> file_system) panics" where
  "inspect_and_initialize_cache cfg walk fs =
     (case create_dir_unless_exists (components (cache_directory cfg)) fs of
        None \<Rightarrow> None
      | Some fs1 \<Rightarrow> Option.bind (walk fs1) (\<lambda>entries. initialize_entries entries (0, 0) fs1))"

subsection \<open>Purging\<close>

text \<open>
  \<open>purge_cfs_files\<close> on the paths that match the glob \<open>**/.*.cfs\<close>: each is removed when its
  package is gone.
\<close>

fun purge_cfs_paths :: "component list list \<Rightarrow> file_system \<Rightarrow> file_system panics" where
  "purge_cfs_paths [] fs = Some fs"
| "purge_cfs_paths (p # ps) fs =
     (case file_name p of
        None \<Rightarrow> None
      | Some f \<Rightarrow>
          (case Option.bind (strip_prefix ''.'' f) (strip_suffix ''.cfs'') of
             None \<Rightarrow> None
           | Some pkg \<Rightarrow>
               (case stat fs (with_file_name p pkg) of
                  Inr _ \<Rightarrow> purge_cfs_paths ps fs
                | Inl _ \<Rightarrow>
                    purge_cfs_paths ps (case remove_file p fs of Inl _ \<Rightarrow> fs | Inr fs' \<Rightarrow> fs'))))"

definition purge_cfs_files ::
  "(file_system \<Rightarrow> component list list) \<Rightarrow> file_system \<Rightarrow> file_system panics" where
  "purge_cfs_files glob_cfs fs = purge_cfs_paths (glob_cfs fs) fs"

text \<open>
  \<open>purge_uncacheable_files\<close> on the paths of the glob, each with its age in nanoseconds (None
  when the clock went backwards); an I/O error ends it.
\<close>

definition STALE_AFTER :: duration where
  "STALE_AFTER = from_secs (60 * 5)"

fun purge_uncacheable_paths ::
  "(component list \<Rightarrow> duration option) \<Rightarrow> component list list \<Rightarrow> file_system \<Rightarrow>
    (error_kind option \<times> file_system)" where
  "purge_uncacheable_paths age [] fs = (None, fs)"
| "purge_uncacheable_paths age (p # ps) fs =
     (case stat fs p of
        Inr (FileNode _) \<Rightarrow>
          (case age p of
             None \<Rightarrow> purge_uncacheable_paths age ps fs
           | Some d \<Rightarrow>
               if STALE_AFTER < d
               then (case remove_file p fs of
                       Inl e \<Rightarrow> (Some e, fs)
                     | Inr fs' \<Rightarrow> purge_uncacheable_paths age ps fs')
               else purge_uncacheable_paths age ps fs)
      | _ \<Rightarrow> purge_uncacheable_paths age ps fs)"

subsection \<open>Lemmas on complete file sizes\<close>

lemma file_name_Some: "file_name p = Some f \<longleftrightarrow> (\<exists>d. p = d @ [Normal f])"
proof
  assume f: "file_name p = Some f"
  then have "p \<noteq> []" "last p = Normal f"
    by (auto simp: file_name_def split: if_splits component.splits)
  then show "\<exists>d. p = d @ [Normal f]" by (metis append_butlast_last_id)
qed (auto simp: file_name_def)

lemma cfs_path_snoc [simp]:
  "cfs_path_from_pkg_path (d @ [Normal f]) = Some (d @ [Normal (CHR ''.'' # f @ ''.cfs'')])"
  by (simp add: cfs_path_from_pkg_path_def with_file_name_def file_name_def)

lemma ancestors_last: "ancestors (d @ [x]) = ancestors (d @ [y])"
  by (cases "d = []") (simp_all add: ancestors_snoc, simp add: ancestors_def)

lemma walk_error_last: "walk_error fs (d @ [x]) = walk_error fs (d @ [y])"
  by (simp add: walk_error_def ancestors_last [of d x y])

lemma parse_cfs_show [simp]: "parse_cfs (show_u64 n @ [CHR 0x0A]) = Some n"
proof -
  have "list_all is_digit (show_u64 n)" by (simp add: show_u64_def show_nat_digits)
  then show ?thesis by (simp add: parse_cfs_def)
qed

text \<open>The complete size of a file can be stored: nothing stands in the way of its \<open>cfs\<close> file.\<close>

definition cfs_writable :: "file_system \<Rightarrow> component list \<Rightarrow> bool" where
  "cfs_writable fs p \<longleftrightarrow> walk_error fs p = None \<and> \<not> device_full fs \<and>
     (case cfs_path_from_pkg_path p of
        None \<Rightarrow> False
      | Some q \<Rightarrow> q \<notin> unwritable fs \<and> q \<notin> unreadable fs \<and> nodes fs q \<noteq> Some DirNode)"

lemma cfs_writableE:
  assumes "cfs_writable fs p"
  obtains d f where "p = d @ [Normal f]" and "walk_error fs (d @ [Normal (CHR ''.'' # f @ ''.cfs'')]) = None"
    and "\<not> device_full fs" and "d @ [Normal (CHR ''.'' # f @ ''.cfs'')] \<notin> unwritable fs"
    and "d @ [Normal (CHR ''.'' # f @ ''.cfs'')] \<notin> unreadable fs"
    and "nodes fs (d @ [Normal (CHR ''.'' # f @ ''.cfs'')]) \<noteq> Some DirNode"
proof -
  from assms obtain q where q: "cfs_path_from_pkg_path p = Some q"
    by (auto simp: cfs_writable_def split: option.splits)
  then obtain f where "file_name p = Some f" by (auto simp: cfs_path_from_pkg_path_def split: option.splits)
  then obtain d where p: "p = d @ [Normal f]" unfolding file_name_Some ..
  then show ?thesis
    using assms that walk_error_last [of fs d "Normal f"] by (simp add: cfs_writable_def)
qed

lemma create_cfs_file_writes:
  assumes "cfs_writable fs p" and "cfs_path_from_pkg_path p = Some q"
  shows "create_cfs_file p n fs = Some (write_node q (show_u64 n @ [CHR 0x0A]) (write_node q [] fs))"
  using assms(1)
proof (rule cfs_writableE)
  fix d f
  assume "p = d @ [Normal f]"
    and ok: "walk_error fs (d @ [Normal (CHR ''.'' # f @ ''.cfs'')]) = None" "\<not> device_full fs"
      "d @ [Normal (CHR ''.'' # f @ ''.cfs'')] \<notin> unwritable fs"
      "nodes fs (d @ [Normal (CHR ''.'' # f @ ''.cfs'')]) \<noteq> Some DirNode"
  then have "q = d @ [Normal (CHR ''.'' # f @ ''.cfs'')]" using assms(2) by simp
  with ok assms(2) show ?thesis
    by (auto simp: create_cfs_file_def open_write_def append_file_def split: option.splits node.splits)
qed

lemma create_then_get:
  assumes "cfs_writable fs p" and "create_cfs_file p n fs = Some fs'"
  shows "get_complete_size_from_cfs_file fs' p = Some n"
  using assms(1)
proof (rule cfs_writableE)
  fix d f
  let ?q = "d @ [Normal (CHR ''.'' # f @ ''.cfs'')]"
  assume p: "p = d @ [Normal f]" and ok: "walk_error fs ?q = None" "\<not> device_full fs"
    "?q \<notin> unreadable fs" "nodes fs ?q \<noteq> Some DirNode"
  have "fs' = write_node ?q (show_u64 n @ [CHR 0x0A]) (write_node ?q [] fs)"
    using create_cfs_file_writes [OF assms(1), of ?q n] assms(2) p by simp
  with p ok show ?thesis
    by (simp add: get_complete_size_from_cfs_file_def read_file_def open_read_def stat_def)
qed

lemma cfs_differs: "cfs_path_from_pkg_path p = Some q \<Longrightarrow> q \<noteq> p"
  by (cases "file_name p") (auto simp: cfs_path_from_pkg_path_def with_file_name_def file_name_Some)

lemma persist_stable:
  assumes "persist_and_get_cache_state p fs = Some (item, fs')" and "cfs_writable fs p"
  shows "persist_and_get_cache_state p fs' = Some (item, fs')"
    and "item = Some it \<Longrightarrow> get_complete_size_from_cfs_file fs' p = complete_size it"
proof -
  have "persist_and_get_cache_state p fs' = Some (item, fs') \<and>
    (\<forall>it. item = Some it \<longrightarrow> get_complete_size_from_cfs_file fs' p = complete_size it)"
  proof (cases "open_read fs p")
    case (Inl e)
    with assms(1) have "item = None" "fs' = fs"
      by (auto simp: persist_and_get_cache_state_def split: error_kind.splits)
    with assms(1) show ?thesis by simp
  next
    case (Inr n)
    show ?thesis
    proof (cases "get_complete_size_from_cfs_file fs p")
      case (Some s)
      with Inr assms(1) show ?thesis by (auto simp: persist_and_get_cache_state_def Let_def)
    next
      case None
      show ?thesis
      proof (cases "node_len fs n = 0")
        case True
        with None Inr assms(1) have item: "item = None"
          and fs': "fs' = (case remove_file p fs of Inl _ \<Rightarrow> fs | Inr fs' \<Rightarrow> fs')"
          by (simp_all add: persist_and_get_cache_state_def)
        show ?thesis
        proof (cases "remove_file p fs")
          case (Inl e)
          with item fs' assms(1) show ?thesis by simp
        next
          case (Inr fs2)
          then have fs2: "fs2 = fs\<lparr>nodes := (nodes fs)(p := None)\<rparr>" and "walk_error fs p = None"
            by (auto simp: remove_file_def stat_def split: option.splits node.splits sum.splits if_splits)
          moreover have "walk_error fs2 p = walk_error fs p"
            by (rule walk_error_cong) (use not_own_ancestor in \<open>auto simp: fs2\<close>)
          ultimately have "open_read fs2 p = Inl NotFound" by (simp add: open_read_def stat_def)
          with item fs' Inr show ?thesis by (simp add: persist_and_get_cache_state_def)
        qed
      next
        case False
        with None Inr assms(1) obtain item: "item = Some \<lparr>complete_size = Some (node_len fs n), cached_size = node_len fs n\<rparr>"
          and create: "create_cfs_file p (node_len fs n) fs = Some fs'"
          by (auto simp: persist_and_get_cache_state_def Let_def)
        obtain q where q: "cfs_path_from_pkg_path p = Some q"
          using assms(2) by (auto simp: cfs_writable_def split: option.splits)
        have fs': "fs' = write_node q (show_u64 (node_len fs n) @ [CHR 0x0A]) (write_node q [] fs)"
          using create create_cfs_file_writes [OF assms(2) q] by simp
        have ndir: "nodes fs q \<noteq> Some DirNode" and walk: "walk_error fs p = None"
          using assms(2) q by (auto simp: cfs_writable_def)
        have "open_read fs' p = Inr n"
          using Inr cfs_differs [OF q] ndir walk
          by (auto simp: fs' open_read_def stat_def split: option.splits)
        moreover have "node_len fs' n = node_len fs n" by (simp add: fs' node_len_def split: node.splits)
        ultimately show ?thesis
          using create_then_get [OF assms(2) create] item by (simp add: persist_and_get_cache_state_def)
      qed
    qed
  qed
  then show "persist_and_get_cache_state p fs' = Some (item, fs')"
    and "item = Some it \<Longrightarrow> get_complete_size_from_cfs_file fs' p = complete_size it" by blast+
qed

subsection \<open>What the operations leave alone\<close>

lemma only_files_create_cfs:
  assumes "create_cfs_file p n fs = Some fs'"
  shows "only_files {q. cfs_path_from_pkg_path p = Some q} fs fs'"
proof -
  from assms obtain q where q: "cfs_path_from_pkg_path p = Some q"
    by (auto simp: create_cfs_file_def split: option.splits)
  show ?thesis
  proof (cases "open_write True q fs")
    case (Inl e)
    with assms q show ?thesis by (simp add: create_cfs_file_def)
  next
    case (Inr fs1)
    have "only_files {q} fs1 fs'"
      using assms q Inr only_files_append by (auto simp: create_cfs_file_def split: sum.splits)
    with only_files_open_write [OF Inr] have "only_files {q} fs fs'"
      using only_files_trans by fastforce
    with q show ?thesis by simp
  qed
qed

lemma only_files_persist:
  assumes "persist_and_get_cache_state p fs = Some (item, fs')"
  shows "only_files ({p} \<union> {q. cfs_path_from_pkg_path p = Some q}) fs fs'"
  using assms
  by (auto simp: persist_and_get_cache_state_def Let_def
      split: sum.splits error_kind.splits option.splits if_splits
      dest!: only_files_remove only_files_create_cfs intro: only_files_mono)

lemma only_files_writable: "only_files A fs fs' \<Longrightarrow> cfs_writable fs' p = cfs_writable fs p"
  by (simp add: cfs_writable_def only_files_walk only_filesD split: option.splits)

text \<open>The recorded size of a file depends on its \<open>cfs\<close> file alone.\<close>

lemma get_complete_size_cong:
  assumes "only_files A fs fs'" and "cfs_writable fs p" and "\<And>q. cfs_path_from_pkg_path p = Some q \<Longrightarrow> q \<notin> A"
  shows "get_complete_size_from_cfs_file fs' p = get_complete_size_from_cfs_file fs p"
  using assms(2)
proof (rule cfs_writableE)
  fix d f
  let ?q = "d @ [Normal (CHR ''.'' # f @ ''.cfs'')]"
  assume p: "p = d @ [Normal f]" and walk: "walk_error fs ?q = None"
  then have "nodes fs' ?q = nodes fs ?q" using assms(3) only_filesD(1) [OF assms(1)] by simp
  moreover have "walk_error fs' ?q = None" using walk only_files_walk [OF assms(1)] by simp
  ultimately show ?thesis
    using p walk only_filesD(4) [OF assms(1)]
    by (simp add: get_complete_size_from_cfs_file_def read_file_def open_read_def stat_def
        split: option.splits)
qed

lemma cfs_path_SomeE:
  assumes "cfs_path_from_pkg_path p = Some q"
  obtains d f where "p = d @ [Normal f]" and "q = d @ [Normal (CHR ''.'' # f @ ''.cfs'')]"
proof -
  from assms obtain f where "file_name p = Some f"
    by (auto simp: cfs_path_from_pkg_path_def split: option.splits)
  then obtain d where "p = d @ [Normal f]" unfolding file_name_Some ..
  with assms that show ?thesis by simp
qed

lemma cfs_path_inj:
  "cfs_path_from_pkg_path p = Some q \<Longrightarrow> cfs_path_from_pkg_path p' = Some q \<Longrightarrow> p = p'"
  by (elim cfs_path_SomeE) simp

lemma cfs_path_hidden: "cfs_path_from_pkg_path p = Some q \<Longrightarrow> \<not> is_visible q"
  by (elim cfs_path_SomeE) (simp add: is_visible_def file_name_def)

lemma persist_NoneE:
  assumes "persist_and_get_cache_state p fs = Some (None, fs')"
  obtains "open_read fs p = Inl NotFound" and "fs' = fs"
  | n where "open_read fs p = Inr n" and "fs' = (case remove_file p fs of Inl _ \<Rightarrow> fs | Inr fs' \<Rightarrow> fs')"
proof (cases "open_read fs p")
  case (Inl e)
  with assms have "e = NotFound \<and> fs' = fs"
    by (cases e) (simp_all add: persist_and_get_cache_state_def)
  with Inl show ?thesis by (intro that(1)) simp_all
next
  case (Inr n)
  have "fs' = (case remove_file p fs of Inl _ \<Rightarrow> fs | Inr fs' \<Rightarrow> fs')"
    using assms Inr
    by (auto simp: persist_and_get_cache_state_def Let_def split: option.splits if_splits)
  with Inr show ?thesis by (rule that(2))
qed

lemma inspect_entry_SomeE:
  assumes "inspect_entry p acc fs = Some (acc', fs')"
  obtains (skip) "fs' = fs" and "\<not> is_visible p \<or> nodes fs p = None \<or> nodes fs p = Some DirNode"
  | (look) item where "is_visible p" and "persist_and_get_cache_state p fs = Some (item, fs')"
  using assms by (auto simp: inspect_entry_def split: if_splits)

end
