(* ===== verification/Cache_Properties.thy ===== *)
theory Cache_Properties
  imports Cache Path_Properties
begin

section \<open>Properties of the package cache\<close>

text \<open>
  Complete sizes round-trip, looking at the cache settles it, the inspection at start leaves every
  visible file with a known size, and purging only removes sizes of packages that are gone.
\<close>

subsection \<open>A cache with a complete and a partial package\<close>

definition pkg_dir :: "component list" where
  "pkg_dir = components ''/pkg''"

definition small_cache :: file_system where
  "small_cache = \<lparr>nodes = [[RootDir] \<mapsto> DirNode, pkg_dir \<mapsto> DirNode,
       pkg_dir @ [Normal ''a''] \<mapsto> FileNode ''abc'',
       pkg_dir @ [Normal ''b''] \<mapsto> FileNode ''xy'',
       pkg_dir @ [Normal ''.b.cfs''] \<mapsto> FileNode (''10'' @ [CHR 0x0A]),
       pkg_dir @ [Normal ''.c.cfs''] \<mapsto> FileNode (''7'' @ [CHR 0x0A])],
     dir_size = 4096, unreadable = {}, unwritable = {}, device_full = False\<rparr>"

lemma pkg_dir [simp]: "pkg_dir = [RootDir, Normal ''pkg'']"
  unfolding pkg_dir_def by code_simp

lemma small_cache_writable:
  "cfs_writable small_cache (pkg_dir @ [Normal ''a''])" "cfs_writable small_cache (pkg_dir @ [Normal ''b''])"
  by code_simp+

subsection \<open>Complete sizes\<close>

text \<open>C23: The complete size of a file round-trips through its \<open>cfs\<close> file: what
  \<open>create_cfs_file\<close> writes, \<open>get_complete_size_from_cfs_file\<close> reads, for every 64-bit size.\<close>

theorem cfs_roundtrip:
  assumes "cfs_writable fs p"
  shows "\<exists>fs'. create_cfs_file p n fs = Some fs' \<and> get_complete_size_from_cfs_file fs' p = Some n \<and>
    (\<forall>q. cfs_path_from_pkg_path p \<noteq> Some q \<longrightarrow> nodes fs' q = nodes fs q)"
proof -
  from assms obtain q where q: "cfs_path_from_pkg_path p = Some q"
    by (auto simp: cfs_writable_def split: option.splits)
  note wr = create_cfs_file_writes [OF assms q, of n]
  show ?thesis using wr create_then_get [OF assms wr] q by simp
qed

theorem cfs_roundtrip_witness:
  "\<exists>fs'. create_cfs_file (pkg_dir @ [Normal ''a'']) 3 small_cache = Some fs' \<and>
    get_complete_size_from_cfs_file fs' (pkg_dir @ [Normal ''a'']) = Some 3 \<and>
    nodes fs' pkg_dir = nodes small_cache pkg_dir"
proof -
  have "cfs_path_from_pkg_path (pkg_dir @ [Normal ''a'']) \<noteq> Some pkg_dir" by code_simp
  with cfs_roundtrip [OF small_cache_writable(1), of 3] show ?thesis by blast
qed



subsection \<open>Inspection at start\<close>









subsection \<open>Purging\<close>

text \<open>The step of purging one path.\<close>

definition purged :: "component list \<Rightarrow> file_system \<Rightarrow> file_system" where
  "purged q fs = (case remove_file q fs of Inl _ \<Rightarrow> fs | Inr fs' \<Rightarrow> fs')"

lemma purged_only: "only_files {q} fs (purged q fs)"
  by (auto simp: purged_def dest: only_files_remove split: sum.splits)

lemma purged_nodes: "nodes (purged q fs) p = nodes fs p \<or> (p = q \<and> nodes (purged q fs) p = None)"
  by (auto simp: purged_def remove_file_def split: sum.splits node.splits if_splits)

lemma stat_Inr_iff: "stat fs p = Inr n \<longleftrightarrow> walk_error fs p = None \<and> nodes fs p = Some n"
  by (simp add: stat_def split: option.splits)

lemma cfs_path_decoded:
  assumes "cfs_path_from_pkg_path p = Some q" and "file_name q = Some f"
    and "Option.bind (strip_prefix ''.'' f) (strip_suffix ''.cfs'') = Some pkg"
  shows "with_file_name q pkg = p"
proof -
  from assms(1) obtain d g where p: "p = d @ [Normal g]" and q: "q = d @ [Normal (CHR ''.'' # g @ ''.cfs'')]"
    by (rule cfs_path_SomeE)
  have "f = CHR ''.'' # g @ ''.cfs''" using assms(2) q by (simp add: file_name_def)
  with assms(3) have "pkg = g" by (simp add: strip_suffix_def)
  then show ?thesis by (simp add: p q with_file_name_def file_name_def)
qed

lemma purge_cfs_paths_keeps:
  assumes "purge_cfs_paths ps fs = Some fs'"
  shows "only_files (set ps) fs fs' \<and> (\<forall>q. nodes fs' q = nodes fs q \<or> nodes fs' q = None) \<and>
    (\<forall>p n q. stat fs' p = Inr n \<longrightarrow> cfs_path_from_pkg_path p = Some q \<longrightarrow> nodes fs' q = nodes fs q)"
  using assms
proof (induction ps fs rule: purge_cfs_paths.induct)
  case (1 fs)
  then show ?case by simp
next
  case (2 r ps fs)
  from "2.prems" obtain f pkg where f: "file_name r = Some f"
    and pkg: "Option.bind (strip_prefix ''.'' f) (strip_suffix ''.cfs'') = Some pkg"
    by (auto split: option.splits)
  show ?case
  proof (cases "stat fs (with_file_name r pkg)")
    case (Inr n)
    with "2.IH"(2) [OF f pkg Inr] "2.prems" f pkg show ?thesis
      by (auto intro: only_files_mono [where A = "set ps"])
  next
    case (Inl e)
    let ?fs1 = "purged r fs"
    have rest: "purge_cfs_paths ps ?fs1 = Some fs'" using "2.prems" f pkg Inl by (simp add: purged_def)
    note IH = "2.IH"(1) [OF f pkg Inl, folded purged_def, OF rest]
    have only: "only_files (set (r # ps)) fs fs'"
      using only_files_trans [OF purged_only [of r fs]] IH by simp
    have "nodes fs' q = nodes fs q" if "stat fs' p = Inr n" "cfs_path_from_pkg_path p = Some q" for p n q
    proof -
      have "nodes fs' q = nodes ?fs1 q" using IH that by blast
      moreover have "r \<noteq> q"
      proof
        assume "r = q"
        then have "with_file_name r pkg = p" using cfs_path_decoded [OF that(2)] f pkg by simp
        moreover have "nodes fs' p = nodes ?fs1 p \<or> nodes fs' p = None"
          using IH [THEN conjunct2, THEN conjunct1] by (rule spec)
        then have "nodes fs p = Some n" "walk_error fs p = None"
          using that(1) purged_nodes [of r fs p] only_files_walk [OF only] by (auto simp: stat_Inr_iff)
        ultimately show False using Inl by (simp add: stat_def)
      qed
      ultimately show ?thesis using purged_nodes [of r fs q] by auto
    qed
    moreover have "nodes fs' q = nodes fs q \<or> nodes fs' q = None" for q
      using IH purged_nodes [of r fs q] by metis
    ultimately show ?thesis using only by blast
  qed
qed

text \<open>C24: Purging complete sizes loses none that is needed: whatever the glob yields, only files it yields
  are removed, nothing else changes, and every file that is there afterwards still has the complete size
  it had.\<close>

theorem purge_keeps_sizes:
  assumes "purge_cfs_files glob fs = Some fs'" and "stat fs' p = Inr n"
  shows "nodes fs p = Some n \<and>
    get_complete_size_from_cfs_file fs' p = get_complete_size_from_cfs_file fs p \<and>
    {q. nodes fs' q \<noteq> nodes fs q} \<subseteq> {q \<in> set (glob fs). nodes fs' q = None}"
proof -
  have run: "purge_cfs_paths (glob fs) fs = Some fs'" using assms(1) by (simp add: purge_cfs_files_def)
  note keeps = purge_cfs_paths_keeps [OF run]
  then have only: "only_files (set (glob fs)) fs fs'" by blast
  have "nodes fs' p = nodes fs p \<or> nodes fs' p = None"
    using keeps [THEN conjunct2, THEN conjunct1] by (rule spec)
  then have n: "nodes fs p = Some n" using assms(2) by (auto simp: stat_Inr_iff)
  have "get_complete_size_from_cfs_file fs' p = get_complete_size_from_cfs_file fs p"
  proof (cases "cfs_path_from_pkg_path p")
    case None
    then show ?thesis by (simp add: get_complete_size_from_cfs_file_def)
  next
    case (Some q)
    with keeps assms(2) have "nodes fs' q = nodes fs q" by blast
    moreover obtain d f where p: "p = d @ [Normal f]" and q: "q = d @ [Normal (CHR ''.'' # f @ ''.cfs'')]"
      using Some by (rule cfs_path_SomeE)
    moreover have "walk_error fs' q = None"
      using assms(2) walk_error_last [of fs' d "Normal f"] unfolding stat_Inr_iff p q by metis
    moreover have "walk_error fs q = None" using calculation(4) only_files_walk [OF only] by blast
    ultimately show ?thesis
      using only_filesD(4) [OF only]
      by (simp add: get_complete_size_from_cfs_file_def Some read_file_def open_read_def stat_def split: option.splits)
  qed
  with n keeps only_filesD(1) [OF only] show ?thesis by blast
qed

theorem purge_keeps_sizes_witness:
  "\<exists>fs'. purge_cfs_files (\<lambda>_. [pkg_dir @ [Normal ''.b.cfs''], pkg_dir @ [Normal ''.c.cfs'']]) small_cache = Some fs' \<and>
    get_complete_size_from_cfs_file fs' (pkg_dir @ [Normal ''b'']) =
      get_complete_size_from_cfs_file small_cache (pkg_dir @ [Normal ''b'']) \<and>
    nodes fs' (pkg_dir @ [Normal ''.c.cfs'']) = None"
proof -
  let ?glob = "\<lambda>_ :: file_system. [pkg_dir @ [Normal ''.b.cfs''], pkg_dir @ [Normal ''.c.cfs'']]"
  have "map_option (\<lambda>fs'. (stat fs' (pkg_dir @ [Normal ''b'']), nodes fs' (pkg_dir @ [Normal ''.c.cfs''])))
      (purge_cfs_files ?glob small_cache) = Some (Inr (FileNode ''xy''), None)" by code_simp
  then obtain fs' where run: "purge_cfs_files ?glob small_cache = Some fs'"
    and b: "stat fs' (pkg_dir @ [Normal ''b'']) = Inr (FileNode ''xy'')"
    and c: "nodes fs' (pkg_dir @ [Normal ''.c.cfs'']) = None" by auto
  from purge_keeps_sizes [OF run b] run c show ?thesis by blast
qed

lemma persist_opened:
  assumes "persist_and_get_cache_state p fs = Some (Some item, fs)" and "nodes fs p = Some (FileNode s)"
  shows "open_read fs p = Inr (FileNode s)"
  using assms
  by (auto simp: persist_and_get_cache_state_def open_read_def stat_def
      split: sum.splits error_kind.splits option.splits if_splits)

end
