(* ===== verification/Download.thy ===== *)
theory Download
  imports Cache
begin

section \<open>Downloading from a mirror (mirror\_flexo.rs)\<close>

text \<open>
  The implementation of the traits of \<open>lib.rs\<close>: a channel is a curl handle with the state
  of the job it serves, and the download is driven by curl, which calls \<open>header\<close> and
  \<open>write\<close> with the data as they arrive. The crates \<open>curl\<close> and \<open>httparse\<close> are the
  fields of the record \<open>libs\<close>: what a transfer delivers and how it ends, and how a response
  header is parsed. The world of a job is the file system and, for each order, the progress messages
  sent on its channel.
\<close>

subsection \<open>State\<close>

datatype header_outcome = HeaderOk u64 | HeaderUnavailable

record file_state =
  pending :: string
  target :: "component list"
  size_written :: u64
  state_filename :: string

record header_state =
  received_header :: string
  header_success :: "header_outcome option"

record job_resources =
  js_file :: file_state
  js_header :: header_state
  js_last_chance :: bool

record curl_options =
  opt_url :: "string option"
  opt_http11 :: bool
  opt_connect_timeout :: "duration option"
  opt_low_speed_limit :: u32
  opt_low_speed_time :: duration
  opt_max_recv_speed :: "u64 option"
  opt_follow_location :: bool
  opt_max_redirections :: "nat option"
  opt_resume_from :: u64

definition default_options :: curl_options where
  "default_options = \<lparr>opt_url = None, opt_http11 = False, opt_connect_timeout = None,
     opt_low_speed_limit = 0, opt_low_speed_time = 0, opt_max_recv_speed = None,
     opt_follow_location = False, opt_max_redirections = None, opt_resume_from = 0\<rparr>"

record download_channel =
  handle :: nat
  options :: curl_options
  channel_order :: download_order
  resources :: "job_resources option"

record download_world =
  files :: file_system
  progress :: "download_order \<Rightarrow> flexo_progress list"
  next_handle :: nat

datatype download_job_error = CurlError nat | HttpFailureStatus nat

datatype transfer_event = HeaderData string | BodyData string

datatype curl_result = CurlOk nat | CurlErr nat

text \<open>
  A transfer: its events, how it ends, the error it ends with if a callback stops it, and the one it
  ends with if a callback pauses it: nothing in the program unpauses a transfer, and curl exempts a paused
  one from its speed limit, so that None, a transfer that never ends, is what curl documents.
\<close>

record transfer =
  events :: "transfer_event list"
  outcome :: curl_result
  stopped_code :: nat
  paused_code :: "nat option"

text \<open>What a callback tells curl to do.\<close>

datatype callback = Proceed | Abort | Pause

datatype response_parse =
    ResponseComplete nat "(string \<times> string) list"
  | ResponsePartial
  | ResponseInvalid

record libs =
  perform :: "curl_options \<Rightarrow> transfer"
  parse_response :: "string \<Rightarrow> response_parse"
  captures :: "string \<Rightarrow> (string \<times> string) option"

definition send :: "download_order \<Rightarrow> flexo_progress \<Rightarrow> download_world \<Rightarrow> download_world" where
  "send ord m w = w\<lparr>progress := (progress w)(ord := progress w ord @ [m])\<rparr>"

subsection \<open>Buffered writing\<close>

definition BUF_CAPACITY :: nat where
  "BUF_CAPACITY = 8192"

text \<open>
  \<open>BufWriter::write_all\<close>: data that fit are buffered; otherwise the buffer is flushed if
  they do not fit beside it, and data of at least the capacity go to the file directly.
\<close>

definition buffered_write ::
  "component list \<Rightarrow> string \<Rightarrow> string \<Rightarrow> file_system \<Rightarrow> bool \<times> string \<times> file_system" where
  "buffered_write p buf data fs =
     (if length data < BUF_CAPACITY - length buf then (True, buf @ data, fs)
      else
        (case (if BUF_CAPACITY - length buf < length data
               then map_sum id (\<lambda>fs'. ('''', fs')) (append_file p buf fs)
               else Inr (buf, fs)) of
           Inl _ \<Rightarrow> (False, buf, fs)
         | Inr (buf1, fs1) \<Rightarrow>
             if BUF_CAPACITY \<le> length data
             then (case append_file p data fs1 of
                     Inl _ \<Rightarrow> (False, buf1, fs1)
                   | Inr fs2 \<Rightarrow> (True, buf1, fs2))
             else (True, buf1 @ data, fs1)))"

text \<open>Dropping the resources: the buffer is flushed, errors ignored, and the file closed.\<close>

definition drop_resources :: "job_resources \<Rightarrow> file_system \<Rightarrow> file_system" where
  "drop_resources js fs =
     (if pending (js_file js) = '''' then fs
      else (case append_file (target (js_file js)) (pending (js_file js)) fs of
              Inl _ \<Rightarrow> fs
            | Inr fs' \<Rightarrow> fs'))"

definition release_resources :: "download_channel \<Rightarrow> download_world \<Rightarrow> download_channel \<times> download_world" where
  "release_resources ch w =
     (case resources ch of
        None \<Rightarrow> (ch, w)
      | Some js \<Rightarrow> (ch\<lparr>resources := None\<rparr>, w\<lparr>files := drop_resources js (files w)\<rparr>))"

subsection \<open>Acquiring a channel\<close>

definition parent_dir :: "component list \<Rightarrow> component list option" where
  "parent_dir p = (if p = [] \<or> last p = RootDir then None else Some (butlast p))"

definition create_parent :: "component list \<Rightarrow> file_system \<Rightarrow> file_system panics" where
  "create_parent p fs =
     (case parent_dir p of
        None \<Rightarrow> None
      | Some d \<Rightarrow> if d = [] then Some fs else create_dir_unless_exists d fs)"

definition acquire_resources ::
  "mirror_config \<Rightarrow> download_order \<Rightarrow> bool \<Rightarrow> file_system \<Rightarrow>
    ((error_kind + job_resources) \<times> file_system) panics" where
  "acquire_resources cfg ord last_chance fs =
     (let p = file_key cfg ord in
      case filepath_mkdir ord fs of
        None \<Rightarrow> None
      | Some fs1 \<Rightarrow>
         (case create_parent p fs1 of
            None \<Rightarrow> None
          | Some fs2 \<Rightarrow>
             (case open_write False p fs2 of
                Inl e \<Rightarrow> Some (Inl e, fs2)
              | Inr fs3 \<Rightarrow>
                 (case (nodes fs3 p, file_name p) of
                    (Some n, Some name) \<Rightarrow>
                      Some (Inr \<lparr>js_file = \<lparr>pending = '''', target = p, size_written = node_len fs3 n,
                                   state_filename = name\<rparr>,
                                 js_header = \<lparr>received_header = '''', header_success = None\<rparr>,
                                 js_last_chance = last_chance\<rparr>, fs3)
                  | _ \<Rightarrow> None))))"

definition download_new_channel ::
  "mirror_config \<Rightarrow> download_order \<Rightarrow> bool \<Rightarrow> download_world \<Rightarrow>
    ((error_kind + download_channel) \<times> download_world) panics" where
  "download_new_channel cfg ord last_chance w =
     (case acquire_resources cfg ord last_chance (files w) of
        None \<Rightarrow> None
      | Some (Inl e, fs) \<Rightarrow> Some (Inl e, w\<lparr>files := fs\<rparr>)
      | Some (Inr js, fs) \<Rightarrow>
          Some (Inr \<lparr>handle = next_handle w, options = default_options, channel_order = ord,
                     resources = Some js\<rparr>,
                w\<lparr>files := fs, next_handle := Suc (next_handle w)\<rparr>))"

text \<open>Reusing a channel resets the options of its handle and replaces, hence drops, its old state.\<close>

definition download_reuse_channel ::
  "mirror_config \<Rightarrow> download_order \<Rightarrow> bool \<Rightarrow> download_channel \<Rightarrow> download_world \<Rightarrow>
    ((error_kind + download_channel) \<times> download_world) panics" where
  "download_reuse_channel cfg ord last_chance previous w =
     (case acquire_resources cfg ord last_chance (files w) of
        None \<Rightarrow> None
      | Some (Inl e, fs) \<Rightarrow> Some (Inl e, snd (release_resources previous (w\<lparr>files := fs\<rparr>)))
      | Some (Inr js, fs) \<Rightarrow>
          Some (Inr \<lparr>handle = handle previous, options = default_options, channel_order = ord,
                     resources = Some js\<rparr>,
                snd (release_resources previous (w\<lparr>files := fs\<rparr>))))"

subsection \<open>The callbacks of curl\<close>

definition content_length_of :: "(string \<times> string) list \<Rightarrow> u64 option" where
  "content_length_of headers =
     (case List.map_filter
             (\<lambda>(name, value). if to_lowercase name = ''content-length'' then parse_u64 value else None)
             headers of
        [] \<Rightarrow> None
      | cl # _ \<Rightarrow> Some cl)"

text \<open>The file of the order, whose directory \<open>filepath\<close> may create, gets its \<open>cfs\<close> file.\<close>

definition record_complete_size ::
  "mirror_config \<Rightarrow> download_order \<Rightarrow> u64 \<Rightarrow> download_world \<Rightarrow> download_world panics" where
  "record_complete_size cfg ord complete w =
     (case filepath_mkdir ord (files w) of
        None \<Rightarrow> None
      | Some fs \<Rightarrow>
          if download_is_cacheable ord
          then map_option (\<lambda>fs'. w\<lparr>files := fs'\<rparr>) (create_cfs_file (file_key cfg ord) complete fs)
          else Some (w\<lparr>files := fs\<rparr>))"

definition set_header :: "job_resources \<Rightarrow> string \<Rightarrow> header_outcome option \<Rightarrow> job_resources" where
  "set_header js received success =
     js\<lparr>js_header := \<lparr>received_header = received, header_success = success\<rparr>\<rparr>"

definition on_header ::
  "libs \<Rightarrow> mirror_config \<Rightarrow> string \<Rightarrow> download_channel \<Rightarrow> download_world \<Rightarrow>
    (callback \<times> download_channel \<times> download_world) panics" where
  "on_header lib cfg data ch w =
     (case resources ch of
        None \<Rightarrow> None
      | Some js \<Rightarrow>
         (let received = received_header (js_header js) @ data;
              before = header_success (js_header js);
              ord = channel_order ch;
              upd = (\<lambda>rcv success. ch\<lparr>resources := Some (set_header js rcv success)\<rparr>)
          in case parse_response lib received of
               ResponseInvalid \<Rightarrow> Some (Abort, upd received before, w)
             | ResponsePartial \<Rightarrow> Some (Proceed, upd received before, w)
             | ResponseComplete code headers \<Rightarrow>
                 if code = 200 \<or> code = 206 then
                   (case content_length_of headers of
                      None \<Rightarrow> Some (Abort, upd received before, w)
                    | Some content_length \<Rightarrow>
                        (let client_content_length = size_written (js_file js) + content_length
                         in map_option
                              (\<lambda>w'. (Proceed, upd received (Some (HeaderOk content_length)),
                                     send ord (JobSize client_content_length) w'))
                              (record_complete_size cfg ord client_content_length w)))
                 else if code = 416 then
                   Some (Proceed, upd received (Some HeaderUnavailable), send ord Completed w)
                 else if 300 \<le> code \<and> code < 400 then Some (Proceed, upd '''' before, w)
                 else if \<not> js_last_chance js then Some (Proceed, upd received (Some HeaderUnavailable), w)
                 else Some (Proceed, upd received (Some HeaderUnavailable), send ord ProgressUnavailable w)))"

definition on_write ::
  "string \<Rightarrow> download_channel \<Rightarrow> download_world \<Rightarrow> (callback \<times> download_channel \<times> download_world) panics" where
  "on_write data ch w =
     (case resources ch of
        None \<Rightarrow> None
      | Some js \<Rightarrow>
         (case header_success (js_header js) of
            None \<Rightarrow> None
          | Some HeaderUnavailable \<Rightarrow> Some (Proceed, ch, w)
          | Some (HeaderOk _) \<Rightarrow>
             (let f = js_file js in
              case buffered_write (target f) (pending f) data (files w) of
                (ok, buf, fs) \<Rightarrow>
                  (let f' = f\<lparr>pending := buf, size_written := size_written f + len_u64 data\<rparr>;
                       ch' = ch\<lparr>resources := Some (js\<lparr>js_file := f'\<rparr>)\<rparr>;
                       w' = w\<lparr>files := fs\<rparr>
                   in if ok
                      then Some (Proceed, ch',
                             send (channel_order ch)
                               (Progress (case nodes fs (target f) of
                                            None \<Rightarrow> 0 | Some n \<Rightarrow> node_len fs n)) w')
                      else Some (Pause, ch', w')))))"

fun on_event ::
  "libs \<Rightarrow> mirror_config \<Rightarrow> transfer_event \<Rightarrow> download_channel \<Rightarrow> download_world \<Rightarrow>
    (callback \<times> download_channel \<times> download_world) panics" where
  "on_event lib cfg (HeaderData d) ch w = on_header lib cfg d ch w"
| "on_event lib cfg (BodyData d) ch w = on_write d ch w"

text \<open>The events of a transfer, up to the first callback that stops or pauses it.\<close>

fun run_events ::
  "libs \<Rightarrow> mirror_config \<Rightarrow> transfer_event list \<Rightarrow> download_channel \<Rightarrow> download_world \<Rightarrow>
    (callback \<times> download_channel \<times> download_world) panics" where
  "run_events lib cfg [] ch w = Some (Proceed, ch, w)"
| "run_events lib cfg (e # es) ch w =
     (case on_event lib cfg e ch w of
        None \<Rightarrow> None
      | Some (Proceed, ch', w') \<Rightarrow> run_events lib cfg es ch' w'
      | Some (stop, ch', w') \<Rightarrow> Some (stop, ch', w'))"

text \<open>What every callback keeps, the transfer keeps.\<close>

lemma run_events_keeps:
  assumes "run_events lib cfg es ch w = Some (b, ch', w')" and "I ch w"
    and "\<And>e ch w b ch' w'. on_event lib cfg e ch w = Some (b, ch', w') \<Longrightarrow> I ch w \<Longrightarrow> I ch' w'"
  shows "I ch' w'"
  using assms(1,2)
proof (induction es arbitrary: ch w)
  case (Cons e es)
  then show ?case by (auto split: option.splits callback.splits dest: assms(3))
qed simp

subsection \<open>One job\<close>

definition progress_indicator :: "download_channel \<Rightarrow> u64 option panics" where
  "progress_indicator ch =
     (case resources ch of
        None \<Rightarrow> None
      | Some js \<Rightarrow>
          (let n = size_written (js_file js) in Some (if 0 < n then Some n else None)))"

definition MAX_REDIRECTIONS :: nat where
  "MAX_REDIRECTIONS = 40"

definition DEFAULT_CONNECT_TIMEOUT :: duration where
  "DEFAULT_CONNECT_TIMEOUT = from_millis 3000"

text \<open>The options \<open>serve_from_provider\<close> sets, given the options of the handle before.\<close>

definition job_options ::
  "libs \<Rightarrow> mirror_config \<Rightarrow> string \<Rightarrow> u64 option \<Rightarrow> curl_options \<Rightarrow> curl_options" where
  "job_options lib cfg u start opts =
     opts\<lparr>opt_url := Some u, opt_http11 := True,
       opt_connect_timeout := Some (case connect_timeout cfg of
           None \<Rightarrow> DEFAULT_CONNECT_TIMEOUT | Some t \<Rightarrow> from_millis (unat t)),
       opt_low_speed_limit := low_speed_value (effective_low_speed_limit (captures lib) cfg),
       opt_low_speed_time := from_secs (unat (low_speed_value (effective_low_speed_time_secs cfg))),
       opt_max_recv_speed := (case max_speed_limit cfg of
           None \<Rightarrow> opt_max_recv_speed opts | Some speed \<Rightarrow> Some speed),
       opt_follow_location := True, opt_max_redirections := Some MAX_REDIRECTIONS,
       opt_resume_from := (case start of None \<Rightarrow> opt_resume_from opts | Some n \<Rightarrow> n)\<rparr>"

text \<open>How the job ends, from how the transfer ended: the \<open>unwrap\<close> after a success can panic.\<close>

definition job_outcome_of ::
  "download_provider \<Rightarrow> curl_result \<Rightarrow> download_channel \<Rightarrow>
    (download_provider, download_channel, download_job_error) job_result panics" where
  "job_outcome_of p res ch =
     (case res of
        CurlOk response_code \<Rightarrow>
          if 200 \<le> response_code \<and> response_code < 300 then
            (case progress_indicator ch of
               Some (Some n) \<Rightarrow>
                 Some (Complete \<lparr>completed_channel = ch, completed_provider = p, completed_size = n\<rparr>)
             | _ \<Rightarrow> None)
          else if response_code = 404 then Some (Unavailable ch)
          else Some (JobError \<lparr>terminated_channel = ch, job_error = HttpFailureStatus response_code\<rparr>)
      | CurlErr e \<Rightarrow>
          (case progress_indicator ch of
             None \<Rightarrow> None
           | Some (Some n) \<Rightarrow> Some (Partial \<lparr>partial_channel = ch, continue_at = n\<rparr>)
           | Some None \<Rightarrow> Some (JobError \<lparr>terminated_channel = ch, job_error = CurlError e\<rparr>)))"

definition transfer_result :: "transfer \<Rightarrow> callback \<Rightarrow> curl_result option" where
  "transfer_result t said =
     (case said of
        Proceed \<Rightarrow> Some (outcome t)
      | Abort \<Rightarrow> Some (CurlErr (stopped_code t))
      | Pause \<Rightarrow> map_option CurlErr (paused_code t))"

text \<open>None is a panic, or a transfer that is paused and never ends.\<close>

definition download_serve ::
  "libs \<Rightarrow> mirror_config \<Rightarrow> download_provider \<Rightarrow> download_order \<Rightarrow> download_channel \<Rightarrow> download_world \<Rightarrow>
    ((download_provider, download_channel, download_job_error) job_result \<times> download_world) panics" where
  "download_serve lib cfg p ord ch w =
     (case progress_indicator ch of
        None \<Rightarrow> None
      | Some start \<Rightarrow>
         (let u = uri_from_components (uri p) (inner (requested_path ord));
              opts = job_options lib cfg u start (options ch);
              t = perform lib opts
          in case run_events lib cfg (events t) (ch\<lparr>options := opts\<rparr>) w of
               None \<Rightarrow> None
             | Some (said, ch', w') \<Rightarrow>
                 (case transfer_result t said of
                    None \<Rightarrow> None
                  | Some res \<Rightarrow> map_option (\<lambda>r. (r, w')) (job_outcome_of p res ch'))))"

definition download_handle_error ::
  "error_kind \<Rightarrow> (download_provider, download_channel, download_job_error) job_result" where
  "download_handle_error e = (if e = NotFound then ClientError else UnexpectedInternalError)"

subsection \<open>Scores\<close>

text \<open>The two scores derive \<open>Ord\<close>: failures, for cacheable orders usages, then the latency.\<close>

definition cacheable_score_cmp ::
  "mirror_results dynamic_provider_metrics \<Rightarrow> mirror_results dynamic_provider_metrics \<Rightarrow> ordering panics" where
  "cacheable_score_cmp x y =
     then_cmp (cmp_lin (dyn_num_failures x) (dyn_num_failures y))
      (then_cmp (cmp_lin (dyn_num_current_usages x) (dyn_num_current_usages y))
        (mirror_results_cmp (dyn_initial_score x) (dyn_initial_score y)))"

definition uncacheable_score_cmp ::
  "mirror_results dynamic_provider_metrics \<Rightarrow> mirror_results dynamic_provider_metrics \<Rightarrow> ordering panics" where
  "uncacheable_score_cmp x y =
     then_cmp (cmp_lin (dyn_num_failures x) (dyn_num_failures y))
      (mirror_results_cmp (dyn_initial_score x) (dyn_initial_score y))"

definition download_cache_state ::
  "mirror_config \<Rightarrow> download_order \<Rightarrow> download_world \<Rightarrow> (cached_item option \<times> download_world) panics" where
  "download_cache_state cfg ord w =
     (case filepath_mkdir ord (files w) of
        None \<Rightarrow> None
      | Some fs \<Rightarrow>
          map_option (\<lambda>(item, fs'). (item, w\<lparr>files := fs'\<rparr>))
            (persist_and_get_cache_state (file_key cfg ord) fs))"

definition download_trait ::
  "libs \<Rightarrow> mirror_config \<Rightarrow>
    (download_provider, download_order, mirror_results, download_channel, error_kind,
     download_job_error, download_world) job_trait" where
  "download_trait lib cfg = \<lparr>
     identifier_of = uri,
     initial_score = mirror_results,
     score_cmp = mirror_results_cmp,
     cacheable_cmp = cacheable_score_cmp,
     uncacheable_cmp = uncacheable_score_cmp,
     is_cacheable = download_is_cacheable,
     retryable = download_retryable,
     cache_state = download_cache_state cfg,
     new_channel = download_new_channel cfg,
     reuse_channel = download_reuse_channel cfg,
     serve_from_provider = download_serve lib cfg,
     handle_error = download_handle_error,
     send_progress = send,
     release_job_resources = release_resources\<rparr>"

subsection \<open>The laws of the scores\<close>

lemma rust_ord_initial_score:
  "rust_ord (\<lambda>x y. mirror_results_cmp (dyn_initial_score x) (dyn_initial_score y))
    (\<lambda>d. latency_ok (dyn_initial_score d))"
  by (rule rust_ord_keyI [OF by_latency.rust_ord_axioms, where f = dyn_initial_score]) simp_all

interpretation usages_then_latency: rust_ord_lex
  "\<lambda>x y. cmp_lin (dyn_num_current_usages x) (dyn_num_current_usages y)"
  "\<lambda>x y. mirror_results_cmp (dyn_initial_score x) (dyn_initial_score y)"
  "\<lambda>d. latency_ok (dyn_initial_score d)"
  by (intro rust_ord_lex.intro rust_ord_lin_key rust_ord_initial_score)

interpretation cacheable_score: rust_ord_lex
  "\<lambda>x y. cmp_lin (dyn_num_failures x) (dyn_num_failures y)"
  "\<lambda>x y. then_cmp (cmp_lin (dyn_num_current_usages x) (dyn_num_current_usages y))
      (mirror_results_cmp (dyn_initial_score x) (dyn_initial_score y))"
  "\<lambda>d. latency_ok (dyn_initial_score d)"
  by (intro rust_ord_lex.intro rust_ord_lin_key usages_then_latency.lex.rust_ord_axioms)

interpretation uncacheable_score: rust_ord_lex
  "\<lambda>x y. cmp_lin (dyn_num_failures x) (dyn_num_failures y)"
  "\<lambda>x y. mirror_results_cmp (dyn_initial_score x) (dyn_initial_score y)"
  "\<lambda>d. latency_ok (dyn_initial_score d)"
  by (intro rust_ord_lex.intro rust_ord_lin_key rust_ord_initial_score)

lemma download_trait_simps [simp]:
  "identifier_of (download_trait lib cfg) = uri"
  "initial_score (download_trait lib cfg) = mirror_results"
  "score_cmp (download_trait lib cfg) = mirror_results_cmp"
  "cacheable_cmp (download_trait lib cfg) = cacheable_score_cmp"
  "uncacheable_cmp (download_trait lib cfg) = uncacheable_score_cmp"
  "is_cacheable (download_trait lib cfg) = download_is_cacheable"
  "retryable (download_trait lib cfg) = download_retryable"
  "cache_state (download_trait lib cfg) = download_cache_state cfg"
  "new_channel (download_trait lib cfg) = download_new_channel cfg"
  "reuse_channel (download_trait lib cfg) = download_reuse_channel cfg"
  "serve_from_provider (download_trait lib cfg) = download_serve lib cfg"
  "handle_error (download_trait lib cfg) = download_handle_error"
  "send_progress (download_trait lib cfg) = send"
  "release_job_resources (download_trait lib cfg) = release_resources"
  by (simp_all add: download_trait_def)

interpretation download: job_provider "download_trait lib cfg" latency_ok for lib cfg
proof (rule job_provider.intro)
  show "rust_ord (score_cmp (download_trait lib cfg)) latency_ok"
    by (simp add: by_latency.rust_ord_axioms)
  show "rust_ord (cacheable_cmp (download_trait lib cfg)) (\<lambda>d. latency_ok (dyn_initial_score d))"
    using cacheable_score.lex.rust_ord_axioms by (simp add: cacheable_score_cmp_def [abs_def])
  show "rust_ord (uncacheable_cmp (download_trait lib cfg)) (\<lambda>d. latency_ok (dyn_initial_score d))"
    using uncacheable_score.lex.rust_ord_axioms by (simp add: uncacheable_score_cmp_def [abs_def])
qed

subsection \<open>Buffered writing\<close>

definition disk :: "file_system \<Rightarrow> component list \<Rightarrow> string" where
  "disk fs p = (case nodes fs p of Some (FileNode s) \<Rightarrow> s | _ \<Rightarrow> '''')"

definition is_file :: "file_system \<Rightarrow> component list \<Rightarrow> bool" where
  "is_file fs p \<longleftrightarrow> nodes fs p = Some (FileNode (disk fs p))"

lemma is_fileI: "nodes fs p = Some (FileNode s) \<Longrightarrow> is_file fs p \<and> disk fs p = s"
  by (simp add: is_file_def disk_def)

lemma append_file_ok:
  assumes "is_file fs p" and "\<not> device_full fs"
  shows "append_file p s fs = Inr (write_node p (disk fs p @ s) fs)"
  using assms by (simp add: append_file_def is_file_def)

lemma write_node_disk [simp]: "disk (write_node p s fs) p = s" "is_file (write_node p s fs) p"
  by (simp_all add: disk_def is_file_def)

lemma is_file_not_dir: "is_file fs p \<Longrightarrow> nodes fs p \<noteq> Some DirNode"
  by (simp add: is_file_def)

text \<open>File and buffer together grow by exactly the data; nothing but the file changes.\<close>

lemma buffered_write_ok:
  assumes "is_file fs p" and "\<not> device_full fs" and "buffered_write p buf data fs = (ok, buf', fs')"
  shows "ok" and "is_file fs' p" and "disk fs' p @ buf' = disk fs p @ buf @ data"
    and "only_files {p} fs fs'"
proof -
  let ?fs1 = "write_node p (disk fs p @ buf) fs"
  have one: "append_file p s fs = Inr (write_node p (disk fs p @ s) fs)" for s
    using assms(1,2) by (rule append_file_ok)
  have two: "append_file p s ?fs1 = Inr (write_node p (disk fs p @ buf @ s) ?fs1)" for s
    using assms(2) append_file_ok [of ?fs1 p s] by simp
  have only: "only_files {p} fs (write_node p s fs)" for s
    using is_file_not_dir [OF assms(1)] by (rule only_files_write)
  have only2: "only_files {p} fs (write_node p t ?fs1)" for t
    by (simp add: only_files_def is_file_not_dir [OF assms(1)])
  have empty: "BUF_CAPACITY \<le> BUF_CAPACITY - length b \<Longrightarrow> b = ''''" for b :: string
    by (cases b) (simp_all add: BUF_CAPACITY_def)
  show "ok" "is_file fs' p" "disk fs' p @ buf' = disk fs p @ buf @ data" "only_files {p} fs fs'"
    using assms(1,3) one two only only2
    by (auto simp: buffered_write_def dest!: empty split: if_splits)
qed

lemma drop_resources_flushes:
  assumes "is_file fs (target (js_file js))" and "\<not> device_full fs"
  shows "is_file (drop_resources js fs) (target (js_file js))"
    and "disk (drop_resources js fs) (target (js_file js)) =
      disk fs (target (js_file js)) @ pending (js_file js)"
    and "only_files {target (js_file js)} fs (drop_resources js fs)"
  using append_file_ok [OF assms, of "pending (js_file js)"] assms
    only_files_append [of "target (js_file js)" "pending (js_file js)" fs]
  by (auto simp: drop_resources_def)

subsection \<open>The body of a response\<close>

text \<open>
  A channel that is receiving the body of its order: the header was accepted, the file exists; file
  and buffer together are \<open>content\<close>, whose length is the size written.
\<close>

definition receiving :: "download_channel \<Rightarrow> download_world \<Rightarrow> component list \<Rightarrow> string \<Rightarrow> bool" where
  "receiving ch w p content \<longleftrightarrow>
     (\<exists>js n. resources ch = Some js \<and> header_success (js_header js) = Some (HeaderOk n) \<and>
        target (js_file js) = p \<and> is_file (files w) p \<and> \<not> device_full (files w) \<and>
        disk (files w) p @ pending (js_file js) = content \<and>
        size_written (js_file js) = len_u64 content)"

lemma send_simps [simp]:
  "files (send ord m w) = files w" "next_handle (send ord m w) = next_handle w"
  "progress (send ord m w) = (progress w)(ord := progress w ord @ [m])"
  by (simp_all add: send_def)

lemma len_u64_append: "len_u64 (a @ b) = len_u64 a + len_u64 b"
  by (simp add: len_u64_def)

lemma on_write_receiving:
  assumes "receiving ch w p content"
  obtains ch' w' where "on_write data ch w = Some (Proceed, ch', w')" and "receiving ch' w' p (content @ data)"
    and "only_files {p} (files w) (files w')"
proof -
  from assms obtain js n where js: "resources ch = Some js" "header_success (js_header js) = Some (HeaderOk n)"
    "target (js_file js) = p" and isf: "is_file (files w) p" "\<not> device_full (files w)"
    and content: "disk (files w) p @ pending (js_file js) = content" "size_written (js_file js) = len_u64 content"
    unfolding receiving_def by blast
  obtain ok buf fs where bw: "buffered_write p (pending (js_file js)) data (files w) = (ok, buf, fs)"
    by (metis prod_cases3)
  note bw_ok = buffered_write_ok [OF isf bw]
  let ?ch' = "ch\<lparr>resources := Some (js\<lparr>js_file := (js_file js)\<lparr>pending := buf,
      size_written := size_written (js_file js) + len_u64 data\<rparr>\<rparr>)\<rparr>"
  let ?w' = "send (channel_order ch) (Progress (case nodes fs p of None \<Rightarrow> 0 | Some n \<Rightarrow> node_len fs n))
      (w\<lparr>files := fs\<rparr>)"
  have "on_write data ch w = Some (Proceed, ?ch', ?w')"
    using js bw bw_ok(1) by (simp add: on_write_def Let_def)
  moreover have "receiving ?ch' ?w' p (content @ data)"
    using js content bw_ok isf only_filesD(6) [OF bw_ok(4)]
    by (simp add: receiving_def len_u64_append flip: append_assoc)
  moreover have "only_files {p} (files w) (files ?w')" using bw_ok(4) by simp
  ultimately show ?thesis by (rule that)
qed

lemma run_body:
  assumes "receiving ch w p content"
  shows "\<exists>ch' w'. run_events lib cfg (map BodyData chunks) ch w = Some (Proceed, ch', w') \<and>
    receiving ch' w' p (content @ concat chunks) \<and> only_files {p} (files w) (files w')"
  using assms
proof (induction chunks arbitrary: ch w content)
  case Nil
  then show ?case by simp
next
  case (Cons d chunks)
  from on_write_receiving [OF Cons.prems, of d] obtain ch1 w1 where
    one: "on_write d ch w = Some (Proceed, ch1, w1)" "receiving ch1 w1 p (content @ d)"
      "only_files {p} (files w) (files w1)" .
  from Cons.IH [OF one(2)] obtain ch' w' where
    rest: "run_events lib cfg (map BodyData chunks) ch1 w1 = Some (Proceed, ch', w')"
      "receiving ch' w' p ((content @ d) @ concat chunks)" "only_files {p} (files w1) (files w')" by blast
  have "only_files {p} (files w) (files w')" using only_files_trans [OF one(3) rest(3)] by simp
  with one(1) rest(1,2) show ?case by simp
qed

lemma release_receiving:
  assumes "receiving ch w p content"
  shows "nodes (files (snd (release_resources ch w))) p = Some (FileNode content)"
    and "only_files {p} (files w) (files (snd (release_resources ch w)))"
proof -
  from assms obtain js where js: "resources ch = Some js" "target (js_file js) = p"
    and isf: "is_file (files w) p" "\<not> device_full (files w)"
    and content: "disk (files w) p @ pending (js_file js) = content"
    unfolding receiving_def by blast
  note drop = drop_resources_flushes [of "files w" js, unfolded js(2), OF isf]
  show "nodes (files (snd (release_resources ch w))) p = Some (FileNode content)"
    using drop(1,2) js content by (simp add: release_resources_def is_file_def)
  show "only_files {p} (files w) (files (snd (release_resources ch w)))"
    using drop(3) js by (simp add: release_resources_def)
qed

subsection \<open>Acquiring\<close>

text \<open>A channel just acquired for an order, by either way: no header yet, an empty buffer, and the size
  of the file as it is on disk.\<close>

definition acquired :: "mirror_config \<Rightarrow> download_order \<Rightarrow> bool \<Rightarrow> download_channel \<Rightarrow> file_system \<Rightarrow> bool" where
  "acquired cfg ord last_chance ch fs \<longleftrightarrow>
     channel_order ch = ord \<and> is_file fs (file_key cfg ord) \<and>
     (\<exists>name. resources ch = Some
        \<lparr>js_file = \<lparr>pending = '''', target = file_key cfg ord,
           size_written = len_u64 (disk fs (file_key cfg ord)), state_filename = name\<rparr>,
         js_header = \<lparr>received_header = '''', header_success = None\<rparr>, js_last_chance = last_chance\<rparr>)"

lemma open_write_append:
  assumes "open_write False p fs = Inr fs'"
  shows "is_file fs' p" and "walk_error fs' p = None" and "p \<notin> unwritable fs'"
    and "disk fs' p = disk fs p" and "device_full fs' = device_full fs"
  using assms
  by (auto simp: open_write_def disk_def split: option.splits node.splits if_splits)

lemma acquire_SomeE:
  assumes "acquire_resources cfg ord last_chance fs = Some (Inr js, fs')"
  obtains name fs2 where "js = \<lparr>js_file = \<lparr>pending = '''', target = file_key cfg ord,
         size_written = len_u64 (disk fs' (file_key cfg ord)), state_filename = name\<rparr>,
       js_header = \<lparr>received_header = '''', header_success = None\<rparr>, js_last_chance = last_chance\<rparr>"
    and "is_file fs' (file_key cfg ord)" and "walk_error fs' (file_key cfg ord) = None"
    and "file_name (file_key cfg ord) = Some name"
proof -
  from assms obtain fs2 n name where
    op: "open_write False (file_key cfg ord) fs2 = Inr fs'"
    and n: "nodes fs' (file_key cfg ord) = Some n" and name: "file_name (file_key cfg ord) = Some name"
    and js: "js = \<lparr>js_file = \<lparr>pending = '''', target = file_key cfg ord, size_written = node_len fs' n,
         state_filename = name\<rparr>,
       js_header = \<lparr>received_header = '''', header_success = None\<rparr>, js_last_chance = last_chance\<rparr>"
    by (auto simp: acquire_resources_def Let_def split: option.splits sum.splits)
  note ow = open_write_append [OF op]
  have "node_len fs' n = len_u64 (disk fs' (file_key cfg ord))"
    using ow(1) n by (simp add: is_file_def node_len_def)
  with that js ow(1,2) name show ?thesis by simp
qed

lemma new_channel_acquired:
  assumes "download_new_channel cfg ord last_chance w = Some (Inr ch, w')"
  shows "acquired cfg ord last_chance ch (files w')" and "progress w' = progress w"
    and "options ch = default_options"
  using assms
  by (auto simp: download_new_channel_def acquired_def split: option.splits sum.splits elim!: acquire_SomeE)

lemma reuse_channel_acquired:
  assumes "download_reuse_channel cfg ord last_chance prev w = Some (Inr ch, w')" and "resources prev = None"
  shows "acquired cfg ord last_chance ch (files w')" and "progress w' = progress w"
    and "options ch = default_options" and "handle ch = handle prev"
  using assms
  by (auto simp: download_reuse_channel_def release_resources_def acquired_def
      split: option.splits sum.splits elim!: acquire_SomeE)

lemma acquired_options [simp]: "acquired cfg ord lc (ch\<lparr>options := opts\<rparr>) fs = acquired cfg ord lc ch fs"
  by (simp add: acquired_def)

lemma acquired_progress:
  "acquired cfg ord lc ch fs \<Longrightarrow> progress_indicator ch =
    Some (if 0 < len_u64 (disk fs (file_key cfg ord)) then Some (len_u64 (disk fs (file_key cfg ord))) else None)"
  by (auto simp: acquired_def progress_indicator_def Let_def)

subsection \<open>The size is announced before the first progress\<close>

definition not_progress_first :: "flexo_progress list \<Rightarrow> bool" where
  "not_progress_first ms \<longleftrightarrow> (case ms of Progress _ # _ \<Rightarrow> False | _ \<Rightarrow> True)"

definition announced :: "download_order \<Rightarrow> download_channel \<Rightarrow> download_world \<Rightarrow> bool" where
  "announced ord ch w \<longleftrightarrow> channel_order ch = ord \<and> not_progress_first (progress w ord) \<and>
     (\<forall>js n. resources ch = Some js \<longrightarrow> header_success (js_header js) = Some (HeaderOk n) \<longrightarrow>
        progress w ord \<noteq> [])"

lemma not_progress_first_simps [simp]:
  "not_progress_first []" "ms \<noteq> [] \<Longrightarrow> not_progress_first (ms @ [m]) = not_progress_first ms"
  "not_progress_first [m] = (\<forall>n. m \<noteq> Progress n)"
  by (cases ms; auto simp: not_progress_first_def split: flexo_progress.splits)
    (auto simp: not_progress_first_def split: flexo_progress.splits list.splits)

lemma not_progress_first_snoc:
  "not_progress_first ms \<Longrightarrow> (\<And>n. m \<noteq> Progress n) \<Longrightarrow> not_progress_first (ms @ [m])"
  by (cases "ms = []") simp_all

lemma record_complete_size_progress:
  "record_complete_size cfg ord n w = Some w' \<Longrightarrow> progress w' = progress w"
  by (auto simp: record_complete_size_def split: option.splits if_splits)

lemma on_header_announced:
  "on_header lib cfg d ch w = Some (b, ch', w') \<Longrightarrow> announced ord ch w \<Longrightarrow> announced ord ch' w'"
  by (auto simp: on_header_def Let_def announced_def set_header_def
      split: option.splits response_parse.splits if_splits
      dest!: record_complete_size_progress intro: not_progress_first_snoc)

lemma on_write_announced:
  "on_write d ch w = Some (b, ch', w') \<Longrightarrow> announced ord ch w \<Longrightarrow> announced ord ch' w'"
  by (auto simp: on_write_def Let_def announced_def
      split: option.splits header_outcome.splits prod.splits if_splits)

lemma run_events_announced:
  "run_events lib cfg es ch w = Some (b, ch', w') \<Longrightarrow> announced ord ch w \<Longrightarrow> announced ord ch' w'"
proof (erule run_events_keeps [where I = "announced ord"])
  fix e ch w b ch' w'
  show "on_event lib cfg e ch w = Some (b, ch', w') \<Longrightarrow> announced ord ch w \<Longrightarrow> announced ord ch' w'"
    by (cases e) (auto intro: on_header_announced on_write_announced)
qed

lemma release_progress [simp]: "progress (snd (release_resources ch w)) = progress w"
  by (simp add: release_resources_def split: option.splits)

lemma acquired_announced:
  "acquired cfg ord lc ch (files w) \<Longrightarrow> not_progress_first (progress w ord) \<Longrightarrow> announced ord ch w"
  by (auto simp: acquired_def announced_def)

lemma download_serve_announced:
  assumes "download_serve lib cfg p ord ch w = Some (r, w')" and "announced ord ch w"
  shows "not_progress_first (progress w' ord)"
proof -
  from assms(1) obtain opts b ch' where
    "run_events lib cfg (events (perform lib opts)) (ch\<lparr>options := opts\<rparr>) w = Some (b, ch', w')"
    by (auto simp: download_serve_def Let_def split: option.splits)
  moreover have "announced ord (ch\<lparr>options := opts\<rparr>) w" using assms(2) by (simp add: announced_def)
  ultimately have "announced ord ch' w'" by (rule run_events_announced)
  then show ?thesis by (simp add: announced_def)
qed

lemma reuse_channel_announced:
  assumes "download_reuse_channel cfg ord lc prev w = Some (Inr ch, w')"
    and "not_progress_first (progress w ord)"
  shows "announced ord ch w'"
  using assms
  by (auto simp: download_reuse_channel_def announced_def split: option.splits sum.splits elim!: acquire_SomeE)

lemma channel_failure_progress:
  "download_new_channel cfg ord lc w = Some (Inl e, w') \<Longrightarrow> progress w' = progress w"
  "download_reuse_channel cfg ord lc prev w = Some (Inl e, w') \<Longrightarrow> progress w' = progress w"
  by (auto simp: download_new_channel_def download_reuse_channel_def split: option.splits sum.splits)

lemma download_job_announced:
  assumes "run_job (download_trait lib cfg) p ord lc s = Some (r, s')"
    and "not_progress_first (progress (world s) ord)"
  shows "not_progress_first (progress (world s') ord)"
proof -
  from assms(1) consider
      (ok) ch est s1 where "get_channel (download_trait lib cfg) p ord lc s = Some (Inr (ch, est), s1)"
        "download_serve lib cfg p ord ch (world s1) = Some (r, world s')"
    | (failed) e s1 where "get_channel (download_trait lib cfg) p ord lc s = Some (Inl e, s1)"
        "world s' = send ord ProgressOrderError (world s1)"
    by (auto simp: run_job_def Let_def send_test_message_def split: option.splits sum.splits)
  then show ?thesis
  proof cases
    case ok
    have "announced ord ch (world s1)"
    proof (cases "channels s p")
      case None
      with ok(1) have "download_new_channel cfg ord lc (world s) = Some (Inr ch, world s1)"
        by (auto simp: get_channel_def elim!: map_sum_InrE)
      from new_channel_acquired(1,2) [OF this] show ?thesis
        using assms(2) by (intro acquired_announced) auto
    next
      case (Some prev)
      with ok(1) have "download_reuse_channel cfg ord lc prev (world s) = Some (Inr ch, world s1)"
        by (auto simp: get_channel_def elim!: map_sum_InrE)
      from reuse_channel_announced [OF this assms(2)] show ?thesis .
    qed
    with ok(2) show ?thesis by (rule download_serve_announced)
  next
    case failed
    have "progress (world s1) = progress (world s)"
      using failed(1)
      by (auto simp: get_channel_def elim!: map_sum_InlE split: option.splits dest!: channel_failure_progress)
    with failed(2) assms(2) show ?thesis by (simp add: not_progress_first_snoc)
  qed
qed

interpretation announcing: world_invariant "download_trait lib cfg" ord "\<lambda>w. not_progress_first (progress w ord)"
  for lib cfg ord
  by unfold_locales (auto intro: download_job_announced)

end
