(* ===== verification/Flexo_Context.thy ===== *)
theory Flexo_Context
  imports Download Thread_Body
begin

section \<open>The job context of the program: mirrors, downloads and their channels\<close>

text \<open>
  \<open>Job_Context\<close> at the traits that \<open>mirror_flexo.rs\<close> implements: a channel keeps its curl
  handle for life, and in every reachable state an idle channel holds no file, because a thread
  releases a channel's resources before it puts the channel back.
\<close>

lemma release_resources_simps [simp]:
  "resources (fst (release_resources ch w)) = None"
  "handle (fst (release_resources ch w)) = handle ch"
  "options (fst (release_resources ch w)) = options ch"
  by (simp_all add: release_resources_def split: option.splits)

lemma reuse_keeps_handle:
  "download_reuse_channel cfg ord lc prev w = Some (Inr ch, w') \<Longrightarrow> handle ch = handle prev"
  by (auto simp: download_reuse_channel_def split: option.splits sum.splits)

lemma download_keeps_handle: "keeps_handle (download_trait lib cfg) handle"
  by (auto simp: keeps_handle_def dest: reuse_keeps_handle)

subsection \<open>Idle channels hold no file\<close>

definition idle_released ::
  "(download_provider, download_order, download_channel, download_job_error, download_world) job_context \<Rightarrow> bool" where
  "idle_released c \<longleftrightarrow> (\<forall>ch \<in> ran (channels (ctx_shared c)). resources ch = None)"

lemma idle_released_mono:
  assumes "idle_released c" and "ran (channels (ctx_shared c')) \<subseteq> ran (channels (ctx_shared c))"
  shows "idle_released c'"
  using assms unfolding idle_released_def by blast

lemma get_channel_idle:
  "get_channel tr p ord lc s = Some (r, s') \<Longrightarrow> ran (channels s') \<subseteq> ran (channels s)"
  by (auto simp: get_channel_def ran_def split: option.splits if_splits)

lemma handle_result_idle:
  "ran (channels (snd (handle_result (download_trait lib cfg) result s))) \<subseteq>
    ran (channels s) \<union> {ch. resources ch = None}"
  by (cases "(download_trait lib cfg, result, s)" rule: handle_result.cases)
    (auto simp: release_channel_def ran_def split: prod.splits if_splits
      dest: arg_cong [where f = "\<lambda>r. resources (fst r)"])

lemma idle_released_step:
  "ctx_step (download_trait lib cfg) token c c' \<Longrightarrow> idle_released c \<Longrightarrow> idle_released c'"
proof (induction rule: ctx_step.induct)
  case (sched ord cp resume c outcome c')
  show ?case using sched.hyps
    by (cases rule: try_schedule_cases) (use sched.prems in \<open>auto simp: idle_released_def\<close>)
next
  case (connect c t ord p lc ch est s')
  then show ?case by (intro idle_released_mono [OF connect.prems]) (simp add: get_channel_idle)
next
  case (connect_fail c t ord p lc e s')
  then show ?case by (intro idle_released_mono [OF connect_fail.prems]) (simp add: get_channel_idle)
next
  case (clean c t ord result)
  then show ?case
    using handle_result_idle [of lib cfg result "ctx_shared c"]
    by (auto simp: idle_released_def complete_thread_frame)
qed (auto simp: idle_released_def finish_order_def reset_provider_metrics_def release_guard_def)

lemma idle_released_reachable:
  "ctx_reachable (download_trait lib cfg) token c \<Longrightarrow> idle_released c"
proof (induction rule: ctx_reachable.induct)
  case (init ps w c)
  then show ?case by (auto simp: job_context_new_def idle_released_def split: option.splits)
next
  case (step c c')
  then show ?case by (blast intro: idle_released_step)
qed

subsection \<open>What a channel is when a thread gets it\<close>

lemma get_channel_acquired:
  assumes "get_channel (download_trait lib cfg) p ord lc s = Some (Inr (ch, est), s')"
    and "\<forall>ch \<in> ran (channels s). resources ch = None"
  shows "acquired cfg ord lc ch (files (world s'))" and "options ch = default_options"
proof -
  have "acquired cfg ord lc ch (files (world s')) \<and> options ch = default_options"
  proof (cases "channels s p")
    case None
    with assms(1) have "download_new_channel cfg ord lc (world s) = Some (Inr ch, world s')"
      by (auto simp: get_channel_def elim!: map_sum_InrE)
    then show ?thesis using new_channel_acquired by blast
  next
    case (Some prev)
    with assms(1) have new: "download_reuse_channel cfg ord lc prev (world s) = Some (Inr ch, world s')"
      by (auto simp: get_channel_def elim!: map_sum_InrE)
    have "resources prev = None" using assms(2) Some by (auto intro: ranI)
    then show ?thesis using reuse_channel_acquired(1,3) [OF new] by blast
  qed
  then show "acquired cfg ord lc ch (files (world s'))" "options ch = default_options" by blast+
qed

text \<open>The callbacks leave the handle, the order and the numbering of the handles alone.\<close>

lemma on_event_frame:
  assumes "on_event lib cfg e ch w = Some (b, ch', w')"
  shows "handle ch' = handle ch \<and> channel_order ch' = channel_order ch \<and> next_handle w' = next_handle w \<and>
    (resources ch \<noteq> None \<longrightarrow> resources ch' \<noteq> None)"
  using assms
  by (cases e) (auto simp: on_header_def on_write_def record_complete_size_def Let_def
      split: option.splits response_parse.splits header_outcome.splits prod.splits if_splits)

lemma run_events_frame:
  assumes "run_events lib cfg es ch w = Some (b, ch', w')"
  shows "handle ch' = handle ch \<and> channel_order ch' = channel_order ch \<and> next_handle w' = next_handle w \<and>
    (resources ch \<noteq> None \<longrightarrow> resources ch' \<noteq> None)"
  using assms by (rule run_events_keeps) (auto dest!: on_event_frame)

lemma download_serve_handle:
  assumes "download_serve lib cfg p ord ch w = Some (result, w')"
  shows "map_option handle (result_channel result) = Some (handle ch)"
  using assms
  by (auto simp: download_serve_def job_outcome_of_def Let_def
      split: option.splits curl_result.splits if_splits dest!: run_events_frame)

lemma acquired_handles:
  "download_new_channel cfg ord lc w = Some (Inr ch, w') \<Longrightarrow> handle ch = next_handle w \<and> next_handle w' = Suc (next_handle w)"
  "download_new_channel cfg ord lc w = Some (Inl e, w') \<Longrightarrow> next_handle w' = next_handle w"
  "download_reuse_channel cfg ord lc prev w = Some (r, w') \<Longrightarrow> next_handle w' = next_handle w"
  by (auto simp: download_new_channel_def download_reuse_channel_def release_resources_def
      split: option.splits sum.splits)

lemma release_next_handle [simp]: "next_handle (snd (release_resources ch w)) = next_handle w"
  by (simp add: release_resources_def split: option.splits)

lemma download_serve_next_handle:
  "download_serve lib cfg p ord ch w = Some (result, w') \<Longrightarrow> next_handle w' = next_handle w"
  by (auto simp: download_serve_def Let_def split: option.splits dest!: run_events_frame)

lemma download_serve_keeps:
  "download_serve lib cfg p ord ch w = Some (result, w') \<Longrightarrow>
    (\<exists>ch'. result_channel result = Some ch' \<and> handle ch' = handle ch) \<and> next_handle w' = next_handle w"
  using download_serve_handle download_serve_next_handle by fastforce

text \<open>curl's handles are numbered in the order of their creation.\<close>

interpretation flexo_handles: fresh_handles "download_trait lib cfg" handle next_handle for lib cfg
  by unfold_locales
    (auto simp: download_handle_error_def dest: acquired_handles reuse_keeps_handle download_serve_keeps)

lemma new_context_below:
  "job_context_new tr ps w = Some c \<Longrightarrow> handles_below token c n"
  by (auto simp: job_context_new_def handles_below_def channel_at_def split: option.splits sum.splits)

end
