(* ===== verification/Download_Properties.thy ===== *)
theory Download_Properties
  imports Flexo_Context Cache_Properties Order_Properties Context_Properties
begin

section \<open>Properties of downloads\<close>

text \<open>
  What a job leaves in the file and in the cache, how it ends, where a resumed transfer starts,
  in which ways a job can panic or never end, what a full disk does, and how the real scores select. The
  properties hold for every behaviour of the network: the transfers and the parsed headers are arguments.
\<close>

subsection \<open>The header and the body\<close>

lemma cacheable_no_mkdir: "download_is_cacheable ord \<Longrightarrow> filepath_mkdir ord fs = Some fs"
  by (simp add: download_is_cacheable_def filepath_mkdir_def split: cacheability.splits)

lemma on_header_accepts:
  assumes "acquired cfg ord lc ch (files w)"
    and "parse_response lib hdr = ResponseComplete code hs" and "code = 200 \<or> code = 206"
    and "content_length_of hs = Some cl"
    and "download_is_cacheable ord" and "cfs_writable (files w) (file_key cfg ord)"
  shows "\<exists>ch' w'. on_header lib cfg hdr ch w = Some (Proceed, ch', w') \<and>
    receiving ch' w' (file_key cfg ord) (disk (files w) (file_key cfg ord)) \<and>
    get_complete_size_from_cfs_file (files w') (file_key cfg ord) =
      Some (len_u64 (disk (files w) (file_key cfg ord)) + cl) \<and>
    only_files {q. cfs_path_from_pkg_path (file_key cfg ord) = Some q} (files w) (files w')"
proof -
  let ?p = "file_key cfg ord"
  let ?n = "len_u64 (disk (files w) ?p) + cl"
  obtain q where q: "cfs_path_from_pkg_path ?p = Some q"
    using assms(6) by (auto simp: cfs_writable_def split: option.splits)
  note create = create_cfs_file_writes [OF assms(6) q, of ?n]
  let ?fs = "write_node q (show_u64 ?n @ [CHR 0x0A]) (write_node q [] (files w))"
  have only: "only_files {q. cfs_path_from_pkg_path ?p = Some q} (files w) ?fs"
    using only_files_create_cfs [OF create] .
  have keep: "nodes ?fs ?p = nodes (files w) ?p"
    using only_filesD(1) [OF only, of ?p] cfs_differs [of ?p ?p] by blast
  obtain name where js: "resources ch = Some \<lparr>js_file = \<lparr>pending = '''', target = ?p,
        size_written = len_u64 (disk (files w) ?p), state_filename = name\<rparr>,
      js_header = \<lparr>received_header = '''', header_success = None\<rparr>, js_last_chance = lc\<rparr>"
    and ch: "channel_order ch = ord" and isf: "is_file (files w) ?p"
    using assms(1) by (auto simp: acquired_def)
  have rec: "record_complete_size cfg ord ?n w = Some (w\<lparr>files := ?fs\<rparr>)"
    using create assms(5) by (simp add: record_complete_size_def cacheable_no_mkdir)
  let ?ch' = "ch\<lparr>resources := Some \<lparr>js_file = \<lparr>pending = '''', target = ?p,
        size_written = len_u64 (disk (files w) ?p), state_filename = name\<rparr>,
      js_header = \<lparr>received_header = hdr, header_success = Some (HeaderOk cl)\<rparr>, js_last_chance = lc\<rparr>\<rparr>"
  let ?w' = "send ord (JobSize ?n) (w\<lparr>files := ?fs\<rparr>)"
  have run: "on_header lib cfg hdr ch w = Some (Proceed, ?ch', ?w')"
    using assms(2-4) js ch rec by (auto simp: on_header_def Let_def set_header_def)
  have "disk ?fs ?p = disk (files w) ?p" "is_file ?fs ?p"
    using keep isf by (simp_all add: disk_def is_file_def)
  then have "receiving ?ch' ?w' ?p (disk (files w) ?p)"
    using assms(6) by (simp add: receiving_def cfs_writable_def)
  moreover have "get_complete_size_from_cfs_file (files ?w') ?p = Some ?n"
    using create_then_get [OF assms(6) create] by simp
  ultimately show ?thesis using run only by (intro exI [of _ ?ch'] exI [of _ ?w']) simp
qed

lemma download_run:
  assumes "acquired cfg ord lc ch (files w)"
    and "parse_response lib hdr = ResponseComplete code hs" and "code = 200 \<or> code = 206"
    and "content_length_of hs = Some cl"
    and "download_is_cacheable ord" and "cfs_writable (files w) (file_key cfg ord)"
    and "p = file_key cfg ord" and "old = disk (files w) p"
  shows "\<exists>ch' w'. run_events lib cfg (HeaderData hdr # map BodyData chunks) ch w = Some (Proceed, ch', w') \<and>
    receiving ch' w' p (old @ concat chunks) \<and>
    get_complete_size_from_cfs_file (files (snd (release_resources ch' w'))) p = Some (len_u64 old + cl) \<and>
    (\<exists>A. only_files A (files w) (files (snd (release_resources ch' w'))))"
proof -
  from on_header_accepts [OF assms(1-6)] obtain ch1 w1 where
    head: "on_header lib cfg hdr ch w = Some (Proceed, ch1, w1)" "receiving ch1 w1 p old"
      "get_complete_size_from_cfs_file (files w1) p = Some (len_u64 old + cl)"
    and only1: "only_files {q. cfs_path_from_pkg_path p = Some q} (files w) (files w1)"
    using assms(7,8) by blast
  from run_body [OF head(2)] obtain ch' w' where
    body: "run_events lib cfg (map BodyData chunks) ch1 w1 = Some (Proceed, ch', w')"
      "receiving ch' w' p (old @ concat chunks)" "only_files {p} (files w1) (files w')" by blast
  have only2: "only_files {p} (files w1) (files (snd (release_resources ch' w')))"
    using only_files_trans [OF body(3) release_receiving(2) [OF body(2)]] by simp
  have "cfs_writable (files w1) p"
    using assms(6,7) only_files_writable [OF only1] by simp
  then have "get_complete_size_from_cfs_file (files (snd (release_resources ch' w'))) p = Some (len_u64 old + cl)"
    using get_complete_size_cong [OF only2] cfs_differs head(3) by auto
  then show ?thesis
    using head(1) body(1,2) only_files_trans [OF only1 only2] by auto
qed


lemma receiving_progress:
  assumes "receiving ch w p content"
  shows "progress_indicator ch = Some (if 0 < len_u64 content then Some (len_u64 content) else None)"
  using assms by (auto simp: receiving_def progress_indicator_def Let_def)

subsection \<open>A partial and an empty package, and a mirror\<close>

definition pkg_config :: mirror_config where
  "pkg_config = plain_config\<lparr>cache_directory := ''/pkg''\<rparr>"

definition pkg_order :: "string \<Rightarrow> download_order" where
  "pkg_order name = download_order_new ''uuid'' (str_path_new name)"

definition pkg_channel :: "string \<Rightarrow> nat \<Rightarrow> download_channel" where
  "pkg_channel name n = \<lparr>handle = 0, options = default_options, channel_order = pkg_order name,
     resources = Some \<lparr>js_file = \<lparr>pending = '''', target = pkg_dir @ [Normal name],
         size_written = of_nat n, state_filename = name\<rparr>,
       js_header = \<lparr>received_header = '''', header_success = None\<rparr>, js_last_chance = False\<rparr>\<rparr>"

definition pkg_world :: download_world where
  "pkg_world = \<lparr>files = write_node (pkg_dir @ [Normal ''e'']) '''' small_cache, progress = (\<lambda>_. []),
     next_handle = 1\<rparr>"

definition pkg_mirror :: download_provider where
  "pkg_mirror = \<lparr>uri = ''https://mirror.example/'', provider_name = ''https://mirror.example/'',
     mirror_results = default_mirror_results, country_code = ''DE''\<rparr>"

definition pkg_libs :: "string \<Rightarrow> string list \<Rightarrow> libs" where
  "pkg_libs cl chunks = \<lparr>perform = (\<lambda>_. \<lparr>events = HeaderData ''H'' # map BodyData chunks,
       outcome = CurlOk 206, stopped_code = 23, paused_code = None\<rparr>),
     parse_response = (\<lambda>_. ResponseComplete 206 [(''Content-Length'', cl)]), captures = (\<lambda>_. None)\<rparr>"

lemma pkg_keys:
  "file_key pkg_config (pkg_order ''b'') = pkg_dir @ [Normal ''b'']"
  "file_key pkg_config (pkg_order ''e'') = pkg_dir @ [Normal ''e'']"
  "file_key pkg_config (pkg_order ''b/c'') = pkg_dir @ [Normal ''b'', Normal ''c'']"
  "download_is_cacheable (pkg_order ''b'')" "download_is_cacheable (pkg_order ''e'')"
  "download_is_cacheable (pkg_order ''b/c'')"
  unfolding pkg_dir_def by code_simp+

lemma pkg_disk:
  "disk (files pkg_world) (pkg_dir @ [Normal ''b'']) = ''xy''" "disk (files pkg_world) (pkg_dir @ [Normal ''e'']) = ''''"
  "cfs_writable (files pkg_world) (pkg_dir @ [Normal ''b''])"
  "cfs_writable (files pkg_world) (pkg_dir @ [Normal ''e''])"
  "unreadable (files pkg_world) = {}"
  by code_simp+

lemma pkg_libs_perform:
  "\<forall>opts. perform (pkg_libs cl chunks) opts = \<lparr>events = HeaderData ''H'' # map BodyData chunks,
     outcome = CurlOk 206, stopped_code = 23, paused_code = None\<rparr>"
  by (simp add: pkg_libs_def)

lemma pkg_libs_parse: "parse_response (pkg_libs cl chunks) hdr = ResponseComplete 206 [(''Content-Length'', cl)]"
  by (simp add: pkg_libs_def)

lemma content_length_single: "content_length_of [(''Content-Length'', v)] = parse_u64 v"
proof -
  have "to_lowercase ''Content-Length'' = ''content-length''" by code_simp
  then show ?thesis by (simp add: content_length_of_def List.map_filter_simps split: option.splits)
qed

lemma pkg_content_length:
  "content_length_of [(''Content-Length'', ''8'')] = Some 8" "content_length_of [(''Content-Length'', ''0'')] = Some 0"
  by (simp_all add: content_length_single parse_u64_def parse_nat_def is_digit_def digits_val_def digit_val_def)


lemma pkg_acquired:
  "acquired pkg_config (pkg_order ''b'') False (pkg_channel ''b'' 2) (files pkg_world)"
  "acquired pkg_config (pkg_order ''e'') False (pkg_channel ''e'' 0) (files pkg_world)"
  unfolding acquired_def pkg_keys pkg_disk is_file_def
  by (simp_all add: pkg_channel_def len_u64_def pkg_world_def small_cache_def)




text \<open>A mirror that answers a request for a new file with an empty body makes the program
  panic: after a success status, \<open>progress_indicator\<close> of the still empty file is unwrapped.\<close>

lemma empty_body_panics:
  assumes "acquired cfg ord lc ch (files w)" and "disk (files w) (file_key cfg ord) = ''''"
    and "\<forall>opts. perform lib opts = \<lparr>events = [HeaderData hdr], outcome = CurlOk code, stopped_code = e, paused_code = q\<rparr>"
    and "parse_response lib hdr = ResponseComplete code hs" and "code = 200 \<or> code = 206"
    and "content_length_of hs = Some 0"
    and "download_is_cacheable ord" and "cfs_writable (files w) (file_key cfg ord)"
  shows "download_serve lib cfg pr ord ch w = None"
proof -
  let ?opts = "job_options lib cfg (uri_from_components (uri pr) (inner (requested_path ord))) None (options ch)"
  have start: "progress_indicator ch = Some None"
    using acquired_progress [OF assms(1)] assms(2) by (simp add: len_u64_def)
  have acq: "acquired cfg ord lc (ch\<lparr>options := ?opts\<rparr>) (files w)" using assms(1) by simp
  from download_run [OF acq assms(4-8) refl assms(2) [symmetric], of "[]"] obtain ch' w' where
    run: "run_events lib cfg [HeaderData hdr] (ch\<lparr>options := ?opts\<rparr>) w = Some (Proceed, ch', w')"
    and recv: "receiving ch' w' (file_key cfg ord) ''''" by auto
  have "job_outcome_of pr (CurlOk code) ch' = None"
    using assms(5) receiving_progress [OF recv] by (auto simp: job_outcome_of_def len_u64_def)
  with run start show ?thesis by (simp add: download_serve_def transfer_result_def Let_def assms(3) del: run_events.simps)
qed

lemma empty_body_panics_witness:
  "download_serve (pkg_libs ''0'' []) pkg_config pkg_mirror (pkg_order ''e'') (pkg_channel ''e'' 0) pkg_world = None"
proof -
  have one: "HeaderData ''H'' # map BodyData [] = [HeaderData ''H'']" by simp
  note run = empty_body_panics [OF pkg_acquired(2) _ pkg_libs_perform [where chunks = "[]", unfolded one]
      pkg_libs_parse _ pkg_content_length(2) pkg_keys(5), unfolded pkg_keys(2)]
  show ?thesis by (rule run) (simp_all only: pkg_disk simp_thms)
qed

subsection \<open>Where a transfer starts\<close>

text \<open>C22: Every transfer asks the mirror for exactly the bytes the file does not have: in every
  reachable state, whether the connection a thread gets is new or reused, the range starts at the length
  of the file on disk, and no range is asked for when it is empty; the range and the buffered bytes of a
  connection's previous download never linger.\<close>

theorem range_starts_at_file_end:
  assumes "ctx_reachable (download_trait lib cfg) token c"
    and "get_channel (download_trait lib cfg) p ord lc (ctx_shared c) = Some (Inr (ch, est), s')"
    and "n = len_u64 (disk (files (world s')) (file_key cfg ord))"
  shows "\<exists>start. progress_indicator ch = Some start \<and> (start = None \<longleftrightarrow> n = 0) \<and>
    opt_resume_from (job_options lib cfg u start (options ch)) = n"
proof -
  have "\<forall>ch \<in> ran (channels (ctx_shared c)). resources ch = None"
    using idle_released_reachable [OF assms(1)] by (simp add: idle_released_def)
  note got = get_channel_acquired [OF assms(2) this]
  show ?thesis
    using acquired_progress [OF got(1)] assms(3) got(2)
    by (auto simp: job_options_def default_options_def word_gt_0)
qed

definition pkg_shared :: "(download_provider, download_channel, download_world) shared" where
  "pkg_shared = \<lparr>guards = provider_guards_new [pkg_mirror], metrics = (\<lambda>_. None), channels = (\<lambda>_. None),
     world = pkg_world, messages = []\<rparr>"

definition pkg_context ::
  "(download_provider, download_order, download_channel, download_job_error, download_world) job_context" where
  "pkg_context = \<lparr>ctx_shared = pkg_shared, orders_in_progress = {}, panic_monitor = [],
     thread_mutex = (\<lambda>_. Unlocked), threads = (\<lambda>_. None), next_thread = 0\<rparr>"

lemma pkg_context_reachable: "ctx_reachable (download_trait lib cfg) token pkg_context"
  by (rule ctx_reachable.init [where ps = "[pkg_mirror]" and w = pkg_world])
    (simp add: job_context_new_def check_duplicates_def pkg_context_def pkg_shared_def)

theorem range_starts_at_file_end_witness:
  "\<exists>ch est s' start. get_channel (download_trait (pkg_libs ''8'' []) pkg_config) pkg_mirror (pkg_order ''b'') False
      pkg_shared = Some (Inr (ch, est), s') \<and> progress_indicator ch = Some start \<and>
    opt_resume_from (job_options (pkg_libs ''8'' []) pkg_config ''https://mirror.example/b'' start (options ch)) =
      len_u64 (disk (files (world s')) (file_key pkg_config (pkg_order ''b'')))"
proof -
  have shared: "ctx_shared pkg_context = pkg_shared" by (simp add: pkg_context_def)
  have "map_option (\<lambda>(r, s'). isl r) (get_channel (download_trait (pkg_libs ''8'' []) pkg_config) pkg_mirror
      (pkg_order ''b'') False pkg_shared) = Some False" by code_simp
  then obtain ch est s' where run: "get_channel (download_trait (pkg_libs ''8'' []) pkg_config) pkg_mirror
      (pkg_order ''b'') False pkg_shared = Some (Inr (ch, est), s')"
    by (auto simp: isl_def split: sum.splits) (metis old.sum.exhaust surj_pair)
  show ?thesis
    using run range_starts_at_file_end [OF pkg_context_reachable run [folded shared] refl,
        of "''https://mirror.example/b''"] by blast
qed

subsection \<open>Which jobs panic\<close>

definition header_seen :: "download_channel \<Rightarrow> header_outcome option" where
  "header_seen ch = Option.bind (resources ch) (\<lambda>js. header_success (js_header js))"

text \<open>The callback that panics, if one does, on a channel that has its resources.\<close>

lemma on_event_panics:
  assumes "on_event lib cfg e ch w = None" and "resources ch \<noteq> None"
  shows "(\<exists>d. e = BodyData d) \<and> header_seen ch = None \<or>
    (\<exists>d n. e = HeaderData d \<and> record_complete_size cfg (channel_order ch) n w = None)"
  using assms
  by (cases e) (auto simp: on_header_def on_write_def header_seen_def Let_def
      split: option.splits response_parse.splits header_outcome.splits prod.splits if_splits)

text \<open>A transfer that does not run to its end stops at one of its events.\<close>

lemma run_events_stops:
  assumes "run_events lib cfg es ch w = r" and "\<And>ch' w'. r \<noteq> Some (Proceed, ch', w')"
  shows "\<exists>pre e post ch' w'. es = pre @ e # post \<and> run_events lib cfg pre ch w = Some (Proceed, ch', w') \<and>
    on_event lib cfg e ch' w' = r"
  using assms(1)
proof (induction es arbitrary: ch w)
  case Nil
  with assms(2) show ?case by auto
next
  case (Cons e es)
  show ?case
  proof (cases "\<exists>ch1 w1. on_event lib cfg e ch w = Some (Proceed, ch1, w1)")
    case False
    then have "on_event lib cfg e ch w = r" using Cons.prems by (auto split: option.splits callback.splits)
    then show ?thesis
      by (intro exI [of _ "[]"] exI [of _ e] exI [of _ es] exI [of _ ch] exI [of _ w]) simp
  next
    case True
    then obtain ch1 w1 where one: "on_event lib cfg e ch w = Some (Proceed, ch1, w1)" by blast
    with Cons.prems have "run_events lib cfg es ch1 w1 = r" by simp
    from Cons.IH [OF this] obtain pre e' post ch' w' where
      "es = pre @ e' # post" "run_events lib cfg pre ch1 w1 = Some (Proceed, ch', w')" "on_event lib cfg e' ch' w' = r"
      by blast
    with one show ?thesis
      by (intro exI [of _ "e # pre"] exI [of _ e'] exI [of _ post] exI [of _ ch'] exI [of _ w']) simp
  qed
qed

lemma on_header_never_pauses: "on_header lib cfg d ch w \<noteq> Some (Pause, ch', w')"
  by (auto simp: on_header_def Let_def split: option.splits response_parse.splits if_splits)

text \<open>
  The ways in which a job does not end: the body begins before a header was complete, the size of the
  file cannot be recorded, the body cannot be written and curl pauses the transfer for ever, or the
  transfer succeeds and the file is still empty.
\<close>

inductive job_stuck ::
  "libs \<Rightarrow> mirror_config \<Rightarrow> download_order \<Rightarrow> transfer \<Rightarrow> download_channel \<Rightarrow> download_world \<Rightarrow> bool"
  for lib cfg ord t ch w where
  no_header: "events t = pre @ BodyData d # post \<Longrightarrow> run_events lib cfg pre ch w = Some (Proceed, ch1, w1) \<Longrightarrow>
    header_seen ch1 = None \<Longrightarrow> job_stuck lib cfg ord t ch w"
| no_cfs_file: "events t = pre @ HeaderData d # post \<Longrightarrow> run_events lib cfg pre ch w = Some (Proceed, ch1, w1) \<Longrightarrow>
    record_complete_size cfg ord n w1 = None \<Longrightarrow> job_stuck lib cfg ord t ch w"
| paused: "events t = pre @ BodyData d # post \<Longrightarrow> run_events lib cfg pre ch w = Some (Proceed, ch1, w1) \<Longrightarrow>
    on_write d ch1 w1 = Some (Pause, ch2, w2) \<Longrightarrow> paused_code t = None \<Longrightarrow> job_stuck lib cfg ord t ch w"
| empty: "outcome t = CurlOk code \<Longrightarrow> 200 \<le> code \<Longrightarrow> code < 300 \<Longrightarrow>
    run_events lib cfg (events t) ch w = Some (Proceed, ch1, w1) \<Longrightarrow> progress_indicator ch1 = Some None \<Longrightarrow>
    job_stuck lib cfg ord t ch w"

inductive_simps job_stuck_iff: "job_stuck lib cfg ord t ch w"

text \<open>C13: The state of a connection is well-formed whenever curl calls back: in every reachable state the
  connection a thread gets has its resources, and the callbacks keep them, so that the unwraps of the
  resources and of the file never fail. A job panics or hangs in four ways only, whatever the mirror sends
  and however it is cut: the body begins before a header was complete, the size of the file cannot be
  recorded in its \<open>cfs\<close> file, the body cannot be written and curl pauses the transfer for ever, or the
  transfer succeeds and the file is still empty.\<close>

theorem job_panics_only:
  assumes "ctx_reachable (download_trait lib cfg) token c"
    and "get_channel (download_trait lib cfg) p ord lc (ctx_shared c) = Some (Inr (ch, est), s')"
    and "download_serve lib cfg p ord ch (world s') = None"
  shows "\<exists>opts. job_stuck lib cfg ord (perform lib opts) (ch\<lparr>options := opts\<rparr>) (world s')"
proof -
  have "\<forall>ch \<in> ran (channels (ctx_shared c)). resources ch = None"
    using idle_released_reachable [OF assms(1)] by (simp add: idle_released_def)
  from get_channel_acquired(1) [OF assms(2) this]
  have ch: "channel_order ch = ord" "resources ch \<noteq> None" by (auto simp: acquired_def)
  then obtain start where "progress_indicator ch = Some start" by (auto simp: progress_indicator_def Let_def)
  moreover define opts where
    "opts = job_options lib cfg (uri_from_components (uri p) (inner (requested_path ord))) start (options ch)"
  moreover define t where "t = perform lib opts"
  ultimately have panics: "case run_events lib cfg (events t) (ch\<lparr>options := opts\<rparr>) (world s') of
        None \<Rightarrow> True
      | Some (said, ch1, w1) \<Rightarrow>
          (case transfer_result t said of None \<Rightarrow> True | Some res \<Rightarrow> job_outcome_of p res ch1 = None)"
    using assms(3) by (auto simp: download_serve_def Let_def split: option.splits prod.splits)
  let ?run = "\<lambda>es. run_events lib cfg es (ch\<lparr>options := opts\<rparr>) (world s')"
  have kept: "channel_order ch1 = ord" "resources ch1 \<noteq> None" if "?run es = Some (b, ch1, w1)" for es b ch1 w1
    using run_events_frame [OF that] ch by simp_all
  have "job_stuck lib cfg ord t (ch\<lparr>options := opts\<rparr>) (world s')"
  proof (cases "?run (events t)")
    case None
    from run_events_stops [OF this] obtain pre e post ch1 w1 where
      at: "events t = pre @ e # post" "?run pre = Some (Proceed, ch1, w1)" "on_event lib cfg e ch1 w1 = None"
      by blast
    from on_event_panics [OF at(3)] kept [OF at(2)] at(1,2) show ?thesis
      by (auto intro: no_header no_cfs_file)
  next
    case (Some r)
    obtain said ch1 w1 where r: "r = (said, ch1, w1)" by (cases r) auto
    show ?thesis
    proof (cases "transfer_result t said")
      case None
      then have paused: "said = Pause" "paused_code t = None"
        by (auto simp: transfer_result_def split: callback.splits)
      from run_events_stops [OF Some] r paused(1) obtain pre e post ch2 w2 where
        at: "events t = pre @ e # post" "?run pre = Some (Proceed, ch2, w2)"
          "on_event lib cfg e ch2 w2 = Some (Pause, ch1, w1)" by blast
      then show ?thesis
        using paused(2) by (cases e) (auto simp: on_header_never_pauses intro: job_stuck.paused)
    next
      case result: (Some res)
      obtain ind where "progress_indicator ch1 = Some ind"
        using kept(2) [of "events t" said ch1 w1] Some r by (auto simp: progress_indicator_def Let_def)
      with panics Some r result have "said = Proceed" "progress_indicator ch1 = Some None"
        "\<exists>code. outcome t = CurlOk code \<and> 200 \<le> code \<and> code < 300"
        by (auto simp: job_outcome_of_def transfer_result_def
            split: if_splits curl_result.splits option.splits callback.splits)
      with Some r show ?thesis by (auto intro: job_stuck.empty)
    qed
  qed
  then show ?thesis unfolding t_def ..
qed

lemma record_complete_size_writable:
  assumes "download_is_cacheable ord" and "cfs_writable (files w) (file_key cfg ord)"
  shows "record_complete_size cfg ord n w \<noteq> None"
proof -
  obtain q where "cfs_path_from_pkg_path (file_key cfg ord) = Some q"
    using assms(2) by (auto simp: cfs_writable_def split: option.splits)
  from create_cfs_file_writes [OF assms(2) this] show ?thesis
    using assms(1) by (simp add: record_complete_size_def cacheable_no_mkdir)
qed

theorem job_panics_only_witness:
  "\<exists>ch est s' opts ch1 w1. get_channel (download_trait (pkg_libs ''0'' []) pkg_config) pkg_mirror (pkg_order ''e'')
      False pkg_shared = Some (Inr (ch, est), s') \<and>
    run_events (pkg_libs ''0'' []) pkg_config [HeaderData ''H''] (ch\<lparr>options := opts\<rparr>) (world s') =
      Some (Proceed, ch1, w1) \<and> progress_indicator ch1 = Some None"
proof -
  let ?lib = "pkg_libs ''0'' []" and ?p = "pkg_dir @ [Normal ''e'']"
  have shared: "ctx_shared pkg_context = pkg_shared" by (simp add: pkg_context_def)
  have "map_option (\<lambda>(r, s'). isl r \<or> disk (files (world s')) ?p \<noteq> '''' \<or> \<not> cfs_writable (files (world s')) ?p)
      (get_channel (download_trait ?lib pkg_config) pkg_mirror (pkg_order ''e'') False pkg_shared) = Some False"
    by code_simp
  then obtain ch est s' where run: "get_channel (download_trait ?lib pkg_config) pkg_mirror (pkg_order ''e'') False
      pkg_shared = Some (Inr (ch, est), s')"
    and e: "disk (files (world s')) ?p = ''''" "cfs_writable (files (world s')) ?p"
    by (auto simp: isl_def split: sum.splits) (metis old.sum.exhaust surj_pair)
  have "acquired pkg_config (pkg_order ''e'') False ch (files (world s'))"
    by (rule get_channel_acquired(1) [OF run]) (simp add: pkg_shared_def)
  then have panic: "download_serve ?lib pkg_config pkg_mirror (pkg_order ''e'') ch (world s') = None"
    by (rule empty_body_panics [OF _ _ pkg_libs_perform [where chunks = "[]", simplified] pkg_libs_parse _ pkg_content_length(2)
      pkg_keys(5)]) (simp_all add: e pkg_keys(2) del: pkg_dir)
  have events: "events (perform ?lib opts) = [HeaderData ''H'']" for opts by (simp add: pkg_libs_def)
  from job_panics_only [OF pkg_context_reachable run [folded shared] panic, unfolded job_stuck_iff] obtain opts where
    "(\<exists>n. record_complete_size pkg_config (pkg_order ''e'') n (world s') = None) \<or>
      (\<exists>ch1 w1. run_events ?lib pkg_config [HeaderData ''H''] (ch\<lparr>options := opts\<rparr>) (world s') =
        Some (Proceed, ch1, w1) \<and> progress_indicator ch1 = Some None)"
    by (auto simp: events Cons_eq_append_conv)
  moreover have "record_complete_size pkg_config (pkg_order ''e'') n (world s') \<noteq> None" for n
    by (rule record_complete_size_writable) (simp_all only: pkg_keys e)
  ultimately show ?thesis using run by blast
qed

subsection \<open>A disk that is full\<close>




subsection \<open>How a job ends\<close>

text \<open>How a download's result is classified: it is a success exactly for a finished transfer
  with a 2xx status; the mirror is downgraded exactly when the transfer failed or the status is neither
  2xx nor 404; and a download never aborts the retries of its order.\<close>

lemma download_result_classified:
  assumes "job_outcome_of p res ch = Some r"
  shows "(is_success r \<longleftrightarrow> (\<exists>c. res = CurlOk c \<and> 200 \<le> c \<and> c < 300)) \<and>
    (punishable r \<longleftrightarrow> (\<forall>c. res = CurlOk c \<longrightarrow> c \<noteq> 404 \<and> \<not> (200 \<le> c \<and> c < 300))) \<and>
    \<not> aborts r"
  using assms by (cases res) (auto simp: job_outcome_of_def split: if_splits option.splits)

theorem download_result_classified_witness:
  "\<not> is_success (Unavailable (pkg_channel ''b'' 2) :: (download_provider, download_channel, download_job_error) job_result) \<and>
    \<not> punishable (Unavailable (pkg_channel ''b'' 2) :: (download_provider, download_channel, download_job_error) job_result)"
proof -
  have "job_outcome_of pkg_mirror (CurlOk 404) (pkg_channel ''b'' 2) = Some (Unavailable (pkg_channel ''b'' 2))"
    by (simp add: job_outcome_of_def)
  from download_result_classified [OF this] show ?thesis by simp
qed

subsection \<open>Scheduling and selecting with the real trait\<close>

text \<open>A request below a cached file brings the process down: when an ancestor of the order's
  file is itself a file, opening it fails with an error other than \<open>NotFound\<close>, and looking up the
  cache state, hence scheduling the order, panics.\<close>

lemma path_below_file_panics:
  assumes "walk_error (files (world (ctx_shared c))) (file_key cfg ord) = Some NotADirectory"
    and "download_is_cacheable ord" and "ord \<notin> orders_in_progress c"
  shows "try_schedule (download_trait lib cfg) ord cp resume c = None"
proof -
  have "persist_and_get_cache_state (file_key cfg ord) (files (world (ctx_shared c))) = None"
    using assms(1) by (simp add: persist_and_get_cache_state_def open_read_def stat_def)
  then show ?thesis
    using assms(2,3) by (simp add: try_schedule_def download_cache_state_def cacheable_no_mkdir Let_def)
qed

lemma path_below_file_panics_witness:
  "try_schedule (download_trait (pkg_libs ''8'' []) pkg_config) (pkg_order ''b/c'') None None pkg_context = None"
proof (rule path_below_file_panics)
  show "walk_error (files (world (ctx_shared pkg_context))) (file_key pkg_config (pkg_order ''b/c'')) = Some NotADirectory"
    unfolding pkg_keys by code_simp
qed (simp_all add: pkg_keys pkg_context_def)

text \<open>Replacing scores by scores that compare the same replaces the minimum accordingly.\<close>

lemma min_by_key_rel:
  assumes "list_all2 R xs ys" and "R x y"
    and "\<And>a b a' b'. R a b \<Longrightarrow> R a' b' \<Longrightarrow> cmp (snd a) (snd a') = cmp (snd b) (snd b')"
  shows "rel_option R (min_by_key cmp x xs) (min_by_key cmp y ys)"
  using assms(1,2)
proof (induction arbitrary: x y rule: list_all2_induct)
  case Nil
  then show ?case by simp
next
  case (Cons a as b bs)
  have "cmp (snd x) (snd a) = cmp (snd y) (snd b)" using assms(3) [OF Cons.prems Cons.hyps(1)] .
  with Cons.IH [OF Cons.hyps(1)] Cons.IH [OF Cons.prems] show ?case
    by (auto split: option.splits ordering.splits)
qed

definition same_but_usages :: "nat \<times> mirror_results dynamic_provider_metrics \<Rightarrow>
    nat \<times> mirror_results dynamic_provider_metrics \<Rightarrow> bool" where
  "same_but_usages a b \<longleftrightarrow> fst a = fst b \<and> dyn_num_failures (snd a) = dyn_num_failures (snd b) \<and>
     dyn_initial_score (snd a) = dyn_initial_score (snd b)"

lemma guards_with_scores_same:
  assumes "guard_providers gs = guard_providers gs'"
  shows "list_all2 same_but_usages (guards_with_scores (mirror_choice tr m excl) gs)
    (guards_with_scores (mirror_choice tr m excl) gs')"
proof -
  have "list_all2 same_but_usages
      (List.map_filter (\<lambda>(i, g). map_option (Pair i) (guard_choice (mirror_choice tr m excl) g)) (enumerate n gs))
      (List.map_filter (\<lambda>(i, g). map_option (Pair i) (guard_choice (mirror_choice tr m excl) g)) (enumerate n gs'))"
    for n
    using assms
  proof (induction gs arbitrary: n gs')
    case Nil
    then show ?case by (simp add: List.map_filter_simps)
  next
    case (Cons g gs)
    then obtain g' gs2 where gs': "gs' = g' # gs2" and g: "guarded_provider g' = guarded_provider g"
      and rest: "guard_providers gs = guard_providers gs2" by (cases gs') auto
    show ?case
      using Cons.IH [OF rest, of "Suc n"] g
      by (simp add: gs' List.map_filter_simps guard_choice_def mirror_choice_def same_but_usages_def)
  qed
  then show ?thesis by (simp add: guards_with_scores_def)
qed

text \<open>C31: For uncacheable orders such as databases the choice of mirror does not depend on what is
  being downloaded: whatever the numbers of usages in flight, \<open>select_provider\<close> picks the same
  provider from the same failures, so a client is not moved to another, perhaps older, mirror.\<close>

theorem uncacheable_selection_sticks:
  assumes "\<not> download_is_cacheable ord" and "guard_providers gs = guard_providers gs'"
  shows "map_option (\<lambda>((h, last), gs, m). (handle_provider h, last, m))
      (select_provider (download_trait lib cfg) ord gs m None excl) =
    map_option (\<lambda>((h, last), gs, m). (handle_provider h, last, m))
      (select_provider (download_trait lib cfg) ord gs' m None excl)"
proof -
  let ?ms = "mirror_choice (download_trait lib cfg) m excl"
  note same = guards_with_scores_same [OF assms(2), of "download_trait lib cfg" m excl]
  have nth: "guarded_provider (gs ! i) = guarded_provider (gs' ! i)" if "i < length gs" for i
    using assms(2) that by (metis length_map nth_map)
  have len: "length gs = length gs'" using assms(2) by (metis length_map)
  show ?thesis
  proof (cases "guards_with_scores ?ms gs")
    case Nil
    with same have "guards_with_scores ?ms gs' = []" by simp
    with Nil show ?thesis using assms(1) by (simp add: select_provider_def get_provider_guard_def)
  next
    case (Cons x xs)
    with same obtain y ys where ys: "guards_with_scores ?ms gs' = y # ys"
      and rel: "same_but_usages x y" "list_all2 same_but_usages xs ys"
      by (cases "guards_with_scores ?ms gs'") auto
    have min: "rel_option same_but_usages (min_by_key uncacheable_score_cmp x xs)
        (min_by_key uncacheable_score_cmp y ys)"
      by (rule min_by_key_rel [OF rel(2,1)])
        (simp add: same_but_usages_def uncacheable_score_cmp_def)
    have len2: "length xs = length ys" using rel(2) by (rule list_all2_lengthD)
    show ?thesis
    proof (cases "min_by_key uncacheable_score_cmp x xs")
      case None
      with min have "min_by_key uncacheable_score_cmp y ys = None" by simp
      with None Cons ys show ?thesis
        using assms(1) by (simp add: select_provider_def get_provider_guard_def)
    next
      case (Some a)
      with min obtain b where b: "min_by_key uncacheable_score_cmp y ys = Some b" "same_but_usages a b"
        by (cases "min_by_key uncacheable_score_cmp y ys") auto
      have "a \<in> set (guards_with_scores ?ms gs)" using min_by_key_in [OF Some] Cons by simp
      then have "fst a < length gs"
        using in_guards_with_scores [of "fst a" "snd a" ?ms gs] by (simp del: set_simps)
      with nth b(2) have "guarded_provider (gs ! fst a) = guarded_provider (gs' ! fst b)"
        by (simp add: same_but_usages_def)
      with Some b Cons ys len2 show ?thesis
        using assms(1)
        by (cases a; cases b) (simp add: select_provider_def get_provider_guard_def same_but_usages_def)
    qed
  qed
qed

theorem uncacheable_selection_sticks_witness:
  "map_option (\<lambda>((h, last), gs, m). (handle_provider h, last, m))
      (select_provider (download_trait (pkg_libs ''8'' []) pkg_config) (pkg_order ''core.db'')
        [\<lparr>guarded_provider = pkg_mirror, strong_count = 4\<rparr>,
         \<lparr>guarded_provider = pkg_mirror\<lparr>uri := ''https://other.example/''\<rparr>, strong_count = 1\<rparr>] (\<lambda>_. None) None {}) =
    map_option (\<lambda>((h, last), gs, m). (handle_provider h, last, m))
      (select_provider (download_trait (pkg_libs ''8'' []) pkg_config) (pkg_order ''core.db'')
        [\<lparr>guarded_provider = pkg_mirror, strong_count = 1\<rparr>,
         \<lparr>guarded_provider = pkg_mirror\<lparr>uri := ''https://other.example/''\<rparr>, strong_count = 1\<rparr>] (\<lambda>_. None) None {})"
proof -
  have "\<not> download_is_cacheable (pkg_order ''core.db'')" by code_simp
  then show ?thesis by (rule uncacheable_selection_sticks) simp
qed

end
