(* ===== verification/Http_Headers.thy ===== *)
theory Http_Headers
  imports Flexo_Prelude
begin

section \<open>Response headers (http\_headers.rs)\<close>

text \<open>
  The headers Flexo sends, byte by byte. The crate \<open>httpdate\<close> formats the current time; the
  formatted date is an argument. Sizes are 64-bit and wrap around.
\<close>

datatype payload_origin = FromCache | RemoteMirror | NoPayload

text \<open>The \<open>Debug\<close> format of the enumeration.\<close>

fun show_origin :: "payload_origin \<Rightarrow> string" where
  "show_origin FromCache = ''Cache''"
| "show_origin RemoteMirror = ''RemoteMirror''"
| "show_origin NoPayload = ''NoPayload''"

definition crlf :: string where
  "crlf = [CHR 0x0D, CHR 0x0A]"

definition content_range_header :: "u64 \<Rightarrow> u64 option \<Rightarrow> string" where
  "content_range_header content_length resume =
     (case resume of
        None \<Rightarrow> ''''
      | Some r \<Rightarrow>
          (let complete_size = content_length + r;
               last_byte = complete_size - 1
           in ''Content-Range: bytes '' @ show_u64 r @ ''-'' @ show_u64 last_byte @ ''/'' @
              show_u64 complete_size @ crlf))"

definition reply_header :: "string \<Rightarrow> u64 \<Rightarrow> u64 option \<Rightarrow> payload_origin \<Rightarrow> string \<Rightarrow> string" where
  "reply_header status_line content_length resume origin date =
     ''HTTP/1.1 '' @ status_line @ crlf @
     ''Server: flexo'' @ crlf @
     ''Date: '' @ date @ crlf @
     ''Flexo-Payload-Origin: '' @ show_origin origin @ crlf @
     content_range_header content_length resume @
     ''Content-Length: '' @ show_u64 content_length @ crlf @ crlf"

definition reply_header_success :: "u64 \<Rightarrow> payload_origin \<Rightarrow> string \<Rightarrow> string" where
  "reply_header_success content_length origin date = reply_header ''200 OK'' content_length None origin date"

definition reply_header_partial :: "u64 \<Rightarrow> u64 \<Rightarrow> payload_origin \<Rightarrow> string \<Rightarrow> string" where
  "reply_header_partial content_length r origin date =
     reply_header ''206 Partial Content'' content_length (Some r) origin date"

definition reply_header_not_found :: "string \<Rightarrow> string" where
  "reply_header_not_found date = reply_header ''404 Not Found'' 0 None NoPayload date"

definition reply_header_bad_request :: "string \<Rightarrow> string" where
  "reply_header_bad_request date = reply_header ''400 Bad Request'' 0 None NoPayload date"

definition reply_header_internal_server_error :: "string \<Rightarrow> string" where
  "reply_header_internal_server_error date =
     reply_header ''500 Internal Server Error'' 0 None NoPayload date"

definition reply_header_forbidden :: "string \<Rightarrow> string" where
  "reply_header_forbidden date = reply_header ''403 Forbidden'' 0 None NoPayload date"

definition redirect_header :: "string \<Rightarrow> string \<Rightarrow> string" where
  "redirect_header location date =
     ''HTTP/1.1 301 Moved Permanently'' @ crlf @
     ''Server: flexo'' @ crlf @
     ''Date: '' @ date @ crlf @
     ''Content-Length: 0'' @ crlf @
     ''Location: '' @ location @ crlf @ crlf"

text \<open>How many bytes are left to send (main.rs): a saturating subtraction.\<close>

definition remaining_content_length :: "u64 \<Rightarrow> u64 option \<Rightarrow> u64" where
  "remaining_content_length complete_filesize resume =
     (let r = (case resume of None \<Rightarrow> 0 | Some r \<Rightarrow> r)
      in if r \<le> complete_filesize then complete_filesize - r else 0)"

lemma content_range_of_remaining:
  "r < n \<Longrightarrow> content_range_header (remaining_content_length n (Some r)) (Some r) =
    ''Content-Range: bytes '' @ show_u64 r @ ''-'' @ show_u64 (n - 1) @ ''/'' @ show_u64 n @ crlf"
  by (simp add: content_range_header_def remaining_content_length_def order.strict_implies_order)

lemma content_range_beyond:
  "n \<le> r \<Longrightarrow> content_range_header (remaining_content_length n (Some r)) (Some r) =
    ''Content-Range: bytes '' @ show_u64 r @ ''-'' @ show_u64 (r - 1) @ ''/'' @ show_u64 r @ crlf"
  by (auto simp: content_range_header_def remaining_content_length_def Let_def)

end
