(* ===== verification/Serving.thy ===== *)
theory Serving
  imports Http_Headers File_System "HOL-Library.Monad_Syntax"
begin

section \<open>Sending files to a client (main.rs)\<close>

text \<open>
  A client's socket takes bytes until the client goes away. \<open>sendfile\<close> moves some of the bytes
  asked for; how many is up to the system (\<open>chunk\<close>). Loops that may run forever are partial
  functions into an option: None is a loop that does not end. Offsets into a file are natural
  numbers: the kernel's file sizes stay below \<open>2 ^ 63\<close>, where \<open>off64_t\<close>, \<open>i64\<close> and
  \<open>u64\<close> agree.
\<close>

subsection \<open>The socket\<close>

text \<open>\<open>accepts\<close>: how many more bytes the peer takes before the pipe breaks; None is no limit.\<close>

record socket =
  sent :: string
  accepts :: "nat option"

definition write_all :: "string \<Rightarrow> socket \<Rightarrow> error_kind option \<times> socket" where
  "write_all s k =
     (case accepts k of
        None \<Rightarrow> (None, k\<lparr>sent := sent k @ s\<rparr>)
      | Some n \<Rightarrow>
          if length s \<le> n then (None, k\<lparr>sent := sent k @ s, accepts := Some (n - length s)\<rparr>)
          else (Some BrokenPipe, k\<lparr>sent := sent k @ take n s, accepts := Some 0\<rparr>))"

subsection \<open>sendfile\<close>

definition MAX_SENDFILE_COUNT :: nat where
  "MAX_SENDFILE_COUNT = 0x7ffff000"

definition sendfile ::
  "(nat \<Rightarrow> nat \<Rightarrow> nat) \<Rightarrow> string \<Rightarrow> nat \<Rightarrow> nat \<Rightarrow> socket \<Rightarrow> (error_kind + nat) \<times> socket" where
  "sendfile chunk content offset count k =
     (let n = min (chunk offset count) count;
          bytes = take n (drop offset content)
      in case write_all bytes k of
           (Some e, k') \<Rightarrow> (Inl e, k')
         | (None, k') \<Rightarrow> (Inr (length bytes), k'))"

partial_function (option) send_payload ::
  "(nat \<Rightarrow> nat \<Rightarrow> nat) \<Rightarrow> string \<Rightarrow> nat \<Rightarrow> nat \<Rightarrow> socket \<Rightarrow> ((error_kind + nat) \<times> socket) option" where
  "send_payload chunk content filesize offset k =
     (if offset < filesize then
        (case sendfile chunk content offset (min (filesize - offset) MAX_SENDFILE_COUNT) k of
           (Inl e, k') \<Rightarrow> Some (Inl e, k')
         | (Inr n, k') \<Rightarrow> send_payload chunk content filesize (offset + n) k')
      else Some (Inr offset, k))"

subsection \<open>A file that grows\<close>

text \<open>The trait \<open>GrowingFileSource\<close>; \<open>send_from\<close> itself may not return.\<close>

record 's growing_file_source =
  current_filesize :: "'s \<Rightarrow> (error_kind + u64) \<times> 's"
  send_from :: "u64 \<Rightarrow> u64 \<Rightarrow> 's \<Rightarrow> ((error_kind + u64) \<times> 's) option"

text \<open>The loop: its result (an error or none), how often it slept, and the source afterwards.\<close>

partial_function (option) serve_loop ::
  "'s growing_file_source \<Rightarrow> u64 \<Rightarrow> u64 \<Rightarrow> u64 \<Rightarrow> u64 \<Rightarrow> nat \<Rightarrow> 's \<Rightarrow>
    ((error_kind option \<times> nat) \<times> 's) option" where
  "serve_loop src complete_filesize max_polls client_received polls sleeps s =
     (if client_received < complete_filesize then
        (case current_filesize src s of
           (Inl e, s1) \<Rightarrow> Some ((Some e, sleeps), s1)
         | (Inr filesize, s1) \<Rightarrow>
             if client_received < filesize then
               Option.bind (send_from src filesize client_received s1) (\<lambda>(r, s2).
                 (case r of
                    Inl e \<Rightarrow> Some ((Some e, sleeps), s2)
                  | Inr received \<Rightarrow>
                      serve_loop src complete_filesize max_polls received 0
                        (if received < complete_filesize then Suc sleeps else sleeps) s2))
             else if max_polls \<le> polls + 1 then Some ((Some TimedOut, sleeps), s1)
             else serve_loop src complete_filesize max_polls client_received (polls + 1) (Suc sleeps) s1)
      else Some ((None, sleeps), s))"

definition serve_growing_file_loop ::
  "'s growing_file_source \<Rightarrow> u64 \<Rightarrow> u64 \<Rightarrow> u64 \<Rightarrow> 's \<Rightarrow> ((error_kind option \<times> nat) \<times> 's) option" where
  "serve_growing_file_loop src resume content_length max_polls_without_progress s =
     serve_loop src (content_length + resume) max_polls_without_progress resume 0 0 s"

text \<open>
  \<open>ClientFileSource\<close>: the file as it is at each poll (\<open>grow\<close>, what the downloading thread
  has written to the disk by then) and the client's socket. The state counts the polls.
\<close>

record client_file_source =
  polls_done :: nat
  client :: socket

definition client_source ::
  "(nat \<Rightarrow> nat \<Rightarrow> nat) \<Rightarrow> (nat \<Rightarrow> string) \<Rightarrow> client_file_source growing_file_source" where
  "client_source chunk grow =
     \<lparr>current_filesize = (\<lambda>s. (Inr (len_u64 (grow (polls_done s))), s\<lparr>polls_done := Suc (polls_done s)\<rparr>)),
      send_from = (\<lambda>filesize received s.
        map_option (\<lambda>(r, k). (map_sum id of_nat r, s\<lparr>client := k\<rparr>))
          (send_payload chunk (grow (polls_done s)) (unat filesize) (unat received) (client s)))\<rparr>"

text \<open>10 seconds of polls every 500 microseconds.\<close>

definition GROWING_FILE_STALL_TIMEOUT_MICROS :: nat where
  "GROWING_FILE_STALL_TIMEOUT_MICROS = 10000000"

definition GROWING_FILE_POLL_INTERVAL_MICROS :: nat where
  "GROWING_FILE_POLL_INTERVAL_MICROS = 500"

definition max_polls_without_progress :: u64 where
  "max_polls_without_progress =
     of_nat (GROWING_FILE_STALL_TIMEOUT_MICROS div GROWING_FILE_POLL_INTERVAL_MICROS)"

definition serve_from_growing_file ::
  "(nat \<Rightarrow> nat \<Rightarrow> nat) \<Rightarrow> string \<Rightarrow> (nat \<Rightarrow> string) \<Rightarrow> u64 \<Rightarrow> u64 option \<Rightarrow> socket \<Rightarrow>
    (error_kind option \<times> socket) option" where
  "serve_from_growing_file chunk date grow content_length resume k =
     (let header = (case resume of
            None \<Rightarrow> reply_header_success content_length RemoteMirror date
          | Some r \<Rightarrow> reply_header_partial content_length r RemoteMirror date)
      in case write_all header k of
           (Some e, k1) \<Rightarrow> Some (Some e, k1)
         | (None, k1) \<Rightarrow>
             map_option (\<lambda>((result, _), s). (result, client s))
               (serve_growing_file_loop (client_source chunk grow)
                  (case resume of None \<Rightarrow> 0 | Some r \<Rightarrow> r) content_length max_polls_without_progress
                  \<lparr>polls_done = 0, client = k1\<rparr>))"

subsection \<open>A complete file, and answers without one\<close>

text \<open>A directory can be opened and has a size, but \<open>sendfile\<close> fails on it.\<close>

definition send_node ::
  "(nat \<Rightarrow> nat \<Rightarrow> nat) \<Rightarrow> node \<Rightarrow> nat \<Rightarrow> nat \<Rightarrow> socket \<Rightarrow> ((error_kind + nat) \<times> socket) option" where
  "send_node chunk n filesize offset k =
     (case n of
        FileNode content \<Rightarrow> send_payload chunk content filesize offset k
      | DirNode \<Rightarrow> Some (if offset < filesize then Inl OtherKind else Inr offset, k))"

definition serve_from_complete_file ::
  "(nat \<Rightarrow> nat \<Rightarrow> nat) \<Rightarrow> string \<Rightarrow> file_system \<Rightarrow> node \<Rightarrow> u64 option \<Rightarrow> socket \<Rightarrow>
    ((error_kind + nat) \<times> socket) option" where
  "serve_from_complete_file chunk date fs n resume k =
     (let filesize = node_len fs n;
          r = (case resume of None \<Rightarrow> 0 | Some r \<Rightarrow> r);
          content_length = filesize - r;
          header = (case resume of
            None \<Rightarrow> reply_header_success content_length FromCache date
          | Some r \<Rightarrow> reply_header_partial content_length r FromCache date)
      in case write_all header k of
           (Some e, k1) \<Rightarrow> Some (Inl e, k1)
         | (None, k1) \<Rightarrow> send_node chunk n (unat filesize) (unat r) k1)"

definition serve_200_ok_empty :: "string \<Rightarrow> socket \<Rightarrow> error_kind option \<times> socket" where
  "serve_200_ok_empty date k = write_all (reply_header_success 0 NoPayload date) k"

definition serve_200_ok_body :: "string \<Rightarrow> string \<Rightarrow> socket \<Rightarrow> error_kind option \<times> socket" where
  "serve_200_ok_body date body k =
     (case write_all (reply_header_success (len_u64 body) NoPayload date) k of
        (Some e, k1) \<Rightarrow> (Some e, k1)
      | (None, k1) \<Rightarrow> write_all body k1)"

definition serve_via_redirect :: "string \<Rightarrow> string \<Rightarrow> socket \<Rightarrow> error_kind option \<times> socket" where
  "serve_via_redirect date location k = write_all (redirect_header location date) k"

subsection \<open>What a send delivers\<close>

text \<open>\<open>sendfile\<close> makes progress when it is asked for something.\<close>

definition moves_bytes :: "(nat \<Rightarrow> nat \<Rightarrow> nat) \<Rightarrow> bool" where
  "moves_bytes chunk \<longleftrightarrow> (\<forall>offset count. 0 < count \<longrightarrow> 0 < chunk offset count)"

lemma write_all_sent:
  assumes "write_all s k = (r, k')"
  shows "\<exists>m. sent k' = sent k @ take m s" and "r = None \<Longrightarrow> sent k' = sent k @ s"
    and "accepts k = None \<Longrightarrow> r = None \<and> accepts k' = None"
proof -
  have "(\<exists>m. sent k' = sent k @ take m s) \<and> (r = None \<longrightarrow> sent k' = sent k @ s) \<and>
    (accepts k = None \<longrightarrow> r = None \<and> accepts k' = None)"
    using assms
    by (auto simp: write_all_def split: option.splits if_splits intro: exI [of _ "length s"])
  then show "\<exists>m. sent k' = sent k @ take m s" and "r = None \<Longrightarrow> sent k' = sent k @ s"
    and "accepts k = None \<Longrightarrow> r = None \<and> accepts k' = None" by blast+
qed

lemma sendfile_result:
  assumes "sendfile chunk content offset count k = (r, k')"
  shows "\<exists>m \<le> count. sent k' = sent k @ take m (drop offset content) \<and>
      (\<forall>n. r = Inr n \<longrightarrow> n = m \<and> m = min (min (chunk offset count) count) (length content - offset)) \<and>
      (accepts k = None \<longrightarrow> accepts k' = None \<and> (\<exists>n. r = Inr n))"
proof -
  let ?n = "min (chunk offset count) count"
  let ?bytes = "take ?n (drop offset content)"
  obtain e where wr: "write_all ?bytes k = (e, k')"
    and r: "r = (case e of Some e \<Rightarrow> Inl e | None \<Rightarrow> Inr (length ?bytes))"
    using assms by (auto simp: sendfile_def Let_def split: prod.splits option.splits)
  show ?thesis
  proof (cases e)
    case None
    have "take (length ?bytes) (drop offset content) = ?bytes" by (simp add: min_def)
    then have "sent k' = sent k @ take (length ?bytes) (drop offset content)"
      using write_all_sent(2) [OF wr None] by (simp only:)
    moreover have "length ?bytes \<le> count" by simp
    ultimately show ?thesis
      using write_all_sent(3) [OF wr] r None by (intro exI [of _ "length ?bytes"]) (auto simp: min.commute)
  next
    case (Some x)
    from write_all_sent(1) [OF wr] obtain m where "sent k' = sent k @ take m ?bytes" ..
    then have "sent k' = sent k @ take (min m ?n) (drop offset content)" by (simp add: min.commute)
    moreover have "min m ?n \<le> count" by simp
    ultimately show ?thesis
      using write_all_sent(3) [OF wr] r Some by (intro exI [of _ "min m ?n"]) auto
  qed
qed

lemma take_drop_append:
  "a \<le> length content - offset \<Longrightarrow>
    take a (drop offset content) @ take b (drop (offset + a) content) = take (a + b) (drop offset content)"
  by (simp add: take_add add.commute)

lemma send_payload_returns:
  assumes "moves_bytes chunk" and "filesize \<le> length content"
  shows "\<exists>r k' m. send_payload chunk content filesize offset k = Some (r, k') \<and>
    sent k' = sent k @ take m (drop offset content) \<and> m \<le> filesize - offset \<and>
    (\<forall>n. r = Inr n \<longrightarrow> n = max offset filesize \<and> m = filesize - offset) \<and>
    (accepts k = None \<longrightarrow> accepts k' = None \<and> (\<exists>n. r = Inr n))"
proof (induction "filesize - offset" arbitrary: offset k rule: less_induct)
  case less
  show ?case
  proof (cases "offset < filesize")
    case False
    then have "send_payload chunk content filesize offset k = Some (Inr offset, k)"
      by (subst send_payload.simps) simp
    with False show ?thesis by (intro exI [of _ "Inr offset"] exI [of _ k] exI [of _ 0]) simp
  next
    case True
    let ?count = "min (filesize - offset) MAX_SENDFILE_COUNT"
    have pos: "0 < ?count" using True by (simp add: MAX_SENDFILE_COUNT_def)
    obtain r1 k1 where sf: "sendfile chunk content offset ?count k = (r1, k1)" by fastforce
    obtain m where m: "m \<le> ?count" "sent k1 = sent k @ take m (drop offset content)"
      "\<forall>n. r1 = Inr n \<longrightarrow> n = m \<and> m = min (min (chunk offset ?count) ?count) (length content - offset)"
      "accepts k = None \<longrightarrow> accepts k1 = None \<and> (\<exists>n. r1 = Inr n)"
      by (rule exE [OF sendfile_result [OF sf]], elim conjE) (rule that)
    show ?thesis
    proof (cases r1)
      case (Inl e)
      with sf True have "send_payload chunk content filesize offset k = Some (Inl e, k1)"
        by (subst send_payload.simps) simp
      with m Inl show ?thesis by (intro exI [of _ "Inl e"] exI [of _ k1] exI [of _ m]) auto
    next
      case (Inr n)
      with m(3) have "n = m \<and> m = min (min (chunk offset ?count) ?count) (length content - offset)" by blast
      then have n: "n = m" "m = min (min (chunk offset ?count) ?count) (length content - offset)" by (rule conjunct1, rule conjunct2)
      have "0 < chunk offset ?count" using assms(1) pos unfolding moves_bytes_def by blast
      then have "0 < min (min (chunk offset ?count) ?count) (length content - offset)"
        using pos True assms(2) by simp
      then have m_pos: "0 < m" unfolding n(2) .
      have m_le1: "m \<le> filesize - offset" by (rule order_trans [OF m(1) min.cobounded1])
      have m_le2: "m \<le> length content - offset" unfolding n(2) by (rule min.cobounded2)
      have step: "send_payload chunk content filesize offset k =
          send_payload chunk content filesize (offset + m) k1"
        using sf True Inr n(1) by (subst send_payload.simps) simp
      have "filesize - (offset + m) < filesize - offset" using m_pos True by simp
      from less.hyps [OF this, of k1] obtain r k' m' where
        rest: "send_payload chunk content filesize (offset + m) k1 = Some (r, k')"
          "sent k' = sent k1 @ take m' (drop (offset + m) content)" "m' \<le> filesize - (offset + m)"
          "\<forall>n. r = Inr n \<longrightarrow> n = max (offset + m) filesize \<and> m' = filesize - (offset + m)"
          "accepts k1 = None \<longrightarrow> accepts k' = None \<and> (\<exists>n. r = Inr n)"
        by (elim exE conjE) (rule that)
      have "sent k' = sent k @ take (m + m') (drop offset content)"
        using rest(2) m(2) take_drop_append [OF m_le2] by simp
      moreover have "m + m' \<le> filesize - offset" using m_le1 rest(3) by simp
      moreover have "\<forall>n. r = Inr n \<longrightarrow> n = max offset filesize \<and> m + m' = filesize - offset"
      proof (rule allI, rule impI)
        fix x assume "r = Inr x"
        with rest(4) have "x = max (offset + m) filesize" "m' = filesize - (offset + m)" by simp_all
        with m_le1 True show "x = max offset filesize \<and> m + m' = filesize - offset" by simp
      qed
      moreover have "accepts k = None \<longrightarrow> accepts k' = None \<and> (\<exists>n. r = Inr n)" using m(4) rest(5) by blast
      moreover have "send_payload chunk content filesize offset k = Some (r, k')" using step rest(1) by simp
      ultimately show ?thesis by (intro exI conjI)
    qed
  qed
qed

subsection \<open>The contract of a growing file\<close>

lemma unat_succ:
  assumes "(w :: u64) \<noteq> - 1"
  shows "unat (w + 1) = Suc (unat w)"
proof -
  have "w + 1 \<noteq> 0" using assms eq_neg_iff_add_eq_0 [of w 1] by blast
  then show ?thesis using unatSuc [of w] by (simp add: add.commute)
qed

text \<open>
  What the loop needs of its source: \<open>delivered n\<close> says that the client has got everything up to
  \<open>n\<close>; asking for the size keeps it; a send that succeeds gets the client further;
  \<open>stopped e\<close> is what is left of it after the error \<open>e\<close>.
\<close>

locale growing_file =
  fixes src :: "'s growing_file_source" and delivered :: "u64 \<Rightarrow> 's \<Rightarrow> bool" 
    and stopped :: "error_kind \<Rightarrow> 's \<Rightarrow> bool"
  assumes delivered_stopped: "delivered n s \<Longrightarrow> stopped TimedOut s"
    and size_fails: "delivered n s \<Longrightarrow> current_filesize src s = (Inl e, s1) \<Longrightarrow> stopped e s1"
    and size_keeps: "delivered n s \<Longrightarrow> current_filesize src s = (Inr filesize, s1) \<Longrightarrow> delivered n s1"
    and send_returns: "delivered n s \<Longrightarrow> current_filesize src s = (Inr filesize, s1) \<Longrightarrow> n < filesize \<Longrightarrow>
      \<exists>r s2. send_from src filesize n s1 = Some (r, s2) \<and>
        (case r of Inl e \<Rightarrow> stopped e s2 | Inr m \<Rightarrow> n < m \<and> delivered m s2)"
begin

lemma serve_loop_returns:
  assumes "delivered n s" and "polls = 0 \<or> polls < max_polls"
  shows "\<exists>result sleeps' s'. serve_loop src complete max_polls n polls sleeps s = Some ((result, sleeps'), s') \<and>
    (case result of None \<Rightarrow> \<exists>m. complete \<le> m \<and> delivered m s' | Some e \<Rightarrow> stopped e s')"
  using assms
proof (induction "(unat complete - unat n, unat max_polls - unat polls)"
    arbitrary: n polls sleeps s rule: wf_induct_rule [OF wf_lex_prod [OF wf_less wf_less]])
  case (1 n polls sleeps s)
  show ?case
  proof (cases "n < complete")
    case False
    then have "serve_loop src complete max_polls n polls sleeps s = Some ((None, sleeps), s)"
      by (subst serve_loop.simps) simp
    with False 1(2) show ?thesis by (auto simp: not_less)
  next
    case True
    obtain r s1 where size: "current_filesize src s = (r, s1)" by fastforce
    show ?thesis
    proof (cases r)
      case (Inl e)
      with size True have "serve_loop src complete max_polls n polls sleeps s = Some ((Some e, sleeps), s1)"
        by (subst serve_loop.simps) simp
      with size_fails [OF 1(2)] size Inl show ?thesis by simp
    next
      case (Inr filesize)
      note size = size [unfolded Inr]
      show ?thesis
      proof (cases "n < filesize")
        case more: True
        obtain r2 s2 where send: "send_from src filesize n s1 = Some (r2, s2)"
          and r2: "case r2 of Inl e \<Rightarrow> stopped e s2 | Inr m \<Rightarrow> n < m \<and> delivered m s2"
          using send_returns [OF 1(2) size more] by blast
        show ?thesis
        proof (cases r2)
          case (Inl e)
          have "serve_loop src complete max_polls n polls sleeps s = Some ((Some e, sleeps), s2)"
            using size send Inl True more by (subst serve_loop.simps) simp
          with r2 Inl show ?thesis by simp
        next
          case (Inr m)
          with r2 have m: "n < m" "delivered m s2" by simp_all
          let ?sleeps = "if m < complete then Suc sleeps else sleeps"
          have step: "serve_loop src complete max_polls n polls sleeps s =
              serve_loop src complete max_polls m 0 ?sleeps s2"
            using size send Inr True more by (subst serve_loop.simps) simp
          have "unat complete - unat m < unat complete - unat n"
            using m(1) True by (simp add: word_less_nat_alt)
          then show ?thesis unfolding step using 1(1) [of m 0 s2 ?sleeps] m(2) by simp
        qed
      next
        case wait: False
        show ?thesis
        proof (cases "max_polls \<le> polls + 1")
          case stall: True
          have "serve_loop src complete max_polls n polls sleeps s = Some ((Some TimedOut, sleeps), s1)"
            using size True wait stall by (subst serve_loop.simps) simp
          with delivered_stopped [OF size_keeps [OF 1(2) size]] show ?thesis by simp
        next
          case again: False
          have step: "serve_loop src complete max_polls n polls sleeps s =
              serve_loop src complete max_polls n (polls + 1) (Suc sleeps) s1"
            using size True wait again by (subst serve_loop.simps) simp
          from again have next_less: "polls + 1 < max_polls" by simp
          then have "polls \<noteq> - 1" using 1(3) by auto
          then have "unat (polls + 1) = Suc (unat polls)"
            by (rule unat_succ)
          then have "unat max_polls - unat (polls + 1) < unat max_polls - unat polls"
            using next_less by (simp add: word_less_nat_alt)
          then show ?thesis unfolding step
            using 1(1) [of n "polls + 1" s1 "Suc sleeps"] size_keeps [OF 1(2) size] next_less by simp
        qed
      qed
    qed
  qed
qed

lemma loop_returns:
  assumes "delivered resume s"
  shows "\<exists>result sleeps s'. serve_growing_file_loop src resume content_length max_polls s = Some ((result, sleeps), s') \<and>
    (case result of None \<Rightarrow> \<exists>m. content_length + resume \<le> m \<and> delivered m s' | Some e \<Rightarrow> stopped e s')"
  unfolding serve_growing_file_loop_def using serve_loop_returns [OF assms, of 0] by simp

end

subsection \<open>The growing file on disk keeps the contract\<close>

text \<open>The file holds more and more of \<open>F\<close>, and is small enough for a file system.\<close>

definition grows_to :: "(nat \<Rightarrow> string) \<Rightarrow> string \<Rightarrow> bool" where
  "grows_to grow F \<longleftrightarrow> (\<forall>t. grow t = take (length (grow t)) F) \<and>
     (\<forall>t. length (grow t) \<le> length (grow (Suc t))) \<and> length F < 2 ^ 63"

definition client_has :: "string \<Rightarrow> string \<Rightarrow> nat \<Rightarrow> nat \<Rightarrow> socket \<Rightarrow> bool" where
  "client_has F base r n k \<longleftrightarrow> sent k = base @ drop r (take n F)"

definition client_delivered ::
  "(nat \<Rightarrow> nat \<Rightarrow> nat) \<Rightarrow> (nat \<Rightarrow> string) \<Rightarrow> string \<Rightarrow> string \<Rightarrow> nat \<Rightarrow> bool \<Rightarrow> u64 \<Rightarrow> client_file_source \<Rightarrow> bool" where
  "client_delivered chunk grow F base r patient n s \<longleftrightarrow>
     moves_bytes chunk \<and> grows_to grow F \<and> r \<le> unat n \<and> client_has F base r (unat n) (client s) \<and>
     (patient \<longrightarrow> accepts (client s) = None)"

definition client_stopped :: "string \<Rightarrow> string \<Rightarrow> nat \<Rightarrow> bool \<Rightarrow> error_kind \<Rightarrow> client_file_source \<Rightarrow> bool" where
  "client_stopped F base r patient e s \<longleftrightarrow>
     (\<exists>n. client_has F base r n (client s)) \<and> (patient \<longrightarrow> e = TimedOut)"

lemma unat_len_u64: "length s < 2 ^ 63 \<Longrightarrow> unat (len_u64 s) = length s"
  by (simp add: len_u64_def unat_of_nat take_bit_nat_def)

lemma grows_to_length: "grows_to grow F \<Longrightarrow> length (grow t) \<le> length F"
  unfolding grows_to_def by (metis length_take min.cobounded1)

lemma client_has_more:
  assumes "client_has F base r n k" and "r \<le> n" and "n \<le> l" and "l \<le> length c" and "c = take (length c) F"
    and "sent k' = sent k @ take m (drop n c)" and "m \<le> l - n"
  shows "client_has F base r (n + m) k'"
proof -
  have "drop n c = take (length c - n) (drop n F)" by (subst assms(5)) (rule drop_take)
  then have "take m (drop n c) = take m (drop n F)" using assms(3,4,7) by (simp add: min_def)
  then have "sent k' = base @ drop r (take n F) @ take m (drop n F)"
    using assms(1,6) by (simp add: client_has_def)
  moreover have "drop r (take (n + m) F) = drop r (take n F) @ take m (drop n F)"
  proof (cases "n \<le> length F")
    case True
    with assms(2) show ?thesis by (simp add: take_add)
  qed simp
  ultimately show ?thesis by (simp add: client_has_def)
qed

lemma client_send_returns:
  assumes "client_delivered chunk grow F base r patient n s"
    and "current_filesize (client_source chunk grow) s = (Inr filesize, s1)" and "n < filesize"
  shows "\<exists>res s2. send_from (client_source chunk grow) filesize n s1 = Some (res, s2) \<and>
    (case res of Inl e \<Rightarrow> client_stopped F base r patient e s2
     | Inr m \<Rightarrow> n < m \<and> client_delivered chunk grow F base r patient m s2)"
proof -
  let ?t = "polls_done s"
  let ?c = "grow (Suc ?t)"
  have size: "filesize = len_u64 (grow ?t)" and s1: "s1 = s\<lparr>polls_done := Suc ?t\<rparr>"
    using assms(2) by (auto simp: client_source_def)
  have moves: "moves_bytes chunk" and grows: "grows_to grow F" and le: "r \<le> unat n"
    and has: "client_has F base r (unat n) (client s)" and patient: "patient \<Longrightarrow> accepts (client s) = None"
    using assms(1) by (simp_all add: client_delivered_def)
  have "length (grow ?t) < 2 ^ 63"
    using grows_to_length [OF grows, of ?t] grows by (simp add: grows_to_def)
  then have unat_size: "unat filesize = length (grow ?t)" unfolding size by (rule unat_len_u64)
  then have fits: "unat filesize \<le> length ?c" using grows by (simp add: grows_to_def)
  obtain res k' m where send: "send_payload chunk ?c (unat filesize) (unat n) (client s) = Some (res, k')"
    "sent k' = sent (client s) @ take m (drop (unat n) ?c)" "m \<le> unat filesize - unat n"
    "\<forall>x. res = Inr x \<longrightarrow> x = max (unat n) (unat filesize) \<and> m = unat filesize - unat n"
    "accepts (client s) = None \<longrightarrow> accepts k' = None \<and> (\<exists>n. res = Inr n)"
    using send_payload_returns [OF moves fits, of "unat n" "client s"] by (elim exE conjE) (rule that)
  have n_le: "unat n < unat filesize" using assms(3) by (simp add: word_less_nat_alt)
  have prefix: "?c = take (length ?c) F" using grows by (simp add: grows_to_def)
  have has': "client_has F base r (unat n + m) k'"
    by (rule client_has_more [OF has le _ fits prefix send(2,3)]) (use n_le in simp)
  have returns: "send_from (client_source chunk grow) filesize n s1 =
      Some (map_sum id of_nat res, s1\<lparr>client := k'\<rparr>)"
    using send(1) by (simp add: client_source_def s1)
  show ?thesis
  proof (cases res)
    case (Inl e)
    with send(5) patient has' returns show ?thesis
      by (auto simp: client_stopped_def)
  next
    case (Inr x)
    with send(4) n_le have x: "x = unat filesize" "unat n + m = unat filesize" by simp_all
    have "client_delivered chunk grow F base r patient filesize (s1\<lparr>client := k'\<rparr>)"
      using moves grows le n_le has' x(2) patient send(5) by (simp add: client_delivered_def)
    with returns Inr x(1) assms(3) show ?thesis by simp
  qed
qed

interpretation client_file: growing_file "client_source chunk grow" "client_delivered chunk grow F base r patient"
    "client_stopped F base r patient" for chunk grow F base r patient
proof unfold_locales
  fix n s
  show "client_delivered chunk grow F base r patient n s \<Longrightarrow> client_stopped F base r patient TimedOut s"
    by (auto simp: client_delivered_def client_stopped_def)
next
  fix n s e s1
  show "current_filesize (client_source chunk grow) s = (Inl e, s1) \<Longrightarrow> client_stopped F base r patient e s1"
    by (simp add: client_source_def)
next
  fix n s size s1
  show "client_delivered chunk grow F base r patient n s \<Longrightarrow>
      current_filesize (client_source chunk grow) s = (Inr size, s1) \<Longrightarrow>
      client_delivered chunk grow F base r patient n s1"
    by (auto simp: client_source_def client_delivered_def)
qed (rule client_send_returns)

end
