(* ===== verification/Client.thy ===== *)
theory Client
  imports Serving Download
begin

section \<open>Serving a client (mirror\_flexo.rs, main.rs)\<close>

text \<open>
  From the bytes of a connection to the answer: the request header is read and parsed, the request
  is dispatched to the job context, and the answer is written to the socket. The crate
  \<open>httparse\<close> is a function from bytes to its result; \<open>serde_json\<close> is a function from the
  metrics to their text. What other threads do to the file system meanwhile is given by the file
  systems this thread sees, one for each of its looks (\<open>later\<close>).
\<close>

subsection \<open>Errors\<close>

datatype file_attr_error = Utf8Error | ParseError | FileAttrIoError error_kind | FileAttrTimeout

record client_status =
  response_headers_sent :: bool

datatype client_error =
    BufferSizeExceeded
  | ClientTimedOut
  | IoError error_kind
  | UnsupportedHttpMethod client_status
  | InvalidHeader client_status
  | OtherError error_kind
  | FileAttrError file_attr_error

definition no_response_headers_sent :: client_status where
  "no_response_headers_sent = \<lparr>response_headers_sent = False\<rparr>"

subsection \<open>The range header\<close>

text \<open>\<open>str::replace(p, "")\<close> for a pattern that is not empty.\<close>

function remove_all :: "string \<Rightarrow> string \<Rightarrow> string" where
  "remove_all p [] = []"
| "remove_all p (c # cs) =
     (case strip_prefix p (c # cs) of
        None \<Rightarrow> c # remove_all p cs
      | Some r \<Rightarrow> if p = [] then c # cs else remove_all p r)"
  by pat_completeness auto

termination
proof (relation "measure (\<lambda>(p, s). length s)")
  fix p r :: string and c :: char and cs :: string
  assume strip: "strip_prefix p (c # cs) = Some r" and p: "p \<noteq> []"
  have "c # cs = p @ r" using strip by (simp only: strip_prefix_Some_iff)
  then have "length (c # cs) = length p + length r" by (simp only: length_append)
  moreover have "0 < length p" using p by simp
  ultimately show "((p, r), p, c # cs) \<in> measure (\<lambda>(p, s). length s)" by simp
qed auto

definition parse_range_header_value :: "string \<Rightarrow> client_error + u64" where
  "parse_range_header_value s =
     (case split_char (CHR ''-'') (to_lowercase s) of
        [] \<Rightarrow> Inl (InvalidHeader no_response_headers_sent)
      | range_start # _ \<Rightarrow>
          (case parse_u64 (remove_all ''bytes='' range_start) of
             Some v \<Rightarrow> Inr v
           | None \<Rightarrow> Inl (InvalidHeader no_response_headers_sent)))"

subsection \<open>Requests\<close>

record http_request =
  hr_headers :: "(string \<times> string) list"
  hr_path :: "string option"
  hr_method :: "string option"

definition resume_from_headers :: "(string \<times> string) list \<Rightarrow> client_error + u64 option" where
  "resume_from_headers headers =
     (case List.find (\<lambda>(name, _). to_lowercase name = ''range'') headers of
        None \<Rightarrow> Inr None
      | Some (_, value) \<Rightarrow>
          (case from_utf8 value of
             None \<Rightarrow> Inl (InvalidHeader no_response_headers_sent)
           | Some v \<Rightarrow> map_sum id Some (parse_range_header_value v)))"

definition request_new :: "http_request \<Rightarrow> client_error + request" where
  "request_new r =
     (case resume_from_headers (hr_headers r) of
        Inl e \<Rightarrow> Inl e
      | Inr resume \<Rightarrow>
          (case hr_path r of
             None \<Rightarrow> Inl (InvalidHeader no_response_headers_sent)
           | Some p \<Rightarrow>
               (case hr_method r of
                  None \<Rightarrow> Inl (InvalidHeader no_response_headers_sent)
                | Some m \<Rightarrow>
                    if m = ''GET'' then
                      Inr \<lparr>resume_from = resume, path = str_path_new p, request_method = Get\<rparr>
                    else if m = ''POST'' \<and> p = ''/reset-metrics'' then
                      Inr \<lparr>resume_from = resume, path = str_path_new p, request_method = Post\<rparr>
                    else Inl (UnsupportedHttpMethod no_response_headers_sent))))"

subsection \<open>Reading the header\<close>

definition MAX_HEADER_SIZE :: nat where
  "MAX_HEADER_SIZE = 8192"

datatype request_parse = RequestComplete http_request | RequestPartial | RequestInvalid

datatype client_response = ClientRequest request | SocketClosed

text \<open>
  \<open>Read::read\<close> with a buffer of \<open>n\<close> bytes on a connection: what arrives is a list of
  errors and packets; a packet longer than the buffer is read in parts; nothing more is the end of the
  stream.
\<close>

type_synonym inbound = "(error_kind + string) list"

fun read_stream :: "nat \<Rightarrow> inbound \<Rightarrow> (error_kind + string) \<times> inbound" where
  "read_stream n [] = (Inr '''', [])"
| "read_stream n (Inl e # rs) = (Inl e, rs)"
| "read_stream n (Inr s # rs) =
     (if length s \<le> n then (Inr s, rs) else (Inr (take n s), Inr (drop n s) # rs))"

function read_header_loop ::
  "(string \<Rightarrow> request_parse) \<Rightarrow> string \<Rightarrow> inbound \<Rightarrow> (client_error + client_response) \<times> inbound" where
  "read_header_loop parse buf rs =
     (if MAX_HEADER_SIZE \<le> length buf then (Inl BufferSizeExceeded, rs)
      else
        (case read_stream (MAX_HEADER_SIZE + 1 - length buf) rs of
           (Inl e, rs') \<Rightarrow>
             (Inl (case e of TimedOut \<Rightarrow> ClientTimedOut | WouldBlock \<Rightarrow> ClientTimedOut | _ \<Rightarrow> OtherError e), rs')
         | (Inr s, rs') \<Rightarrow>
             if s = '''' then (Inr SocketClosed, rs')
             else if MAX_HEADER_SIZE < length s then (Inl BufferSizeExceeded, rs')
             else
               (case parse (buf @ s) of
                  RequestComplete r \<Rightarrow> (map_sum id ClientRequest (request_new r), rs')
                | RequestPartial \<Rightarrow> read_header_loop parse (buf @ s) rs'
                | RequestInvalid \<Rightarrow> (Inl (InvalidHeader \<lparr>response_headers_sent = False\<rparr>), rs'))))"
  by pat_completeness auto

termination
  by (relation "measure (\<lambda>(parse, buf, rs). MAX_HEADER_SIZE - length buf)") (auto simp flip: length_greater_0_conv)

declare read_header_loop.simps [simp del]

definition read_client_header ::
  "(string \<Rightarrow> request_parse) \<Rightarrow> inbound \<Rightarrow> (client_error + client_response) \<times> inbound" where
  "read_client_header parse rs = read_header_loop parse '''' rs"

subsection \<open>What the downloading thread says\<close>

datatype recv_timeout_error = RecvTimeout | Disconnected

datatype content_length_error =
    TransmissionError recv_timeout_error | ContentUnavailable | ContentOrderError

datatype content_length_result = ContentLength u64 | AlreadyCached

text \<open>The messages received in time, and how the waiting ends when there are no more.\<close>

definition receive_content_length ::
  "flexo_progress list \<Rightarrow> recv_timeout_error \<Rightarrow> (content_length_error + content_length_result) panics" where
  "receive_content_length received e =
     (case received of
        [] \<Rightarrow> Some (Inl (TransmissionError e))
      | JobSize n # _ \<Rightarrow> Some (Inr (ContentLength n))
      | Completed # _ \<Rightarrow> Some (Inr AlreadyCached)
      | ProgressUnavailable # _ \<Rightarrow> Some (Inl ContentUnavailable)
      | ProgressOrderError # _ \<Rightarrow> Some (Inl ContentOrderError)
      | Progress _ # _ \<Rightarrow> None)"

text \<open>The loop looks at the file system at most 2000 times; the moment of its last look is returned.\<close>

fun complete_filesize_loop ::
  "nat \<Rightarrow> nat \<Rightarrow> (nat \<Rightarrow> file_system) \<Rightarrow> component list \<Rightarrow> (file_attr_error + u64) \<times> nat" where
  "complete_filesize_loop 0 t later p = (Inl FileAttrTimeout, t)"
| "complete_filesize_loop (Suc attempts) t later p =
     (case get_complete_size_from_cfs_file (later t) p of
        None \<Rightarrow> complete_filesize_loop attempts (Suc t) later p
      | Some v \<Rightarrow> (Inr v, t))"

definition try_complete_filesize_from_path ::
  "(nat \<Rightarrow> file_system) \<Rightarrow> component list \<Rightarrow> (file_attr_error + u64) \<times> nat" where
  "try_complete_filesize_from_path later p = complete_filesize_loop 2000 0 later p"

end
