(* ===== verification/Serve_Request.thy ===== *)
theory Serve_Request
  imports Client Job_Context
begin

section \<open>Dispatching requests and serving connections (main.rs)\<close>

text \<open>
  One request is dispatched to the job context and answered; one connection is a loop of requests;
  after it the cache may be purged. None is a panic, which ends the process, or a loop that does not
  return.
\<close>

type_synonym flexo_context =
  "(download_provider, download_order, download_channel, download_job_error, download_world) job_context"

text \<open>
  What a request meets: how \<open>sendfile\<close> cuts, the formatted date, the identifier drawn for an
  uncacheable order, the file systems seen after scheduling, the messages of the downloading thread
  that arrive in time, and the text of the metrics.
\<close>

record surroundings =
  chunk :: "nat \<Rightarrow> nat \<Rightarrow> nat"
  date :: string
  fresh_uuid :: uuid
  later :: "nat \<Rightarrow> file_system"
  received :: "flexo_progress list"
  receive_end :: recv_timeout_error
  json_of :: "metrics_map \<Rightarrow> string"

type_synonym answer = "(client_error + payload_origin) \<times> socket"

subsection \<open>Answers\<close>

text \<open>The \<open>?\<close> operator on a result of the socket, then the origin.\<close>

definition answered :: "payload_origin \<Rightarrow> error_kind option \<times> socket \<Rightarrow> answer" where
  "answered origin r = (case fst r of Some e \<Rightarrow> Inl (IoError e) | None \<Rightarrow> Inr origin, snd r)"

definition serve_404_header :: "string \<Rightarrow> socket \<Rightarrow> error_kind option \<times> socket" where
  "serve_404_header now k = write_all (reply_header_not_found now) k"

definition serve_400_header :: "string \<Rightarrow> socket \<Rightarrow> error_kind option \<times> socket" where
  "serve_400_header now k = write_all (reply_header_bad_request now) k"

definition serve_500_header :: "string \<Rightarrow> socket \<Rightarrow> error_kind option \<times> socket" where
  "serve_500_header now k = write_all (reply_header_internal_server_error now) k"

definition serve_403_header :: "string \<Rightarrow> socket \<Rightarrow> error_kind option \<times> socket" where
  "serve_403_header now k = write_all (reply_header_forbidden now) k"

text \<open>
  \<open>File::open(order.filepath(..))\<close> at a moment: the directory of an uncacheable order is created
  first. An open file shows what it holds at every later moment.
\<close>

definition open_order_file ::
  "mirror_config \<Rightarrow> download_order \<Rightarrow> file_system \<Rightarrow> (error_kind + node) panics" where
  "open_order_file cfg ord fs =
     map_option (\<lambda>fs'. open_read fs' (file_key cfg ord)) (filepath_mkdir ord fs)"

definition contents_at :: "component list \<Rightarrow> file_system \<Rightarrow> string" where
  "contents_at p fs = (case nodes fs p of Some (FileNode s) \<Rightarrow> s | _ \<Rightarrow> '''')"

definition answer_growing ::
  "surroundings \<Rightarrow> mirror_config \<Rightarrow> download_order \<Rightarrow> nat \<Rightarrow> u64 \<Rightarrow> u64 option \<Rightarrow> socket \<Rightarrow> answer panics" where
  "answer_growing env cfg ord moment complete_filesize resume k =
     (case open_order_file cfg ord (later env moment) of
        None \<Rightarrow> None
      | Some (Inl e) \<Rightarrow> Some (Inl (IoError e), k)
      | Some (Inr _) \<Rightarrow>
          map_option (answered RemoteMirror)
            (serve_from_growing_file (chunk env) (date env)
               (\<lambda>t. contents_at (file_key cfg ord) (later env (moment + t)))
               (remaining_content_length complete_filesize resume) resume k))"

definition answer_complete ::
  "surroundings \<Rightarrow> mirror_config \<Rightarrow> download_order \<Rightarrow> u64 option \<Rightarrow> socket \<Rightarrow> answer panics" where
  "answer_complete env cfg ord resume k =
     (case open_order_file cfg ord (later env 0) of
        None \<Rightarrow> None
      | Some (Inl e) \<Rightarrow> Some (Inl (IoError e), k)
      | Some (Inr n) \<Rightarrow>
          map_option (\<lambda>(r, k'). (case r of Inl e \<Rightarrow> Inl (IoError e) | Inr _ \<Rightarrow> Inr FromCache, k'))
            (serve_from_complete_file (chunk env) (date env) (later env 0) n resume k))"

subsection \<open>The outcome of scheduling\<close>

definition answer_in_progress ::
  "surroundings \<Rightarrow> mirror_config \<Rightarrow> download_order \<Rightarrow> u64 option \<Rightarrow> socket \<Rightarrow> answer panics" where
  "answer_in_progress env cfg ord resume k =
     (case try_complete_filesize_from_path (later env) (file_key cfg ord) of
        (Inl e, _) \<Rightarrow> Some (Inl (FileAttrError e), k)
      | (Inr complete_filesize, moment) \<Rightarrow> answer_growing env cfg ord moment complete_filesize resume k)"

definition answer_scheduled ::
  "surroundings \<Rightarrow> mirror_config \<Rightarrow> download_order \<Rightarrow> u64 option \<Rightarrow> socket \<Rightarrow> answer panics" where
  "answer_scheduled env cfg ord resume k =
     (case receive_content_length (received env) (receive_end env) of
        None \<Rightarrow> None
      | Some (Inr (ContentLength complete_filesize)) \<Rightarrow>
          answer_growing env cfg ord 0 complete_filesize resume k
      | Some (Inr AlreadyCached) \<Rightarrow> answer_complete env cfg ord resume k
      | Some (Inl ContentUnavailable) \<Rightarrow> Some (answered NoPayload (serve_404_header (date env) k))
      | Some (Inl ContentOrderError) \<Rightarrow> Some (answered NoPayload (serve_400_header (date env) k))
      | Some (Inl (TransmissionError Disconnected)) \<Rightarrow>
          Some (answered NoPayload (serve_500_header (date env) k))
      | Some (Inl (TransmissionError RecvTimeout)) \<Rightarrow>
          Some (answered NoPayload (serve_500_header (date env) k)))"

definition answer_outcome ::
  "surroundings \<Rightarrow> mirror_config \<Rightarrow> download_order \<Rightarrow> u64 option \<Rightarrow>
    download_provider schedule_outcome \<Rightarrow> socket \<Rightarrow> answer panics" where
  "answer_outcome env cfg ord resume out k =
     (case out of
        AlreadyInProgress \<Rightarrow> answer_in_progress env cfg ord resume k
      | Scheduled _ \<Rightarrow> answer_scheduled env cfg ord resume k
      | Cached \<Rightarrow> answer_complete env cfg ord resume k
      | Uncacheable h \<Rightarrow>
          Some (answered NoPayload
            (serve_via_redirect (date env)
              (uri_from_components (uri (handle_provider h)) (inner (requested_path ord))) k)))"

subsection \<open>One request\<close>

text \<open>The outcome goes out of scope after the answer, and with it the guard of a redirection.\<close>

fun drop_outcome :: "download_provider schedule_outcome \<Rightarrow> flexo_context \<Rightarrow> flexo_context" where
  "drop_outcome (Uncacheable h) c = release_guard h c"
| "drop_outcome _ c = c"

lemma drop_outcome_frame [simp]:
  "orders_in_progress (drop_outcome out c) = orders_in_progress c" "threads (drop_outcome out c) = threads c"
  "metrics (ctx_shared (drop_outcome out c)) = metrics (ctx_shared c)"
  "world (ctx_shared (drop_outcome out c)) = world (ctx_shared c)"
  by (cases out; simp)+

abbreviation configured_repos :: "mirror_config \<Rightarrow> custom_repo list" where
  "configured_repos cfg \<equiv> (case custom_repos cfg of None \<Rightarrow> [] | Some rs \<Rightarrow> rs)"

definition special_path :: "request \<Rightarrow> bool" where
  "special_path req \<longleftrightarrow> inner (path req) = ''status'' \<or> inner (path req) = ''metrics'' \<or>
     (inner (path req) = ''reset-metrics'' \<and> request_method req = Post)"

definition serve_request ::
  "libs \<Rightarrow> mirror_config \<Rightarrow> surroundings \<Rightarrow> request \<Rightarrow> flexo_context \<Rightarrow> socket \<Rightarrow>
    (answer \<times> flexo_context) panics" where
  "serve_request lib cfg env get_request c k =
     (case custom_provider_from_request get_request
             (case custom_repos cfg of None \<Rightarrow> [] | Some rs \<Rightarrow> rs) of
        (custom_provider, req) \<Rightarrow>
          (if \<not> permitted_path (path_buf (path req)) then
             Some (answered NoPayload (serve_403_header (date env) k), c)
           else if \<not> valid_path (path_buf (path req)) then
             Some (answered NoPayload (serve_400_header (date env) k), c)
           else if inner (path req) = ''status'' then
             Some (answered NoPayload (serve_200_ok_empty (date env) k), c)
           else if inner (path req) = ''metrics'' then
             (let serialized = json_of env (metrics (ctx_shared c))
              in case serve_200_ok_body (date env) serialized k of
                   (Some e, k1) \<Rightarrow> Some ((Inl (IoError e), k1), c)
                 | (None, k1) \<Rightarrow> Some (answered NoPayload (write_all serialized k1), c))
           else if inner (path req) = ''reset-metrics'' \<and> request_method req = Post then
             Some (answered NoPayload (serve_200_ok_empty (date env) k), reset_provider_metrics c)
           else
             (let ord = download_order_new (fresh_uuid env) (path req)
              in case try_schedule (download_trait lib cfg) ord custom_provider (resume_from req) c of
                   None \<Rightarrow> None
                 | Some (out, c') \<Rightarrow>
                     map_option (\<lambda>a. (a, drop_outcome out c'))
                       (answer_outcome env cfg ord (resume_from req) out k))))"

subsection \<open>Errors of a connection\<close>

text \<open>The result, whether the socket is shut down, and the socket.\<close>

definition handle_client_error ::
  "string \<Rightarrow> client_error \<Rightarrow> socket \<Rightarrow> client_error option \<times> bool \<times> socket" where
  "handle_client_error now client_error k =
     (let bad_request = (\<lambda>status.
            if response_headers_sent status then (None, False, k)
            else (case serve_400_header now k of
                    (Some e, k') \<Rightarrow> (Some (IoError e), False, k')
                  | (None, k') \<Rightarrow> (None, False, k')))
      in case client_error of
           UnsupportedHttpMethod status \<Rightarrow> bad_request status
         | InvalidHeader status \<Rightarrow> bad_request status
         | e \<Rightarrow> (Some e, True, k))"

subsection \<open>One connection\<close>

text \<open>
  The n-th request meets \<open>env n\<close>, after the other threads have changed the context (\<open>others n\<close>).
  The result is an error or whether the cache was tainted.
\<close>

partial_function (option) serve_client_loop ::
  "libs \<Rightarrow> mirror_config \<Rightarrow> (string \<Rightarrow> request_parse) \<Rightarrow> (nat \<Rightarrow> surroundings) \<Rightarrow>
    (nat \<Rightarrow> flexo_context \<Rightarrow> flexo_context) \<Rightarrow> nat \<Rightarrow> bool \<Rightarrow> inbound \<Rightarrow> flexo_context \<Rightarrow> socket \<Rightarrow>
    ((client_error + bool) \<times> flexo_context \<times> socket) option" where
  "serve_client_loop lib cfg parse env others n cache_tainted rs c k =
     (case read_client_header parse rs of
        (Inr (ClientRequest req), rs') \<Rightarrow>
          Option.bind (serve_request lib cfg (env n) req (others n c) k) (\<lambda>((r, k'), c').
            (case r of
               Inr origin \<Rightarrow>
                 serve_client_loop lib cfg parse env others (Suc n)
                   (cache_tainted \<or> origin = RemoteMirror) rs' c' k'
             | Inl e \<Rightarrow>
                 (case handle_client_error (date (env n)) e k' of
                    (Some e', _, k'') \<Rightarrow> Some (Inl e', c', k'')
                  | (None, _, k'') \<Rightarrow> Some (Inr cache_tainted, c', k''))))
      | (Inr SocketClosed, _) \<Rightarrow> Some (Inr cache_tainted, others n c, k)
      | (Inl e, _) \<Rightarrow>
          (case handle_client_error (date (env n)) e k of
             (Some e', _, k') \<Rightarrow> Some (Inl e', others n c, k')
           | (None, _, k') \<Rightarrow> Some (Inr cache_tainted, others n c, k')))"

definition serve_client ::
  "libs \<Rightarrow> mirror_config \<Rightarrow> (string \<Rightarrow> request_parse) \<Rightarrow> (nat \<Rightarrow> surroundings) \<Rightarrow>
    (nat \<Rightarrow> flexo_context \<Rightarrow> flexo_context) \<Rightarrow> inbound \<Rightarrow> flexo_context \<Rightarrow> socket \<Rightarrow>
    ((client_error + bool) \<times> flexo_context \<times> socket) option" where
  "serve_client lib cfg parse env others rs c k = serve_client_loop lib cfg parse env others 0 False rs c k"

subsection \<open>After a connection\<close>

text \<open>
  The external command is a function of its environment and the file system; a command that cannot be
  run is one that changes nothing, since its result is only logged.
\<close>

type_synonym command = "(string \<times> string) list \<Rightarrow> file_system \<Rightarrow> file_system"

definition purge_cache :: "command \<Rightarrow> string \<Rightarrow> u32 \<Rightarrow> file_system \<Rightarrow> file_system" where
  "purge_cache flexo_purge_cache directory retain fs =
     flexo_purge_cache [(''FLEXO_CACHE_DIRECTORY'', directory),
       (''FLEXO_NUM_VERSIONS_RETAIN'', show_nat (unat retain))] fs"

text \<open>
  The thread of a connection purges when the cache was tainted and versions are to be dropped.
  Uncacheable files that are stale always go.
\<close>

definition after_client ::
  "mirror_config \<Rightarrow> command \<Rightarrow> (file_system \<Rightarrow> component list list) \<Rightarrow>
    (component list \<Rightarrow> duration option) \<Rightarrow> (file_system \<Rightarrow> component list list) \<Rightarrow>
    client_error + bool \<Rightarrow> file_system \<Rightarrow> file_system panics" where
  "after_client cfg flexo_purge_cache glob_cfs age glob_uncacheable cache_tainted_result fs =
     map_option (\<lambda>fs'. snd (purge_uncacheable_paths age (glob_uncacheable fs') fs'))
       (case (cache_tainted_result, num_versions_retain cfg) of
          (Inr True, Some v) \<Rightarrow>
            if v = 0 then Some fs
            else purge_cfs_files glob_cfs (purge_cache flexo_purge_cache (cache_directory cfg) v fs)
        | _ \<Rightarrow> Some fs)"

text \<open>The thread that \<open>main\<close> spawns for a connection.\<close>

definition connection_thread ::
  "libs \<Rightarrow> mirror_config \<Rightarrow> (string \<Rightarrow> request_parse) \<Rightarrow> (nat \<Rightarrow> surroundings) \<Rightarrow>
    (nat \<Rightarrow> flexo_context \<Rightarrow> flexo_context) \<Rightarrow> command \<Rightarrow>
    (file_system \<Rightarrow> component list list) \<Rightarrow> (component list \<Rightarrow> duration option) \<Rightarrow>
    (file_system \<Rightarrow> component list list) \<Rightarrow> inbound \<Rightarrow> flexo_context \<Rightarrow> socket \<Rightarrow>
    (flexo_context \<times> socket) option" where
  "connection_thread lib cfg parse env others flexo_purge_cache glob_cfs age glob_uncacheable rs c k =
     Option.bind (serve_client lib cfg parse env others rs c k) (\<lambda>(cache_tainted_result, c', k').
       map_option
         (\<lambda>fs. (c'\<lparr>ctx_shared := (ctx_shared c')\<lparr>world := (world (ctx_shared c'))\<lparr>files := fs\<rparr>\<rparr>\<rparr>, k'))
         (after_client cfg flexo_purge_cache glob_cfs age glob_uncacheable cache_tainted_result
            (files (world (ctx_shared c')))))"

end
