(* ===== verification/Mirror_Selection.thy ===== *)
theory Mirror_Selection
  imports Download_Order
begin

section \<open>Fetching and rating mirrors (mirror\_fetch.rs, mirror\_flexo.rs)\<close>

text \<open>
  The list of mirrors as the JSON endpoint gives it, the mirrors that are usable, and their latency
  tests. The crates \<open>curl\<close> and \<open>serde_json\<close> and the operations on \<open>f64\<close> are
  arguments; an action that talks to the network is a function of the number of the call.
\<close>

subsection \<open>Mirrors\<close>

datatype mirror_protocol = Http | Https | Rsync | Ftp

record mirror_url_option =
  mo_url :: string
  mo_protocol :: "mirror_protocol option"
  mo_last_sync :: "string option"
  mo_completion_pct :: "f64 option"
  mo_delay :: "32 word option"
  mo_duration_avg :: "f64 option"
  mo_duration_stddev :: "f64 option"
  mo_score :: "f64 option"
  mo_country_code :: "string option"
  mo_ipv4 :: "bool option"
  mo_ipv6 :: "bool option"

record mirror =
  mirror_url :: string
  mirror_protocol :: mirror_protocol
  last_sync :: string
  completion_pct :: f64
  delay :: "32 word"
  duration_avg :: f64
  duration_stddev :: f64
  score :: u64
  mirror_country :: string
  mirror_ipv4 :: bool
  mirror_ipv6 :: bool

definition SCORE_SCALE :: u64 where
  "SCORE_SCALE = 1000000000000000"

text \<open>Every \<open>?\<close> is a bind: a mirror with a missing value is dropped.\<close>

definition mirror_of_option :: "f64_ops \<Rightarrow> mirror_url_option \<Rightarrow> mirror option" where
  "mirror_of_option fl m =
     Option.bind (mo_protocol m) (\<lambda>protocol.
     Option.bind (mo_last_sync m) (\<lambda>sync.
     Option.bind (mo_completion_pct m) (\<lambda>pct.
     Option.bind (mo_delay m) (\<lambda>dly.
     Option.bind (mo_duration_avg m) (\<lambda>avg.
     Option.bind (mo_duration_stddev m) (\<lambda>stddev.
     Option.bind (mo_score m) (\<lambda>s.
     Option.bind (mo_country_code m) (\<lambda>country.
     Option.bind (mo_ipv4 m) (\<lambda>v4.
     Option.bind (mo_ipv6 m) (\<lambda>v6.
       Some \<lparr>mirror_url = mo_url m, mirror_protocol = protocol, last_sync = sync, completion_pct = pct,
         delay = dly, duration_avg = avg, duration_stddev = stddev,
         score = f64_to_u64 fl (f64_mul fl s (f64_of_u64 fl SCORE_SCALE)),
         mirror_country = country, mirror_ipv4 = v4, mirror_ipv6 = v6\<rparr>))))))))))"

definition mirror_list :: "f64_ops \<Rightarrow> mirror_url_option list \<Rightarrow> mirror list" where
  "mirror_list fl urls = List.map_filter (mirror_of_option fl) urls"

definition filter_predicate :: "f64_ops \<Rightarrow> mirrors_auto_config \<Rightarrow> mirror \<Rightarrow> bool" where
  "filter_predicate fl auto m \<longleftrightarrow>
     \<not> ((https_required auto \<and> mirror_protocol m \<noteq> Https) \<or>
        (auto_ipv4 auto \<and> \<not> mirror_ipv4 m) \<or>
        (auto_ipv6 auto \<and> \<not> mirror_ipv6 m) \<or>
        f64_less fl (max_score auto) (f64_div fl (f64_of_u64 fl (score m)) (f64_of_u64 fl SCORE_SCALE)) \<or>
        mirror_url m \<in> set (mirrors_blacklist auto))"

subsection \<open>Fetching\<close>

datatype mirror_fetch_error = DemarshallFetchError | FetchCurlError nat | FetchUtf8Error

definition INITIAL_CONNECTIVITY_NUM_ATTEMPTS :: nat where
  "INITIAL_CONNECTIVITY_NUM_ATTEMPTS = 8"

text \<open>
  \<open>try_num_attempts\<close>: \<open>action n\<close> is the n-th call. The result is that of the last call,
  together with how many calls were made.
\<close>

function try_attempts_from :: "nat \<Rightarrow> nat \<Rightarrow> (nat \<Rightarrow> 'e + 'a) \<Rightarrow> ('e + 'a) \<times> nat" where
  "try_attempts_from max_num_attempts num_attempts action =
     (case action (num_attempts - 1) of
        Inr v \<Rightarrow> (Inr v, num_attempts)
      | Inl reason \<Rightarrow>
          if num_attempts < max_num_attempts
          then try_attempts_from max_num_attempts (num_attempts + 1) action
          else (Inl reason, num_attempts))"
  by pat_completeness auto

termination
  by (relation "measure (\<lambda>(m, n, action). m - n)") auto

declare try_attempts_from.simps [simp del]

definition try_num_attempts :: "nat \<Rightarrow> (nat \<Rightarrow> 'e + 'a) \<Rightarrow> ('e + 'a) \<times> nat" where
  "try_num_attempts max_num_attempts action = try_attempts_from max_num_attempts 1 action"

text \<open>What one transfer from the endpoint delivers: the chunks of the body, or curl's error.\<close>

definition fetch_json ::
  "(nat \<Rightarrow> nat + string list) \<Rightarrow> mirror_fetch_error + string" where
  "fetch_json transfers =
     fst (try_num_attempts INITIAL_CONNECTIVITY_NUM_ATTEMPTS
       (\<lambda>n. case transfers n of
              Inl e \<Rightarrow> Inl (FetchCurlError e)
            | Inr chunks \<Rightarrow> (case from_utf8 (concat chunks) of None \<Rightarrow> Inl FetchUtf8Error | Some s \<Rightarrow> Inr s)))"

fun dedupe_mirrors :: "mirror list \<Rightarrow> mirror list \<Rightarrow> mirror list" where
  "dedupe_mirrors mirrors [] = mirrors"
| "dedupe_mirrors mirrors (m # ms) =
     (if list_ex (\<lambda>m'. mirror_url m' = mirror_url m) mirrors then dedupe_mirrors mirrors ms
      else dedupe_mirrors (mirrors @ [m]) ms)"

definition fetch_providers_from_json_endpoint ::
  "f64_ops \<Rightarrow> (string \<Rightarrow> mirror_url_option list option) \<Rightarrow> mirror_fetch_error + string \<Rightarrow>
    mirror_fetch_error + mirror list" where
  "fetch_providers_from_json_endpoint fl from_json json =
     (case json of
        Inl e \<Rightarrow> Inl e
      | Inr s \<Rightarrow>
          (case from_json s of
             None \<Rightarrow> Inl DemarshallFetchError
           | Some urls \<Rightarrow> Inr (dedupe_mirrors [] (mirror_list fl urls))))"

subsection \<open>Latency tests\<close>

text \<open>The options of a latency test, the header lines it receives, and how it ends.\<close>

record latency_test =
  lt_url :: string
  lt_nobody :: bool
  lt_follow_location :: bool
  lt_dns_cache_timeout :: duration
  lt_timeout :: duration
  lt_http11 :: bool
  lt_fail_on_error :: bool

record latency_transfer =
  lt_headers :: "string list"
  lt_result :: "nat + mirror_results"

text \<open>A callback that returns false ends a transfer with curl's write error.\<close>

definition CURLE_WRITE_ERROR :: nat where
  "CURLE_WRITE_ERROR = 23"

definition measure_latency ::
  "(latency_test \<Rightarrow> latency_transfer) \<Rightarrow> string \<Rightarrow> duration \<Rightarrow> nat + mirror_results" where
  "measure_latency perform_test url request_timeout =
     (let t = perform_test
            \<lparr>lt_url = url @ ''core/os/x86_64/core.db'', lt_nobody = True, lt_follow_location = True,
             lt_dns_cache_timeout = from_secs (3600 * 24), lt_timeout = request_timeout,
             lt_http11 = True, lt_fail_on_error = True\<rparr>
      in if list_ex (\<lambda>h. to_lowercase h = ''server: cloudflare'' @ [CHR 0x0D, CHR 0x0A]) (lt_headers t)
         then Inl CURLE_WRITE_ERROR
         else lt_result t)"

subsection \<open>Rating\<close>

datatype country_filter = AllCountries | SelectedCountries "string list"

datatype limit = NoLimit | Limit nat

fun includes_country :: "country_filter \<Rightarrow> string \<Rightarrow> bool" where
  "includes_country AllCountries code = True"
| "includes_country (SelectedCountries codes) code = list_ex (\<lambda>c. c = code) codes"

text \<open>
  The mirrors whose latency is tested, best score first (the sort is stable). \<open>test\<close> is the
  latency test of a URL with a time-out.
\<close>

definition candidate_mirrors ::
  "f64_ops \<Rightarrow> mirror list \<Rightarrow> mirrors_auto_config \<Rightarrow> country_filter \<Rightarrow> limit \<Rightarrow> mirror list" where
  "candidate_mirrors fl mirrors auto countries lim =
     (let filtered = filter (\<lambda>m. includes_country countries (mirror_country m))
            (filter (filter_predicate fl auto)
              (filter (\<lambda>m. mirror_protocol m = Http \<or> mirror_protocol m = Https) (sort_key score mirrors)))
      in case lim of NoLimit \<Rightarrow> filtered | Limit n \<Rightarrow> take n filtered)"

definition provider_of_mirror :: "mirror \<times> mirror_results \<Rightarrow> download_provider" where
  "provider_of_mirror mr =
     \<lparr>uri = mirror_url (fst mr), provider_name = mirror_url (fst mr), mirror_results = snd mr,
      country_code = mirror_country (fst mr)\<rparr>"

definition rated_providers ::
  "f64_ops \<Rightarrow> (string \<Rightarrow> duration \<Rightarrow> nat + mirror_results) \<Rightarrow> mirror list \<Rightarrow> mirrors_auto_config \<Rightarrow>
    country_filter \<Rightarrow> limit \<Rightarrow> download_provider list panics" where
  "rated_providers fl test mirrors auto countries lim =
     (let request_timeout = from_millis (unat (timeout auto));
          with_latencies = List.map_filter
            (\<lambda>m. case test (mirror_url m) request_timeout of Inl _ \<Rightarrow> None | Inr r \<Rightarrow> Some (m, r))
            (candidate_mirrors fl mirrors auto countries lim)
      in map_option (map provider_of_mirror)
           (sort_cmp (\<lambda>a b. mirror_results_cmp (snd a) (snd b)) with_latencies))"

definition LATENCY_TEST_NUM_ATTEMPTS :: nat where
  "LATENCY_TEST_NUM_ATTEMPTS = 5"

text \<open>\<open>test i\<close> is how the network behaves during attempt \<open>i\<close>.\<close>

fun retry_ratings ::
  "f64_ops \<Rightarrow> (nat \<Rightarrow> string \<Rightarrow> duration \<Rightarrow> nat + mirror_results) \<Rightarrow> mirror list \<Rightarrow> mirrors_auto_config \<Rightarrow>
    country_filter \<Rightarrow> limit \<Rightarrow> nat list \<Rightarrow> download_provider list panics" where
  "retry_ratings fl test mirrors auto countries lim [] = Some []"
| "retry_ratings fl test mirrors auto countries lim (i # is') =
     (let attempt_auto = (if i = 0 then auto else relax fl auto)
      in case rated_providers fl (test i) mirrors attempt_auto countries lim of
           None \<Rightarrow> None
         | Some providers \<Rightarrow>
             if providers \<noteq> [] then Some providers
             else retry_ratings fl test mirrors auto countries lim is')"

definition rated_providers_retry ::
  "f64_ops \<Rightarrow> (nat \<Rightarrow> string \<Rightarrow> duration \<Rightarrow> nat + mirror_results) \<Rightarrow> mirror list \<Rightarrow> mirrors_auto_config \<Rightarrow>
    country_filter \<Rightarrow> limit \<Rightarrow> download_provider list panics" where
  "rated_providers_retry fl test mirrors auto countries lim =
     retry_ratings fl test mirrors auto countries lim [0..<LATENCY_TEST_NUM_ATTEMPTS]"

end
