(* ===== verification/Startup.thy ===== *)
theory Startup
  imports Mirror_Selection Download Job_Context
begin

section \<open>Choosing the mirrors at start (mirror\_cache.rs, main.rs)\<close>

text \<open>
  The results of the latency tests are kept in a JSON file; at start the mirrors are fetched from the
  endpoint or one of its fallbacks, rated, and stored, or taken from that file. The crates
  \<open>serde_json\<close> and \<open>chrono\<close> are the fields of two records. Last comes \<open>main\<close> up to the listener,
  which reads the configuration, inspects the cache and creates the job context.
\<close>

subsection \<open>The file of the latency tests\<close>

record timestamped_download_providers =
  tdp_version :: "u32 option"
  tdp_timestamp :: string
  tdp_providers :: "download_provider list"

datatype demarshall_error = VersionMismatch | SerdeError | DemarshallIoError error_kind

text \<open>\<open>version_of\<close> reads the version only; None is a syntax error.\<close>

record json_lib =
  to_json :: "timestamped_download_providers \<Rightarrow> string"
  version_of :: "string \<Rightarrow> u32 option option"
  providers_of :: "string \<Rightarrow> timestamped_download_providers option"

definition DEFAULT_LATENCY_TEST_RESULTS_FILE :: string where
  "DEFAULT_LATENCY_TEST_RESULTS_FILE = ''/var/cache/flexo/state/latency_test_results.json''"

definition TIMESTAMPED_DOWNLOAD_PROVIDERS_VERSION :: u32 where
  "TIMESTAMPED_DOWNLOAD_PROVIDERS_VERSION = 3"

definition latency_test_results_file :: "mirror_config \<Rightarrow> string" where
  "latency_test_results_file cfg =
     (case mirrorlist_latency_test_results_file cfg of
        None \<Rightarrow> DEFAULT_LATENCY_TEST_RESULTS_FILE
      | Some p \<Rightarrow> p)"

text \<open>\<open>fs::write\<close>: open, truncate, write.\<close>

definition overwrite_file :: "component list \<Rightarrow> string \<Rightarrow> file_system \<Rightarrow> error_kind + file_system" where
  "overwrite_file p s fs =
     (case open_write True p fs of
        Inl e \<Rightarrow> Inl e
      | Inr fs' \<Rightarrow> append_file p s fs')"

definition store_latency_test_results ::
  "json_lib \<Rightarrow> string \<Rightarrow> mirror_config \<Rightarrow> download_provider list \<Rightarrow> file_system \<Rightarrow>
    (download_provider list \<times> file_system) panics" where
  "store_latency_test_results json now cfg providers fs =
     (let serialized = to_json json
            \<lparr>tdp_version = Some TIMESTAMPED_DOWNLOAD_PROVIDERS_VERSION, tdp_timestamp = now,
             tdp_providers = providers\<rparr>;
          p = components (latency_test_results_file cfg)
      in case create_parent p fs of
           None \<Rightarrow> None
         | Some fs1 \<Rightarrow>
             (case overwrite_file p serialized fs1 of
                Inl _ \<Rightarrow> None
              | Inr fs2 \<Rightarrow> Some (providers, fs2)))"

definition fetch_download_providers ::
  "json_lib \<Rightarrow> mirror_config \<Rightarrow> file_system \<Rightarrow> demarshall_error + timestamped_download_providers" where
  "fetch_download_providers json cfg fs =
     (case read_file fs (components (latency_test_results_file cfg)) of
        Inl e \<Rightarrow> Inl (DemarshallIoError e)
      | Inr contents \<Rightarrow>
          (case version_of json contents of
             None \<Rightarrow> Inl SerdeError
           | Some v \<Rightarrow>
               if v = Some TIMESTAMPED_DOWNLOAD_PROVIDERS_VERSION
               then (case providers_of json contents of None \<Rightarrow> Inl SerdeError | Some t \<Rightarrow> Inr t)
               else Inl VersionMismatch))"

subsection \<open>Age of the tests\<close>

text \<open>Times in nanoseconds since the epoch; \<open>from_std\<close> fails on durations chrono cannot hold.\<close>

record chrono_lib =
  parse_from_rfc3339 :: "string \<Rightarrow> int option"
  from_std :: "duration \<Rightarrow> int option"
  utc_now :: int

definition latency_tests_refresh_required ::
  "chrono_lib \<Rightarrow> (string \<Rightarrow> duration option) \<Rightarrow> mirror_config \<Rightarrow> timestamped_download_providers \<Rightarrow> bool" where
  "latency_tests_refresh_required ch parse_duration cfg tdp =
     (case parse_from_rfc3339 ch (tdp_timestamp tdp) of
        None \<Rightarrow> True
      | Some last_check \<Rightarrow>
          (case from_std ch (refresh_latency_tests_after parse_duration cfg) of
             None \<Rightarrow> True
           | Some refresh_after \<Rightarrow> refresh_after < utc_now ch - last_check))"

definition get_country_filter :: "download_provider list \<Rightarrow> nat \<Rightarrow> country_filter" where
  "get_country_filter prev_rated_providers n =
     SelectedCountries (map country_code (take n prev_rated_providers))"

subsection \<open>From the endpoint, or from the file\<close>

text \<open>
  What the start of the program meets: the crates, the latency tests of each attempt, and what each
  transfer from an endpoint delivers.
\<close>

record start_env =
  json :: json_lib
  chrono :: chrono_lib
  parse_duration :: "string \<Rightarrow> duration option"
  floats :: f64_ops
  latency_tests :: "nat \<Rightarrow> string \<Rightarrow> duration \<Rightarrow> nat + mirror_results"
  transfers :: "string \<Rightarrow> nat \<Rightarrow> nat + string list"
  mirrors_of_json :: "string \<Rightarrow> mirror_url_option list option"
  timestamp_now :: string

definition rated_mirrors ::
  "start_env \<Rightarrow> mirror_config \<Rightarrow> file_system \<Rightarrow> mirror list \<Rightarrow> country_filter \<Rightarrow>
    download_provider list panics" where
  "rated_mirrors env cfg fs mirror_urls countries =
     (case mirrors_auto cfg of
        None \<Rightarrow> None
      | Some auto \<Rightarrow>
          (case (case fetch_download_providers (json env) cfg fs of
                   Inl _ \<Rightarrow> (NoLimit, countries)
                 | Inr tdp \<Rightarrow>
                     if latency_tests_refresh_required (chrono env) (parse_duration env) cfg tdp
                     then (NoLimit, countries)
                     else (Limit (num_mirrors auto), get_country_filter (tdp_providers tdp) (num_mirrors auto))) of
             (lim, countries') \<Rightarrow>
               rated_providers_retry (floats env) (latency_tests env) mirror_urls auto countries' lim))"

definition mirrors_from_cache :: "start_env \<Rightarrow> mirror_config \<Rightarrow> file_system \<Rightarrow> download_provider list panics" where
  "mirrors_from_cache env cfg fs =
     (case fetch_download_providers (json env) cfg fs of Inl _ \<Rightarrow> None | Inr tdp \<Rightarrow> Some (tdp_providers tdp))"

text \<open>The fallbacks are tried in turn while the result is an error.\<close>

fun try_fallbacks ::
  "(string \<Rightarrow> mirror_fetch_error + mirror list) \<Rightarrow> mirror_fetch_error + mirror list \<Rightarrow> string list \<Rightarrow>
    mirror_fetch_error + mirror list" where
  "try_fallbacks fetch (Inl e) (u # us) = try_fallbacks fetch (fetch u) us"
| "try_fallbacks fetch r us = r"

definition endpoint :: "start_env \<Rightarrow> string \<Rightarrow> mirror_fetch_error + mirror list" where
  "endpoint env u =
     fetch_providers_from_json_endpoint (floats env) (mirrors_of_json env) (fetch_json (transfers env u))"

definition uncached_country_filter :: "mirror_config \<Rightarrow> country_filter" where
  "uncached_country_filter cfg =
     (case map_option allowed_countries (mirrors_auto cfg) of
        None \<Rightarrow> AllCountries
      | Some v \<Rightarrow> if v = [] then AllCountries else SelectedCountries v)"

definition fetch_auto :: "start_env \<Rightarrow> mirror_config \<Rightarrow> file_system \<Rightarrow> download_provider list panics" where
  "fetch_auto env cfg fs =
     (case mirrors_auto cfg of
        None \<Rightarrow> None
      | Some auto \<Rightarrow>
          (case try_fallbacks (endpoint env) (endpoint env (mirrors_status_json_endpoint auto))
                  (mirrors_status_json_endpoint_fallbacks auto) of
             Inr mirror_urls \<Rightarrow> rated_mirrors env cfg fs mirror_urls (uncached_country_filter cfg)
           | Inl _ \<Rightarrow> mirrors_from_cache env cfg fs))"

definition predefined_provider :: "string \<Rightarrow> download_provider" where
  "predefined_provider u =
     \<lparr>uri = u, provider_name = u, mirror_results = default_mirror_results, country_code = ''Unknown''\<rparr>"

definition configured_providers :: "start_env \<Rightarrow> mirror_config \<Rightarrow> file_system \<Rightarrow> download_provider list panics" where
  "configured_providers env cfg fs =
     (if selection_method cfg = Auto then fetch_auto env cfg fs
      else Some (map predefined_provider (mirrors_predefined cfg)))"

subsection \<open>The job context\<close>

datatype provider_selection_error = NoProviders

definition initialize_job_context ::
  "libs \<Rightarrow> start_env \<Rightarrow> mirror_config \<Rightarrow> download_world \<Rightarrow>
    (provider_selection_error +
      (download_provider, download_order, download_channel, download_job_error, download_world) job_context) panics" where
  "initialize_job_context lib env cfg w =
     (case configured_providers env cfg (files w) of
        None \<Rightarrow> None
      | Some providers \<Rightarrow>
          if providers = [] then Some (Inl NoProviders)
          else
            (case (case selection_method cfg of
                     Auto \<Rightarrow> store_latency_test_results (json env) (timestamp_now env) cfg providers (files w)
                   | Predefined \<Rightarrow> Some (providers, files w)) of
               None \<Rightarrow> None
             | Some (ps, fs) \<Rightarrow>
                 map_option Inr (job_context_new (download_trait lib cfg) ps (w\<lparr>files := fs\<rparr>))))"

subsection \<open>The start of the program\<close>

definition CONFIG_FILE :: string where
  "CONFIG_FILE = ''/etc/flexo/flexo.toml''"

text \<open>A file that cannot be read, or that the \<open>toml\<close> crate does not decode, is a panic.\<close>

definition mirror_config_from_toml ::
  "(string \<Rightarrow> mirror_config option) \<Rightarrow> file_system \<Rightarrow> mirror_config panics" where
  "mirror_config_from_toml toml fs =
     (case read_file fs (components CONFIG_FILE) of
        Inl _ \<Rightarrow> None
      | Inr contents \<Rightarrow> Option.bind (from_utf8 contents) toml)"

text \<open>The address \<open>main\<close> listens on.\<close>

definition listen_address :: "mirror_config \<Rightarrow> string" where
  "listen_address cfg =
     (case listen_ip_address cfg of None \<Rightarrow> ''0.0.0.0'' | Some a \<Rightarrow> a) @ '':'' @ show_nat (unat (port cfg))"

text \<open>
  \<open>main\<close> up to the listener: the configuration is loaded, the cache inspected, the job context
  created. Without providers the program exits (Inl). \<open>walk\<close> is what the directory walk yields.
\<close>

definition start_flexo ::
  "libs \<Rightarrow> start_env \<Rightarrow> toml_values \<Rightarrow> (string \<times> string) list \<Rightarrow> (string \<Rightarrow> mirror_config option) \<Rightarrow>
    (file_system \<Rightarrow> component list list panics) \<Rightarrow> download_world \<Rightarrow>
    (provider_selection_error + mirror_config \<times>
      (download_provider, download_order, download_channel, download_job_error, download_world) job_context) panics" where
  "start_flexo lib env tv vars toml walk w =
     (case load_config tv vars (mirror_config_from_toml toml (files w)) of
        None \<Rightarrow> None
      | Some cfg \<Rightarrow>
          (case inspect_and_initialize_cache cfg walk (files w) of
             None \<Rightarrow> None
           | Some (_, fs) \<Rightarrow>
               map_option (map_sum id (Pair cfg)) (initialize_job_context lib env cfg (w\<lparr>files := fs\<rparr>))))"

end
