(* ===== verification/Program.thy ===== *)
theory Program
  imports Serve_Request Startup
begin

section \<open>The running program (main.rs)\<close>

text \<open>
  The program after its start: one job context, the threads of the connections that \<open>main\<close> accepts,
  and the mutex that allows one purge of the cache at a time. A connection is in one of five phases of
  the closure that \<open>main\<close> spawns; what the connections and the threads of the orders do is
  interleaved by the relation \<open>program_step\<close>. A panic anywhere ends the process, by the panic hook of
  \<open>main\<close>, so it has no step.
\<close>

subsection \<open>Connections\<close>

text \<open>
  \<open>AwaitRequest\<close>: the loop of \<open>serve_client\<close> reads the next header, with \<open>cache_tainted\<close> so far.
  \<open>Answering\<close>: an order was scheduled and its outcome is being answered. \<open>Served\<close>: \<open>serve_client\<close>
  has returned. \<open>PurgingPackages\<close> and \<open>PurgingSizes\<close>: the mutex is held, the external command has
  still to run, or has run. \<open>CleaningUp\<close>: \<open>purge_uncacheable_files\<close> is what is left.
\<close>

datatype connection =
    AwaitRequest bool inbound socket
  | Answering bool inbound download_order "u64 option" "download_provider schedule_outcome" socket
  | Served "client_error + bool" socket
  | PurgingPackages socket
  | PurgingSizes socket
  | CleaningUp socket

record program =
  ctx :: flexo_context
  connections :: "nat \<rightharpoonup> connection"
  purge_mutex :: "nat option"
  next_connection :: nat

definition program_new :: "flexo_context \<Rightarrow> program" where
  "program_new c = \<lparr>ctx = c, connections = (\<lambda>_. None), purge_mutex = None, next_connection = 0\<rparr>"

text \<open>
  \<open>main\<close> until it accepts connections: it exits without providers (Inl), and panics when it cannot
  listen on its address, which \<open>tcp_bind\<close> decides.
\<close>

definition flexo_main ::
  "libs \<Rightarrow> start_env \<Rightarrow> toml_values \<Rightarrow> (string \<times> string) list \<Rightarrow> (string \<Rightarrow> mirror_config option) \<Rightarrow>
    (file_system \<Rightarrow> component list list panics) \<Rightarrow> (string \<Rightarrow> bool) \<Rightarrow> download_world \<Rightarrow>
    (provider_selection_error + mirror_config \<times> program) panics" where
  "flexo_main lib env tv vars toml walk tcp_bind w =
     (case start_flexo lib env tv vars toml walk w of
        None \<Rightarrow> None
      | Some (Inl e) \<Rightarrow> Some (Inl e)
      | Some (Inr (cfg, c)) \<Rightarrow> if tcp_bind (listen_address cfg) then Some (Inr (cfg, program_new c)) else None)"

text \<open>What becomes of a connection when a request has been answered, or could not be.\<close>

definition after_answer :: "string \<Rightarrow> bool \<Rightarrow> inbound \<Rightarrow> answer \<Rightarrow> connection" where
  "after_answer now cache_tainted rs a =
     (case a of
        (Inr origin, k) \<Rightarrow> AwaitRequest (cache_tainted \<or> origin = RemoteMirror) rs k
      | (Inl e, k) \<Rightarrow>
          (case handle_client_error now e k of
             (Some e', _, k') \<Rightarrow> Served (Inl e') k'
           | (None, _, k') \<Rightarrow> Served (Inr cache_tainted) k'))"

text \<open>The requests that get as far as the job context, with the custom provider they name.\<close>

definition order_request :: "mirror_config \<Rightarrow> request \<Rightarrow> (download_provider option \<times> request) option" where
  "order_request cfg get_request =
     (case custom_provider_from_request get_request (configured_repos cfg) of
        (custom_provider, req) \<Rightarrow>
          if permitted_path (path_buf (path req)) \<and> valid_path (path_buf (path req)) \<and> \<not> special_path req
          then Some (custom_provider, req) else None)"

definition wants_purge :: "mirror_config \<Rightarrow> client_error + bool \<Rightarrow> u32 option" where
  "wants_purge cfg cache_tainted_result =
     (case (cache_tainted_result, num_versions_retain cfg) of
        (Inr True, Some v) \<Rightarrow> if v = 0 then None else Some v
      | _ \<Rightarrow> None)"

definition set_files :: "file_system \<Rightarrow> flexo_context \<Rightarrow> flexo_context" where
  "set_files fs c = c\<lparr>ctx_shared := (ctx_shared c)\<lparr>world := (world (ctx_shared c))\<lparr>files := fs\<rparr>\<rparr>\<rparr>"

abbreviation context_files :: "flexo_context \<Rightarrow> file_system" where
  "context_files c \<equiv> files (world (ctx_shared c))"

text \<open>A connection's thread changes the context and its own phase.\<close>

definition moves :: "nat \<Rightarrow> flexo_context \<Rightarrow> connection \<Rightarrow> program \<Rightarrow> program" where
  "moves i c conn p = p\<lparr>ctx := c, connections := (connections p)(i \<mapsto> conn)\<rparr>"

subsection \<open>Steps\<close>

text \<open>
  \<open>accept\<close>: the listener yields a connection. \<open>hang_up\<close>: the client is gone, or its header
  cannot be read. \<open>immediate\<close>: a request that is answered without an order. \<open>scheduled\<close> and
  \<open>answered\<close>: an order is scheduled, under the lock of the job context, and later answered; the
  outcome is then dropped. \<open>lock_purge\<close>, \<open>purge_packages\<close>, \<open>purge_sizes\<close>: purging, under its
  mutex. \<open>no_purge\<close>: nothing to purge. \<open>clean_up\<close>: the end of the thread. \<open>background\<close>: a step of
  a thread that serves an order, or of another program that uses the files. What an answer sees of the
  clock, the files and the messages meanwhile (\<open>env\<close>) is arbitrary, which allows more than the
  program does.
\<close>

inductive program_step ::
  "libs \<Rightarrow> mirror_config \<Rightarrow> (string \<Rightarrow> request_parse) \<Rightarrow> command \<Rightarrow> (file_system \<Rightarrow> component list list) \<Rightarrow>
    (file_system \<Rightarrow> component list list) \<Rightarrow> program \<Rightarrow> program \<Rightarrow> bool"
  for lib cfg parse flexo_purge_cache glob_cfs glob_uncacheable where
  accept: "program_step lib cfg parse flexo_purge_cache glob_cfs glob_uncacheable p
    (moves (next_connection p) (ctx p) (AwaitRequest False rs k) (p\<lparr>next_connection := Suc (next_connection p)\<rparr>))"
| hang_up: "connections p i = Some (AwaitRequest tainted rs k) \<Longrightarrow> read_client_header parse rs = (x, rs1) \<Longrightarrow>
    (case x of Inl e \<Rightarrow> conn = after_answer now tainted rs1 (Inl e, k)
     | Inr SocketClosed \<Rightarrow> conn = Served (Inr tainted) k
     | Inr (ClientRequest req) \<Rightarrow> False) \<Longrightarrow>
    program_step lib cfg parse flexo_purge_cache glob_cfs glob_uncacheable p (moves i (ctx p) conn p)"
| immediate: "connections p i = Some (AwaitRequest tainted rs k) \<Longrightarrow>
    read_client_header parse rs = (Inr (ClientRequest req), rs1) \<Longrightarrow> order_request cfg req = None \<Longrightarrow>
    serve_request lib cfg env req (ctx p) k = Some (a, c) \<Longrightarrow>
    program_step lib cfg parse flexo_purge_cache glob_cfs glob_uncacheable p
      (moves i c (after_answer (date env) tainted rs1 a) p)"
| scheduled: "connections p i = Some (AwaitRequest tainted rs k) \<Longrightarrow>
    read_client_header parse rs = (Inr (ClientRequest req), rs1) \<Longrightarrow> order_request cfg req = Some (cp, req') \<Longrightarrow>
    ord = download_order_new fresh (path req') \<Longrightarrow>
    try_schedule (download_trait lib cfg) ord cp (resume_from req') (ctx p) = Some (out, c) \<Longrightarrow>
    program_step lib cfg parse flexo_purge_cache glob_cfs glob_uncacheable p
      (moves i c (Answering tainted rs1 ord (resume_from req') out k) p)"
| answered: "connections p i = Some (Answering tainted rs ord resume out k) \<Longrightarrow>
    answer_outcome env cfg ord resume out k = Some a \<Longrightarrow>
    program_step lib cfg parse flexo_purge_cache glob_cfs glob_uncacheable p
      (moves i (drop_outcome out (ctx p)) (after_answer (date env) tainted rs a) p)"
| no_purge: "connections p i = Some (Served result k) \<Longrightarrow> wants_purge cfg result = None \<Longrightarrow>
    program_step lib cfg parse flexo_purge_cache glob_cfs glob_uncacheable p (moves i (ctx p) (CleaningUp k) p)"
| lock_purge: "connections p i = Some (Served result k) \<Longrightarrow> wants_purge cfg result \<noteq> None \<Longrightarrow>
    purge_mutex p = None \<Longrightarrow>
    program_step lib cfg parse flexo_purge_cache glob_cfs glob_uncacheable p
      (moves i (ctx p) (PurgingPackages k) (p\<lparr>purge_mutex := Some i\<rparr>))"
| purge_packages: "connections p i = Some (PurgingPackages k) \<Longrightarrow> num_versions_retain cfg = Some v \<Longrightarrow>
    program_step lib cfg parse flexo_purge_cache glob_cfs glob_uncacheable p
      (moves i (set_files (purge_cache flexo_purge_cache (cache_directory cfg) v (context_files (ctx p))) (ctx p))
        (PurgingSizes k) p)"
| purge_sizes: "connections p i = Some (PurgingSizes k) \<Longrightarrow>
    purge_cfs_files glob_cfs (context_files (ctx p)) = Some fs \<Longrightarrow>
    program_step lib cfg parse flexo_purge_cache glob_cfs glob_uncacheable p
      (moves i (set_files fs (ctx p)) (CleaningUp k) (p\<lparr>purge_mutex := None\<rparr>))"
| clean_up: "connections p i = Some (CleaningUp k) \<Longrightarrow>
    fs = snd (purge_uncacheable_paths age (glob_uncacheable (context_files (ctx p))) (context_files (ctx p))) \<Longrightarrow>
    program_step lib cfg parse flexo_purge_cache glob_cfs glob_uncacheable p
      (p\<lparr>ctx := set_files fs (ctx p), connections := (connections p)(i := None)\<rparr>)"
| background: "ctx_step (download_trait lib cfg) handle (ctx p) c \<Longrightarrow>
    program_step lib cfg parse flexo_purge_cache glob_cfs glob_uncacheable p (p\<lparr>ctx := c\<rparr>)"

end
