(* ===== verification/Serving_Properties.thy ===== *)
theory Serving_Properties
  imports Serving Job_Context Cache_Properties
begin

section \<open>Properties of serving files\<close>

text \<open>
  What a client receives of a file that is complete and of one that is still being downloaded, what
  the headers say about it, and when the loops end.
\<close>

subsection \<open>Headers\<close>

lemma write_all_patient: "accepts k = None \<Longrightarrow> write_all s k = (None, k\<lparr>sent := sent k @ s\<rparr>)"
  by (simp add: write_all_def)

text \<open>The headers of a partial answer tell the truth about a file of \<open>n\<close> bytes when the client
  asks for a part that exists: the range is the bytes \<open>r\<close> to \<open>n - 1\<close> of \<open>n\<close> and the content
  length is \<open>n - r\<close>. From the end on, the header says nothing true: the file of \<open>n\<close> bytes is
  announced as one of \<open>r\<close> bytes, with a range that ends before it starts.\<close>

lemma content_range_of_file:
  "content_range_header (remaining_content_length n (Some r)) (Some r) =
     (if r < n
      then ''Content-Range: bytes '' @ show_u64 r @ ''-'' @ show_u64 (n - 1) @ ''/'' @ show_u64 n @ crlf
      else ''Content-Range: bytes '' @ show_u64 r @ ''-'' @ show_u64 (r - 1) @ ''/'' @ show_u64 r @ crlf) \<and>
   remaining_content_length n (Some r) = (if r < n then n - r else 0)"
  using content_range_of_remaining [of r n] content_range_beyond [of n r]
  by (auto simp: remaining_content_length_def not_less)

subsection \<open>Complete files\<close>

definition range_start :: "u64 option \<Rightarrow> u64" where
  "range_start resume = (case resume of None \<Rightarrow> 0 | Some r \<Rightarrow> r)"

definition file_header :: "payload_origin \<Rightarrow> string \<Rightarrow> u64 \<Rightarrow> u64 option \<Rightarrow> string" where
  "file_header origin date content_length resume =
     (case resume of
        None \<Rightarrow> reply_header_success content_length origin date
      | Some r \<Rightarrow> reply_header_partial content_length r origin date)"

lemma serve_complete_unfold:
  "serve_from_complete_file chunk date fs (FileNode content) resume k =
     (case write_all (file_header FromCache date (len_u64 content - range_start resume) resume) k of
        (Some e, k1) \<Rightarrow> Some (Inl e, k1)
      | (None, k1) \<Rightarrow> send_payload chunk content (unat (len_u64 content)) (unat (range_start resume)) k1)"
  unfolding serve_from_complete_file_def file_header_def range_start_def Let_def send_node_def
    node_len_def node.case ..

text \<open>A complete file is served in full: to a client that keeps reading, the answer is the header
  followed by exactly the bytes from the start of the range to the end of the file, however
  \<open>sendfile\<close> cuts them, and the serving thread returns.\<close>

lemma complete_file_served:
  assumes "moves_bytes chunk" and "length F < 2 ^ 63" and "unat (range_start resume) \<le> length F"
    and "accepts k = None"
  shows "\<exists>k'. serve_from_complete_file chunk date fs (FileNode F) resume k = Some (Inr (length F), k') \<and>
    sent k' = sent k @ file_header FromCache date (of_nat (length F - unat (range_start resume))) resume @
      drop (unat (range_start resume)) F"
proof -
  let ?r = "unat (range_start resume)"
  let ?h = "file_header FromCache date (len_u64 F - range_start resume) resume"
  let ?k1 = "k\<lparr>sent := sent k @ ?h\<rparr>"
  have len: "unat (len_u64 F) = length F" using assms(2) by (rule unat_len_u64)
  have "len_u64 F - range_start resume = of_nat (length F) - of_nat ?r" by (simp add: len_u64_def)
  then have diff: "len_u64 F - range_start resume = of_nat (length F - ?r)"
    using assms(3) by (simp add: of_nat_diff)
  obtain res k' m where send: "send_payload chunk F (length F) ?r ?k1 = Some (res, k')"
    "sent k' = sent ?k1 @ take m (drop ?r F)" "m \<le> length F - ?r"
    "\<forall>n. res = Inr n \<longrightarrow> n = max ?r (length F) \<and> m = length F - ?r"
    "accepts ?k1 = None \<longrightarrow> accepts k' = None \<and> (\<exists>n. res = Inr n)"
    using send_payload_returns [OF assms(1) order_refl, of F ?r ?k1] by (elim exE conjE) (rule that)
  then have "res = Inr (length F)" "m = length F - ?r" using assms(3,4) by (auto simp: max_def)
  with send(1,2) have "serve_from_complete_file chunk date fs (FileNode F) resume k = Some (Inr (length F), k') \<and>
      sent k' = sent k @ ?h @ drop ?r F"
    using assms(4) by (simp add: serve_complete_unfold write_all_patient len)
  then show ?thesis unfolding diff by blast
qed

text \<open>If scheduling answers that the order is cached, the range starts within what is cached.\<close>

lemma cached_range_in_bounds:
  assumes "try_schedule tr ord cp resume c = Some (Cached, c')"
    and "cache_lookup tr ord (world (ctx_shared c)) = Some (Some item, w)"
  shows "range_start resume \<le> cached_size item \<and> complete_size item = Some (cached_size item)"
  using assms(1)
proof (cases rule: try_schedule_cases)
  case (cached item' w')
  with assms(2) show ?thesis by (simp add: decide_def range_start_def Let_def not_less split: if_splits)
qed simp_all

subsection \<open>Growing files\<close>

lemma growing_delivers:
  assumes "moves_bytes chunk" and "grows_to grow F"
    and "content_length = remaining_content_length (len_u64 F) resume"
    and "reply = file_header RemoteMirror date content_length resume @ drop (unat (range_start resume)) F"
  shows "\<exists>result k'. serve_from_growing_file chunk date grow content_length resume k = Some (result, k') \<and>
    (\<exists>n. sent k' = sent k @ take n reply) \<and> (result = None \<longrightarrow> sent k' = sent k @ reply) \<and>
    (accepts k = None \<longrightarrow> result = None \<or> result = Some TimedOut)"
proof -
  let ?h = "file_header RemoteMirror date content_length resume"
  let ?r = "range_start resume"
  have unfold: "serve_from_growing_file chunk date grow content_length resume k =
     (case write_all ?h k of
        (Some e, k1) \<Rightarrow> Some (Some e, k1)
      | (None, k1) \<Rightarrow> map_option (\<lambda>((result, _), s). (result, client s))
           (serve_growing_file_loop (client_source chunk grow) ?r content_length max_polls_without_progress
              \<lparr>polls_done = 0, client = k1\<rparr>))"
    unfolding serve_from_growing_file_def file_header_def range_start_def Let_def ..
  obtain e k1 where wr: "write_all ?h k = (e, k1)" by fastforce
  show ?thesis
  proof (cases e)
    case (Some x)
    from write_all_sent(1) [OF wr] obtain m where m: "sent k1 = sent k @ take m ?h" ..
    have "sent k1 = sent k @ take (min m (length ?h)) reply" using m by (simp add: assms(4) min_def)
    moreover have "accepts k \<noteq> None" using write_all_sent(3) [OF wr] Some by auto
    ultimately show ?thesis using unfold wr Some by (intro exI [of _ "Some x"] exI [of _ k1]) auto
  next
    case None
    note sent1 = write_all_sent(2) [OF wr None]
    let ?s = "\<lparr>polls_done = 0, client = k1\<rparr>"
    have start: "client_delivered chunk grow F (sent k @ ?h) (unat ?r) (accepts k = None) ?r ?s"
      using assms(1,2) sent1 write_all_sent(3) [OF wr] by (simp add: client_delivered_def client_has_def)
    obtain result sleeps s' where
      loop: "serve_growing_file_loop (client_source chunk grow) ?r content_length max_polls_without_progress ?s =
        Some ((result, sleeps), s')"
      and after: "case result of None \<Rightarrow> \<exists>m. content_length + ?r \<le> m \<and>
          client_delivered chunk grow F (sent k @ ?h) (unat ?r) (accepts k = None) m s'
        | Some e \<Rightarrow> client_stopped F (sent k @ ?h) (unat ?r) (accepts k = None) e s'"
      using client_file.loop_returns [OF start] by blast
    have run: "serve_from_growing_file chunk date grow content_length resume k = Some (result, client s')"
      using unfold wr None loop by simp
    have part: "\<exists>n. sent k' = sent k @ take n reply" if "client_has F (sent k @ ?h) (unat ?r) n k'" for n k'
      using that by (intro exI [of _ "length ?h + (n - unat ?r)"]) (simp add: client_has_def assms(4) drop_take)
    show ?thesis
    proof (cases result)
      case (Some x)
      with after run part show ?thesis by (auto simp: client_stopped_def)
    next
      case None
      with after obtain m where m: "content_length + ?r \<le> m"
        "client_has F (sent k @ ?h) (unat ?r) (unat m) (client s')" by (auto simp: client_delivered_def)
      have "length F \<le> unat m \<or> length F \<le> unat ?r"
      proof (cases "?r \<le> len_u64 F")
        case True
        then have "content_length + ?r = len_u64 F"
          by (cases resume) (auto simp: assms(3) remaining_content_length_def range_start_def)
        then have "unat (len_u64 F) \<le> unat m" using m(1) by (simp add: word_le_nat_alt)
        then show ?thesis using assms(2) by (simp add: grows_to_def unat_len_u64)
      next
        case False
        then have "unat (len_u64 F) < unat ?r" by (simp add: word_less_nat_alt not_le)
        then show ?thesis using assms(2) by (simp add: grows_to_def unat_len_u64)
      qed
      then have "sent (client s') = sent k @ reply"
        using m(2) by (auto simp: client_has_def assms(4))
      with None run part [OF m(2)] show ?thesis by auto
    qed
  qed
qed

text \<open>C4: A file that is still being downloaded is streamed faithfully and the serving thread always
  returns: whatever the pace of the download, the client gets a prefix of the header followed by the
  file from the start of its range; all of it if the thread reports success; and for a client that keeps
  reading the only error is the time-out of a stalled download.\<close>

theorem growing_file_delivered:
  assumes "moves_bytes chunk" and "grows_to grow F"
    and "content_length = remaining_content_length (len_u64 F) resume"
    and "reply = file_header RemoteMirror date content_length resume @ drop (unat (range_start resume)) F"
  shows "\<exists>result k'. serve_from_growing_file chunk date grow content_length resume k = Some (result, k') \<and>
    (\<exists>n. sent k' = sent k @ take n reply) \<and> (result = None \<longrightarrow> sent k' = sent k @ reply) \<and>
    (accepts k = None \<longrightarrow> result = None \<or> result = Some TimedOut)"
  using assms by (rule growing_delivers)

theorem growing_file_delivered_witness:
  "\<exists>result k' n. serve_from_growing_file (\<lambda>_ count. min 2 count) ''now'' (\<lambda>t. take (3 * t) ''abcdef'')
      5 (Some 1) \<lparr>sent = '''', accepts = None\<rparr> = Some (result, k') \<and>
    sent k' = take n (file_header RemoteMirror ''now'' 5 (Some 1) @ ''bcdef'')"
proof -
  have "grows_to (\<lambda>t. take (3 * t) ''abcdef'') ''abcdef''"
    by (simp add: grows_to_def min_def)
  moreover have "moves_bytes (\<lambda>_ count. min 2 count)" by (simp add: moves_bytes_def)
  moreover have "5 = remaining_content_length (len_u64 ''abcdef'') (Some 1)"
    by (simp add: remaining_content_length_def len_u64_def)
  ultimately obtain result k' where "serve_from_growing_file (\<lambda>_ count. min 2 count) ''now''
      (\<lambda>t. take (3 * t) ''abcdef'') 5 (Some 1) \<lparr>sent = '''', accepts = None\<rparr> = Some (result, k')"
    "\<exists>n. sent k' = sent \<lparr>sent = '''', accepts = None\<rparr> @ take n (file_header RemoteMirror ''now'' 5 (Some 1) @
      drop (unat (range_start (Some 1))) ''abcdef'')"
    using growing_file_delivered [OF _ _ _ refl] by blast
  then show ?thesis by (auto simp: range_start_def)
qed

lemma stalled_loop:
  assumes "\<forall>t. grow t = c" and "len_u64 c \<le> n" and "n < complete" and "polls < max_polls"
  shows "\<exists>s'. serve_loop (client_source chunk grow) complete max_polls n polls sleeps s =
      Some ((Some TimedOut, sleeps + (unat max_polls - unat polls - 1)), s') \<and> client s' = client s"
  using assms(4)
proof (induction "unat max_polls - unat polls" arbitrary: polls sleeps s)
  case 0
  then show ?case by (simp add: word_less_nat_alt)
next
  case (Suc d)
  let ?s1 = "s\<lparr>polls_done := Suc (polls_done s)\<rparr>"
  have wait: "\<not> n < len_u64 c" using assms(2) by simp
  have "polls \<noteq> - 1" using Suc.prems by auto
  then have succ: "unat (polls + 1) = Suc (unat polls)" by (rule unat_succ)
  show ?case
  proof (cases "max_polls \<le> polls + 1")
    case True
    then have "unat max_polls - unat polls - 1 = 0" using succ by (simp add: word_le_nat_alt)
    moreover have "serve_loop (client_source chunk grow) complete max_polls n polls sleeps s =
        Some ((Some TimedOut, sleeps), ?s1)"
      using True wait assms(1,3) by (subst serve_loop.simps) (simp add: client_source_def)
    ultimately show ?thesis by simp
  next
    case False
    have step: "serve_loop (client_source chunk grow) complete max_polls n polls sleeps s =
        serve_loop (client_source chunk grow) complete max_polls n (polls + 1) (Suc sleeps) ?s1"
      using False wait assms(1,3) by (subst serve_loop.simps) (simp add: client_source_def)
    have "d = unat max_polls - unat (polls + 1)" "polls + 1 < max_polls"
      using Suc.hyps(2) False succ by simp_all
    from Suc.hyps(1) [OF this, of "Suc sleeps" ?s1] obtain s' where
      "serve_loop (client_source chunk grow) complete max_polls n (polls + 1) (Suc sleeps) ?s1 =
        Some ((Some TimedOut, Suc sleeps + (unat max_polls - unat (polls + 1) - 1)), s')" "client s' = client ?s1"
      by blast
    moreover have "Suc sleeps + (unat max_polls - unat (polls + 1) - 1) = sleeps + (unat max_polls - unat polls - 1)"
      using Suc.hyps(2) False succ by (simp add: word_le_nat_alt)
    ultimately show ?thesis unfolding step by auto
  qed
qed

text \<open>C30: A stalled download is given up: when the client has everything there is and the file grows no
  further, the loop ends with a time-out after 19999 sleeps of 500 microseconds, just under the ten
  seconds of the stall time-out, and sends nothing more.\<close>

theorem stalled_download_times_out:
  assumes "\<forall>t. grow t = c" and "len_u64 c \<le> r" and "r < content_length + r"
  shows "\<exists>s'. serve_growing_file_loop (client_source chunk grow) r content_length max_polls_without_progress s =
      Some ((Some TimedOut, 19999), s') \<and> client s' = client s"
proof -
  have "0 < max_polls_without_progress" "unat max_polls_without_progress = 20000"
    by (simp_all add: max_polls_without_progress_def GROWING_FILE_STALL_TIMEOUT_MICROS_def
        GROWING_FILE_POLL_INTERVAL_MICROS_def)
  then show ?thesis
    using stalled_loop [OF assms, of 0 max_polls_without_progress chunk 0 s]
    by (simp add: serve_growing_file_loop_def)
qed

theorem stalled_download_times_out_witness:
  "\<exists>s'. serve_growing_file_loop (client_source (\<lambda>_ count. count) (\<lambda>_. ''abc'')) 3 7 max_polls_without_progress
      \<lparr>polls_done = 0, client = \<lparr>sent = '''', accepts = None\<rparr>\<rparr> = Some ((Some TimedOut, 19999), s') \<and>
    client s' = \<lparr>sent = '''', accepts = None\<rparr>"
  using stalled_download_times_out [of "\<lambda>_. ''abc''" "''abc''" 3 7 "\<lambda>_ count. count"
      "\<lparr>polls_done = 0, client = \<lparr>sent = '''', accepts = None\<rparr>\<rparr>"]
  by (simp add: len_u64_def)

text \<open>A file that is cut short while it is being sent is never given up: \<open>sendfile\<close> then
  moves nothing and reports no error, and the loop of \<open>send_payload\<close> runs forever; the stall
  time-out does not apply inside it.\<close>

lemma truncated_file_spins:
  assumes "length content \<le> offset" and "offset < filesize"
  shows "send_payload chunk content filesize offset k = None"
proof -
  have stuck: "offset \<noteq> off \<or> fs \<noteq> filesize \<or> ct \<noteq> content"
    if "send_payload ch ct fs off k0 = Some y" for ch ct fs off k0 y
    using that
  proof (induction rule: send_payload.raw_induct [rotated, consumes 1, case_names step])
    case (step f ch ct fs off k0 y)
    show ?case
    proof (rule ccontr)
      assume "\<not> (offset \<noteq> off \<or> fs \<noteq> filesize \<or> ct \<noteq> content)"
      then have eq: "off = offset" "fs = filesize" "ct = content" by simp_all
      obtain k1 where "write_all '''' k0 = (None, k1)"
        by (cases "accepts k0") (simp_all add: write_all_def)
      then have "sendfile ch ct off (min (fs - off) MAX_SENDFILE_COUNT) k0 = (Inr 0, k1)"
        using assms(1) eq by (simp add: sendfile_def)
      with step(2) assms(2) eq have "f ch ct fs (off + 0) k1 = Some y" by simp
      from step(1) [OF this] eq show False by simp
    qed
  qed
  show ?thesis using stuck [of chunk content filesize offset k] by (cases "send_payload chunk content filesize offset k") auto
qed

theorem truncated_file_spins_witness:
  "send_payload (\<lambda>_ count. count) ''abc'' 10 3 \<lparr>sent = '''', accepts = None\<rparr> = None"
  by (rule truncated_file_spins) simp_all

end
