(* ===== verification/Client_Properties.thy ===== *)
theory Client_Properties
  imports Serve_Request Serving_Properties Download_Properties
begin

section \<open>Properties of serving clients\<close>

text \<open>
  What a request becomes, where it can reach, what is answered, and that the thread of the client
  understands what the downloading thread tells it.
\<close>

subsection \<open>The header of a request\<close>

lemma to_lowercase_append [simp]: "to_lowercase (a @ b) = to_lowercase a @ to_lowercase b"
  by (simp add: to_lowercase_def)

lemma to_lower_digit: "is_digit c \<Longrightarrow> to_lower_char c = c"
  by (auto simp: is_digit_def to_lower_char_def Let_def)

lemma to_lowercase_digits: "list_all is_digit s \<Longrightarrow> to_lowercase s = s"
  by (induction s) (simp_all add: to_lowercase_def to_lower_digit)

lemma remove_all_absent: "\<forall>c \<in> set s. hd p \<noteq> c \<Longrightarrow> p \<noteq> '''' \<Longrightarrow> remove_all p s = s"
proof (induction s)
  case Nil
  then show ?case by simp
next
  case (Cons c cs)
  then have "strip_prefix p (c # cs) = None" by (cases p) auto
  with Cons show ?case by simp
qed

lemma remove_all_front: "p \<noteq> '''' \<Longrightarrow> remove_all p (p @ s) = remove_all p s"
proof (cases p)
  case (Cons c cs)
  have "strip_prefix (c # cs) (c # cs @ s) = Some s" using strip_prefix_append [of "c # cs" s] by simp
  with Cons show ?thesis by simp
qed simp

lemma digits_show_u64: "list_all is_digit (show_u64 n)"
  by (simp add: show_u64_def show_nat_digits)

lemma parse_range_value:
  "parse_range_header_value (''bytes='' @ show_u64 n @ ''-'' @ rest) = Inr n"
proof -
  have low: "to_lowercase ''bytes='' = ''bytes=''" "to_lowercase ''-'' = ''-''" by code_simp+
  have "CHR ''-'' \<notin> set (show_u64 n)" by (rule show_u64_no_char) (simp add: is_digit_def)
  then have dash: "CHR ''-'' \<notin> set (''bytes='' @ show_u64 n)" by simp
  have "to_lowercase (''bytes='' @ show_u64 n @ ''-'' @ rest) =
      (''bytes='' @ show_u64 n) @ CHR ''-'' # to_lowercase rest"
    by (simp only: to_lowercase_append low to_lowercase_digits [OF digits_show_u64]) simp
  then have "split_char (CHR ''-'') (to_lowercase (''bytes='' @ show_u64 n @ ''-'' @ rest)) =
      (''bytes='' @ show_u64 n) # split_char (CHR ''-'') (to_lowercase rest)"
    using split_char_append [OF dash] by simp
  moreover have "remove_all ''bytes='' (''bytes='' @ show_u64 n) = show_u64 n"
  proof -
    have "\<forall>c \<in> set (show_u64 n). hd ''bytes='' \<noteq> c"
      using show_u64_no_char [of "CHR ''b''" n] by (auto simp: is_digit_def)
    then show ?thesis by (simp only: remove_all_front list.distinct remove_all_absent simp_thms)
  qed
  ultimately show ?thesis unfolding parse_range_header_value_def by (simp only: list.case option.case parse_show_u64)
qed

text \<open>C28: A range request is read back as it was written: the first header named \<open>range\<close> in any
  case, with the value \<open>bytes=N-\<close> and anything after it, makes the request resume from \<open>N\<close>, for
  every 64-bit \<open>N\<close>.\<close>

theorem range_request_roundtrip:
  assumes "to_lowercase name = ''range''" and "\<forall>h \<in> set before. to_lowercase (fst h) \<noteq> ''range''"
    and "ascii rest"
  shows "request_new \<lparr>hr_headers = before @ (name, ''bytes='' @ show_u64 n @ ''-'' @ rest) # headers,
      hr_path = Some p, hr_method = Some ''GET''\<rparr> =
    Inr \<lparr>resume_from = Some n, path = str_path_new p, request_method = Get\<rparr>"
proof -
  let ?v = "''bytes='' @ show_u64 n @ ''-'' @ rest"
  have "ascii ''bytes=''" "ascii ''-''" by (simp_all add: ascii_def)
  then have "ascii ?v" using assms(3) ascii_digits [OF digits_show_u64 [of n]] by (auto simp: ascii_def)
  then have "valid_utf8 (map of_char ?v)" by (intro valid_utf8_ascii) (auto simp: ascii_def)
  then have utf: "from_utf8 ?v = Some ?v" by (simp only: from_utf8_def if_True)
  have "List.find (\<lambda>(name, _). to_lowercase name = ''range'') (before @ (name, ?v) # headers) = Some (name, ?v)"
    using assms(2) by (induction before) (auto simp: assms(1))
  then have "resume_from_headers (before @ (name, ?v) # headers) = Inr (Some n)"
    by (simp only: resume_from_headers_def option.case prod.case utf parse_range_value map_sum.simps)
  then show ?thesis by (simp add: request_new_def)
qed

theorem range_request_roundtrip_witness:
  "request_new \<lparr>hr_headers = [(''Host'', ''flexo'')] @ (''Range'', ''bytes='' @ show_u64 1024 @ ''-'' @ '''') # [],
      hr_path = Some ''/core/os/x86_64/core.db'', hr_method = Some ''GET''\<rparr> =
    Inr \<lparr>resume_from = Some 1024, path = str_path_new ''/core/os/x86_64/core.db'', request_method = Get\<rparr>"
proof (rule range_request_roundtrip)
  show "to_lowercase ''Range'' = ''range''" by code_simp
  have "to_lowercase ''Host'' = ''host''" by code_simp
  then show "\<forall>h \<in> set [(''Host'', ''flexo'')]. to_lowercase (fst h) \<noteq> ''range''" by simp
qed (simp add: ascii_def)

text \<open>The bytes a connection delivers before its first error.\<close>

fun stream_bytes :: "inbound \<Rightarrow> string" where
  "stream_bytes [] = ''''"
| "stream_bytes (Inl e # rs) = ''''"
| "stream_bytes (Inr s # rs) = s @ stream_bytes rs"

lemma read_stream_bytes:
  "read_stream n rs = (Inr s, rs') \<Longrightarrow> stream_bytes rs = s @ stream_bytes rs' \<and> length s \<le> n"
  by (cases "(n, rs)" rule: read_stream.cases) (auto split: if_splits)

lemma read_header_loop_prefix:
  assumes "read_header_loop parse buf rs = (Inr (ClientRequest req), rs')"
  shows "\<exists>more r. parse (buf @ more) = RequestComplete r \<and> request_new r = Inr req \<and>
    stream_bytes rs = more @ stream_bytes rs' \<and> length (buf @ more) \<le> MAX_HEADER_SIZE + 1"
  using assms
proof (induction parse buf rs rule: read_header_loop.induct)
  case (1 parse buf rs)
  have small: "\<not> MAX_HEADER_SIZE \<le> length buf"
    using 1(2) by (auto simp: read_header_loop.simps [of parse buf])
  obtain x rs1 where read: "read_stream (MAX_HEADER_SIZE + 1 - length buf) rs = (x, rs1)" by fastforce
  with 1(2) small obtain s where x: "x = Inr s" and s: "s \<noteq> ''''" "\<not> MAX_HEADER_SIZE < length s"
    by (auto simp: read_header_loop.simps [of parse buf] split: sum.splits if_splits)
  note bytes = read_stream_bytes [OF read [unfolded x]]
  then have "length s \<le> MAX_HEADER_SIZE + 1 - length buf" ..
  then have fits: "length (buf @ s) \<le> MAX_HEADER_SIZE + 1" using small unfolding length_append by linarith
  show ?case
  proof (cases "parse (buf @ s)")
    case (RequestComplete r)
    with 1(2) small read x s have "request_new r = Inr req \<and> rs' = rs1"
      by (auto simp: read_header_loop.simps [of parse buf] elim!: map_sum_InrE)
    with RequestComplete bytes fits show ?thesis by blast
  next
    case RequestPartial
    with 1(2) small read x s have "read_header_loop parse (buf @ s) rs1 = (Inr (ClientRequest req), rs')"
      by (simp add: read_header_loop.simps [of parse buf])
    from 1(1) [OF small read [symmetric] x s RequestPartial this] obtain more r where
      "parse ((buf @ s) @ more) = RequestComplete r" "request_new r = Inr req"
      "stream_bytes rs1 = more @ stream_bytes rs'" "length ((buf @ s) @ more) \<le> MAX_HEADER_SIZE + 1" by blast
    with bytes show ?thesis by (intro exI [of _ "s @ more"] exI [of _ r]) simp
  next
    case RequestInvalid
    with 1(2) small read x s show ?thesis by (simp add: read_header_loop.simps [of parse buf])
  qed
qed

text \<open>C29: A request that is accepted was really sent: it is the parse of the next bytes of the connection,
  in order and however they were cut into packets, and of no more than 8193 of them; the bytes read with
  the header are gone, the rest of the stream is left for the next request.\<close>

theorem accepted_request_was_sent:
  assumes "read_client_header parse rs = (Inr (ClientRequest req), rs')"
  shows "\<exists>header r. stream_bytes rs = header @ stream_bytes rs' \<and> length header \<le> 8193 \<and>
    parse header = RequestComplete r \<and> request_new r = Inr req"
  using read_header_loop_prefix [OF assms [unfolded read_client_header_def]]
  by (auto simp: MAX_HEADER_SIZE_def)

definition get_root :: http_request where
  "get_root = \<lparr>hr_headers = [], hr_path = Some ''/a'', hr_method = Some ''GET''\<rparr>"

definition parse_ab :: "string \<Rightarrow> request_parse" where
  "parse_ab s = (if s = ''ab'' then RequestComplete get_root else RequestPartial)"

theorem accepted_request_was_sent_witness:
  "\<exists>header r. stream_bytes [Inr ''a'', Inr ''b'', Inr ''c''] = header @ stream_bytes [Inr ''c''] \<and>
    length header \<le> 8193 \<and> parse_ab header = RequestComplete r \<and>
    request_new r = Inr \<lparr>resume_from = None, path = str_path_new ''/a'', request_method = Get\<rparr>"
proof -
  have "read_client_header parse_ab [Inr ''a'', Inr ''b'', Inr ''c''] =
      (Inr (ClientRequest \<lparr>resume_from = None, path = str_path_new ''/a'', request_method = Get\<rparr>), [Inr ''c''])"
    by (simp add: read_client_header_def read_header_loop.simps MAX_HEADER_SIZE_def parse_ab_def get_root_def
        request_new_def resume_from_headers_def)
  then show ?thesis by (rule accepted_request_was_sent)
qed

end
