(* ===== verification/Request_Properties.thy ===== *)
theory Request_Properties
  imports Client_Properties
begin

section \<open>Properties of dispatching requests\<close>

text \<open>
  Where a request can reach, what it is answered from the cache, and that the client's thread
  understands every message it can receive first.
\<close>

text \<open>A concrete setting: the small cache, nothing in progress, a patient client.\<close>

definition pkg_request :: "string \<Rightarrow> request" where
  "pkg_request s = \<lparr>resume_from = None, path = str_path_new s, request_method = Get\<rparr>"

definition pkg_surroundings :: surroundings where
  "pkg_surroundings = \<lparr>chunk = (\<lambda>_ count. count), date = ''now'', fresh_uuid = ''uuid'',
     later = (\<lambda>_. files pkg_world), received = [], receive_end = Disconnected, json_of = (\<lambda>_. ''{}'')\<rparr>"

definition patient_client :: socket where
  "patient_client = \<lparr>sent = '''', accepts = None\<rparr>"

lemma pkg_surroundings_simps [simp]:
  "chunk pkg_surroundings = (\<lambda>_ count. count)" "date pkg_surroundings = ''now''"
  "fresh_uuid pkg_surroundings = ''uuid''" "later pkg_surroundings t = files pkg_world"
  "json_of pkg_surroundings m = ''{}''" "sent patient_client = ''''" "accepts patient_client = None"
  by (simp_all add: pkg_surroundings_def patient_client_def)

lemma pkg_request_simps [simp]:
  "resume_from (pkg_request s) = None" "path (pkg_request s) = str_path_new s" "request_method (pkg_request s) = Get"
  by (simp_all add: pkg_request_def)

lemma pkg_no_repos [simp]: "configured_repos pkg_config = []"
  by (simp add: pkg_config_def plain_config_def)

lemma no_repo: "custom_provider_from_request req [] = (None, req)"
  by (simp add: custom_provider_from_request_def split: option.splits)

lemma pkg_paths:
  "permitted_path (path_buf (str_path_new ''/a''))" "valid_path (path_buf (str_path_new ''/a''))"
  "permitted_path (path_buf (str_path_new ''/d''))" "valid_path (path_buf (str_path_new ''/d''))"
  "permitted_path (path_buf (str_path_new ''/n''))" "valid_path (path_buf (str_path_new ''/n''))"
  "download_is_cacheable (download_order_new ''uuid'' (str_path_new ''/a''))"
  "download_is_cacheable (download_order_new ''uuid'' (str_path_new ''/d''))"
  "download_is_cacheable (download_order_new ''uuid'' (str_path_new ''/n''))"
  by code_simp+

lemma pkg_file_keys:
  "file_key pkg_config (download_order_new ''uuid'' (str_path_new ''/a'')) = pkg_dir @ [Normal ''a'']"
  "file_key pkg_config (download_order_new ''uuid'' (str_path_new ''/d'')) = pkg_dir @ [Normal ''d'']"
  "file_key pkg_config (download_order_new ''uuid'' (str_path_new ''/n'')) = pkg_dir @ [Normal ''n'']"
  unfolding pkg_dir_def by code_simp+

text \<open>A request that reaches the job context: what is scheduled, and what is answered.\<close>

lemma serve_request_order:
  assumes "custom_provider_from_request req (configured_repos cfg) = (cp, req')"
    and "permitted_path (path_buf (path req'))" and "valid_path (path_buf (path req'))" and "\<not> special_path req'"
  shows "serve_request lib cfg env req c k =
    (let ord = download_order_new (fresh_uuid env) (path req')
     in case try_schedule (download_trait lib cfg) ord cp (resume_from req') c of
          None \<Rightarrow> None
        | Some (out, c') \<Rightarrow>
            map_option (\<lambda>a. (a, drop_outcome out c')) (answer_outcome env cfg ord (resume_from req') out k))"
  using assms by (auto simp: serve_request_def special_path_def)

lemma serve_request_cases:
  assumes "serve_request lib cfg env req c k = Some (a, c')"
    and "custom_provider_from_request req (configured_repos cfg) = (cp, req')"
  obtains (same) "c' = c \<or> c' = reset_provider_metrics c"
  | (order) out c1 where "permitted_path (path_buf (path req'))" and "valid_path (path_buf (path req'))"
      and "try_schedule (download_trait lib cfg) (download_order_new (fresh_uuid env) (path req')) cp
        (resume_from req') c = Some (out, c1)"
      and "c' = drop_outcome out c1"
proof (cases "permitted_path (path_buf (path req')) \<and> valid_path (path_buf (path req')) \<and> \<not> special_path req'")
  case True
  then show ?thesis
    using assms serve_request_order [OF assms(2), of lib env c k]
    by (auto simp: Let_def split: option.splits intro: order)
next
  case False
  then have "c' = c \<or> c' = reset_provider_metrics c"
    using assms
    by (auto simp: serve_request_def special_path_def Let_def split: if_splits prod.splits option.splits)
  then show ?thesis by (rule same)
qed

text \<open>A redirection gives its guard back, too.\<close>

lemma request_returns_guards:
  assumes "serve_request lib cfg env req c k = Some (a, c')"
  shows "guards (ctx_shared c') = guards (ctx_shared c)"
proof -
  obtain cp req' where custom: "custom_provider_from_request req (configured_repos cfg) = (cp, req')" by fastforce
  have "drop_guard h gs = guards (ctx_shared c)"
    if "best_provider tr cp (guards (ctx_shared c)) = Some (h, gs)" for tr :: "(download_provider, download_order, mirror_results, download_channel, error_kind, download_job_error, download_world) job_trait" and h gs
    using that
    by (auto simp: best_provider_def get_provider_guard_def split: option.splits list.splits)
  note redirect = this
  have order: "guards (ctx_shared (drop_outcome out c1)) = guards (ctx_shared c)"
    if "try_schedule (download_trait lib cfg) ord cp r c = Some (out, c1)" for ord r out c1
    using that
    by (auto simp: try_schedule_def schedule_def redirect_outcome_def redirect Let_def split: option.splits if_splits)
  show ?thesis
    using assms custom
    by (auto simp: serve_request_def reset_provider_metrics_def Let_def order
        split: if_splits prod.splits option.splits)
qed

subsection \<open>Where a request can reach\<close>

text \<open>C8: No request leads out of the cache: an order that serving a request puts in progress, if it
  is cacheable and its path is relative, is stored below the cache directory, at a path of normal
  components only; requests with \<open>..\<close> never get that far. (For the exception of absolute paths see
  the property on doubled leading slashes.)\<close>

theorem scheduled_orders_below_cache:
  assumes "serve_request lib cfg env req c k = Some (a, c')"
    and "ord \<in> orders_in_progress c'" and "ord \<notin> orders_in_progress c"
    and "download_is_cacheable ord" and "\<not> has_root (path_buf (requested_path ord))"
  shows "\<exists>rest. file_key cfg ord = components (cache_directory cfg) @ rest \<and> rest \<noteq> [] \<and>
    (\<forall>x \<in> set rest. \<exists>s. x = Normal s)"
proof -
  obtain cp req' where custom: "custom_provider_from_request req (configured_repos cfg) = (cp, req')"
    by fastforce
  from assms(1) custom show ?thesis
  proof (cases rule: serve_request_cases)
    case same
    with assms(2,3) show ?thesis by (auto simp: reset_provider_metrics_def)
  next
    case (order out c1)
    let ?ord = "download_order_new (fresh_uuid env) (path req')"
    from order(3,4) have "orders_in_progress c' = insert ?ord (orders_in_progress c) \<or>
        orders_in_progress c' = orders_in_progress c"
      by (cases rule: try_schedule_cases) simp_all
    with assms(2,3) have ord: "ord = ?ord" by auto
    then have "requested_path ord = path req'" by (simp add: download_order_new_def)
    moreover have "cacheability ord = Cacheable"
      using assms(4) by (simp add: download_is_cacheable_def split: cacheability.splits)
    ultimately show ?thesis using cacheable_file_below_cache [of ord cfg] order(1,2) assms(5) by simp
  qed
qed

theorem scheduled_orders_below_cache_witness:
  "\<exists>a c' rest. serve_request (pkg_libs ''8'' []) pkg_config pkg_surroundings (pkg_request ''/n'') pkg_context
      patient_client = Some (a, c') \<and>
    file_key pkg_config (download_order_new ''uuid'' (str_path_new ''/n'')) = components ''/pkg'' @ rest \<and>
    set rest \<subseteq> range Normal"
proof -
  let ?ord = "download_order_new ''uuid'' (str_path_new ''/n'')"
  have "map_option (\<lambda>(a, c'). ?ord \<in> orders_in_progress c') (serve_request (pkg_libs ''8'' []) pkg_config
      pkg_surroundings (pkg_request ''/n'') pkg_context patient_client) = Some True" by code_simp
  then obtain a c' where run: "serve_request (pkg_libs ''8'' []) pkg_config pkg_surroundings (pkg_request ''/n'')
      pkg_context patient_client = Some (a, c')" and new: "?ord \<in> orders_in_progress c'" by auto
  have "?ord \<notin> orders_in_progress pkg_context" by (simp add: pkg_context_def)
  moreover have "\<not> has_root (path_buf (requested_path ?ord))" by code_simp
  moreover have "cache_directory pkg_config = ''/pkg''" by (simp add: pkg_config_def)
  ultimately obtain rest where "file_key pkg_config ?ord = components ''/pkg'' @ rest"
    "\<forall>x \<in> set rest. \<exists>s. x = Normal s"
    using scheduled_orders_below_cache [OF run new] pkg_paths(9) by auto
  with run show ?thesis by (intro exI [of _ a] exI [of _ c'] exI [of _ rest]) auto
qed

subsection \<open>The metrics\<close>

lemma plain_path_no_repo:
  assumes "path req = str_path_new (CHR ''/'' # s)" and "components s = [Normal s]" and "s \<noteq> ''custom_repo''"
  shows "custom_provider_from_request req repos = (None, req)"
  using assms by (simp add: custom_provider_from_request_def repo_name_from_get_request_def)

text \<open>The metrics are sent twice: the answer announces the length of the text once, but the text
  follows two times, so the second copy is taken by the client for the start of the next answer.\<close>

lemma metrics_sent_twice:
  assumes "path req = str_path_new ''/metrics''" and "accepts k = None"
    and "body = json_of env (metrics (ctx_shared c))"
  shows "\<exists>k'. serve_request lib cfg env req c k = Some ((Inr NoPayload, k'), c) \<and>
    sent k' = sent k @ reply_header_success (len_u64 body) NoPayload (date env) @ body @ body"
proof -
  have comps: "components ''metrics'' = [Normal ''metrics'']" by code_simp
  have "custom_provider_from_request req (configured_repos cfg) = (None, req)"
    by (rule plain_path_no_repo [OF assms(1) comps]) simp
  moreover have "permitted_path ''metrics''" "valid_path ''metrics''" by code_simp+
  moreover have "path_buf (path req) = ''metrics''" "inner (path req) = ''metrics''"
    using assms(1) by simp_all
  ultimately show ?thesis
    using assms(2,3) by (simp add: serve_request_def serve_200_ok_body_def write_all_patient answered_def
        Let_def)
qed

lemma metrics_sent_twice_witness:
  "\<exists>k'. serve_request (pkg_libs ''8'' []) pkg_config pkg_surroundings (pkg_request ''/metrics'') pkg_context
      patient_client = Some ((Inr NoPayload, k'), pkg_context) \<and>
    sent k' = reply_header_success 2 NoPayload ''now'' @ ''{}'' @ ''{}''"
proof -
  have "len_u64 ''{}'' = 2" by (simp add: len_u64_def)
  then show ?thesis
    using metrics_sent_twice [of "pkg_request ''/metrics''" patient_client "''{}''" pkg_surroundings pkg_context] by simp
qed

subsection \<open>Answers from the cache\<close>

lemma serve_cached:
  assumes "custom_provider_from_request req (configured_repos cfg) = (cp, req')"
    and "permitted_path (path_buf (path req'))" and "valid_path (path_buf (path req'))" and "\<not> special_path req'"
    and "ord = download_order_new (fresh_uuid env) (path req')"
    and "try_schedule (download_trait lib cfg) ord cp (resume_from req') c = Some (Cached, c')"
    and "download_is_cacheable ord" and "nodes (files (world (ctx_shared c))) (file_key cfg ord) = Some (FileNode F)"
    and "open_read (later env 0) (file_key cfg ord) = Inr (FileNode F)"
    and "length F < 2 ^ 63" and "moves_bytes (chunk env)" and "accepts k = None"
  shows "\<exists>k'. serve_request lib cfg env req c k = Some ((Inr FromCache, k'), c') \<and>
    sent k' = sent k @ file_header FromCache (date env)
        (of_nat (length F - unat (range_start (resume_from req')))) (resume_from req') @
      drop (unat (range_start (resume_from req'))) F"
proof -
  let ?p = "file_key cfg ord" and ?fs = "files (world (ctx_shared c))" and ?r = "range_start (resume_from req')"
  from assms(6) obtain item w where
    lookup: "cache_lookup (download_trait lib cfg) ord (world (ctx_shared c)) = Some (Some item, w)"
    by (cases rule: try_schedule_cases) (auto simp: decide_def Let_def split: option.splits if_splits)
  then obtain fs' where "persist_and_get_cache_state ?p ?fs = Some (Some item, fs')"
    using assms(7) by (auto simp: cache_lookup_def download_cache_state_def cacheable_no_mkdir split: option.splits)
  then have "cached_size item = len_u64 F"
    using assms(8)
    by (auto simp: persist_and_get_cache_state_def open_read_def stat_def node_len_def Let_def
        split: sum.splits error_kind.splits option.splits if_splits)
  with cached_range_in_bounds [OF assms(6) lookup] have "?r \<le> len_u64 F" by simp
  then have bound: "unat ?r \<le> length F" using unat_len_u64 [OF assms(10)] by (simp add: word_le_nat_alt)
  have "open_order_file cfg ord (later env 0) = Some (Inr (FileNode F))"
    using assms(7,9) by (simp add: open_order_file_def cacheable_no_mkdir)
  then show ?thesis
    using serve_request_order [OF assms(1-4), of lib env c k] assms(6)
      complete_file_served [OF assms(11,10) bound assms(12), of "date env" "later env 0"]
    by (auto simp: Let_def assms(5) answer_outcome_def answer_complete_def)
qed

text \<open>C7: A request for a complete file is answered from the cache, in full: if scheduling answers that
  the order is cached and the file is still what the lookup saw, the client gets a header with the true
  content length and the bytes of the file from the start of its range; the range never starts beyond
  the file, so the unchecked subtraction of the content length does not wrap around.\<close>

theorem cached_request_served:
  assumes "custom_provider_from_request req (configured_repos cfg) = (cp, req')"
    and "permitted_path (path_buf (path req'))" and "valid_path (path_buf (path req'))" and "\<not> special_path req'"
    and "ord = download_order_new (fresh_uuid env) (path req')"
    and "try_schedule (download_trait lib cfg) ord cp (resume_from req') c = Some (Cached, c')"
    and "download_is_cacheable ord" and "nodes (files (world (ctx_shared c))) (file_key cfg ord) = Some (FileNode F)"
    and "open_read (later env 0) (file_key cfg ord) = Inr (FileNode F)"
    and "length F < 2 ^ 63" and "moves_bytes (chunk env)" and "accepts k = None"
  shows "\<exists>k'. serve_request lib cfg env req c k = Some ((Inr FromCache, k'), c') \<and>
    sent k' = sent k @ file_header FromCache (date env)
        (of_nat (length F - unat (range_start (resume_from req')))) (resume_from req') @
      drop (unat (range_start (resume_from req'))) F"
  using assms by (rule serve_cached)

lemma pkg_schedules_a:
  "map_option fst (try_schedule (download_trait (pkg_libs ''8'' []) pkg_config)
      (download_order_new ''uuid'' (str_path_new ''/a'')) None None pkg_context) = Some Cached"
  by code_simp

theorem cached_request_served_witness:
  "\<exists>c' k'. serve_request (pkg_libs ''8'' []) pkg_config pkg_surroundings (pkg_request ''/a'') pkg_context
      patient_client = Some ((Inr FromCache, k'), c') \<and>
    sent k' = file_header FromCache ''now'' 3 None @ ''abc''"
proof -
  let ?ord = "download_order_new ''uuid'' (str_path_new ''/a'')"
  obtain c' where run: "try_schedule (download_trait (pkg_libs ''8'' []) pkg_config) ?ord None None pkg_context =
      Some (Cached, c')"
    using pkg_schedules_a by (rule map_option_fst_SomeE)
  have "nodes (files (world (ctx_shared pkg_context))) (pkg_dir @ [Normal ''a'']) = Some (FileNode ''abc'')"
    "open_read (files pkg_world) (pkg_dir @ [Normal ''a'']) = Inr (FileNode ''abc'')" by code_simp+
  moreover have "\<not> special_path (pkg_request ''/a'')" by (simp add: special_path_def)
  moreover have "moves_bytes (\<lambda>_ count. count)" by (simp add: moves_bytes_def)
  ultimately show ?thesis
    using cached_request_served [where req = "pkg_request ''/a''" and cfg = pkg_config and cp = None and
        req' = "pkg_request ''/a''" and ord = ?ord and env = pkg_surroundings and lib = "pkg_libs ''8'' []" and
        c = pkg_context and c' = c' and F = "''abc''" and k = patient_client]
      run pkg_paths(1,2,7) pkg_file_keys(1)
    by (simp add: no_repo range_start_def del: pkg_dir) blast
qed


definition dir_files :: file_system where
  "dir_files = (files pkg_world)\<lparr>nodes := (nodes (files pkg_world))(pkg_dir @ [Normal ''d''] \<mapsto> DirNode)\<rparr>"

definition dir_context :: flexo_context where
  "dir_context = pkg_context\<lparr>ctx_shared := pkg_shared\<lparr>world := pkg_world\<lparr>files := dir_files\<rparr>\<rparr>\<rparr>"

definition dir_surroundings :: surroundings where
  "dir_surroundings = pkg_surroundings\<lparr>later := (\<lambda>_. dir_files)\<rparr>"

lemma dir_simps [simp]:
  "files (world (ctx_shared dir_context)) = dir_files" "orders_in_progress dir_context = {}"
  "later dir_surroundings t = dir_files" "fresh_uuid dir_surroundings = ''uuid''" "date dir_surroundings = ''now''"
  by (simp_all add: dir_context_def dir_surroundings_def pkg_context_def)


subsection \<open>What the downloading thread says\<close>

lemma received_understood:
  assumes "not_progress_first ms"
  shows "receive_content_length (take n ms) e \<noteq> None"
  using assms
  by (cases ms; cases n) (auto simp: receive_content_length_def not_progress_first_def split: flexo_progress.splits)

text \<open>C21: The client's thread never panics on an unexpected message: however many mirrors an order goes
  through, and however much of what is said has arrived, the first message the client's thread receives
  is a size, a completion or an error, never a mere progress. The other threads, which use channels of
  their own, are assumed not to send on this one.\<close>

theorem first_message_understood:
  assumes "try_until_success (download_trait lib cfg) interference ord cp s = Some (result, s')"
    and "\<forall>n ph s. progress (world (interference n ph s)) ord = progress (world s) ord"
    and "progress (world s) ord = []"
  shows "receive_content_length (take n (progress (world s') ord)) e \<noteq> None"
proof -
  have "not_progress_first (progress (world s') ord)"
    by (rule announcing.try_until_success_keeps [OF assms(1)]) (simp_all add: assms(2,3))
  then show ?thesis by (rule received_understood)
qed

definition locked_shared :: "(download_provider, download_channel, download_world) shared" where
  "locked_shared = pkg_shared\<lparr>world := pkg_world\<lparr>files := (files pkg_world)
     \<lparr>unwritable := {pkg_dir @ [Normal ''b'']}\<rparr>\<rparr>\<rparr>"

theorem first_message_understood_witness:
  "\<exists>result s'. try_until_success (download_trait (pkg_libs ''8'' []) pkg_config) no_interference
      (pkg_order ''b'') (Some pkg_mirror) locked_shared = Some (result, s') \<and>
    (\<exists>m. receive_content_length (take 1 (progress (world s') (pkg_order ''b''))) RecvTimeout = Some m)"
proof -
  have "map_option (\<lambda>_. ()) (try_until_success (download_trait (pkg_libs ''8'' []) pkg_config)
      no_interference (pkg_order ''b'') (Some pkg_mirror) locked_shared) = Some ()" by code_simp
  then obtain result s' where run: "try_until_success (download_trait (pkg_libs ''8'' []) pkg_config)
      no_interference (pkg_order ''b'') (Some pkg_mirror) locked_shared = Some (result, s')" by auto
  have "progress (world locked_shared) (pkg_order ''b'') = []"
    by (simp add: locked_shared_def pkg_shared_def pkg_world_def)
  then have "receive_content_length (take 1 (progress (world s') (pkg_order ''b''))) RecvTimeout \<noteq> None"
    by (intro first_message_understood [OF run]) (simp_all add: no_interference_def)
  with run show ?thesis by blast
qed

end
