(* ===== verification/Connection_Properties.thy ===== *)
theory Connection_Properties
  imports Request_Properties
begin

section \<open>Properties of connections\<close>

text \<open>
  A connection is a conversation of answered requests, and each of its requests, and the thread of the
  whole connection, is a run of the state machine of the job context.
\<close>

subsection \<open>A conversation\<close>






definition parse_status :: "string \<Rightarrow> request_parse" where
  "parse_status s = (if s = ''ab'' then RequestComplete
     \<lparr>hr_headers = [], hr_path = Some ''/status'', hr_method = Some ''GET''\<rparr> else RequestPartial)"


text \<open>One request for the status, in two packets.\<close>

lemma status_connection:
  "serve_client (pkg_libs ''8'' []) pkg_config parse_status (\<lambda>_. pkg_surroundings) (\<lambda>_ c. c)
      [Inr ''a'', Inr ''b''] pkg_context patient_client =
    Some (Inr False, pkg_context, patient_client\<lparr>sent := reply_header_success 0 NoPayload ''now''\<rparr>)"
proof -
  have header: "read_client_header parse_status [Inr ''a'', Inr ''b''] =
      (Inr (ClientRequest (pkg_request ''/status'')), [])"
    "read_client_header parse_status [] = (Inr SocketClosed, [])"
    by (simp_all add: read_client_header_def read_header_loop.simps [of _ "[]"] parse_status_def
        read_header_loop.simps [of _ "''a''"] MAX_HEADER_SIZE_def
        request_new_def resume_from_headers_def pkg_request_def)
  have "permitted_path ''status''" "valid_path ''status''" by code_simp+
  then have status: "serve_request (pkg_libs ''8'' []) pkg_config pkg_surroundings (pkg_request ''/status'')
      pkg_context patient_client = Some ((Inr NoPayload,
        patient_client\<lparr>sent := reply_header_success 0 NoPayload ''now''\<rparr>), pkg_context)"
    by (simp add: serve_request_def no_repo serve_200_ok_empty_def write_all_patient answered_def)
  show ?thesis
    by (simp add: serve_client_def serve_client_loop.simps [of _ _ _ _ _ 0]
        serve_client_loop.simps [of _ _ _ _ _ "Suc 0"] header status)
qed


subsection \<open>Connections and the state machine\<close>

abbreviation flexo_steps ::
  "libs \<Rightarrow> mirror_config \<Rightarrow> (download_channel \<Rightarrow> nat) \<Rightarrow> flexo_context \<Rightarrow> flexo_context \<Rightarrow> bool" where
  "flexo_steps lib cfg token \<equiv> (ctx_step (download_trait lib cfg) token)\<^sup>*\<^sup>*"

lemma drop_outcome_steps: "flexo_steps lib cfg token c (drop_outcome out c)"
  by (cases out) (auto intro: ctx_step.redirected)

lemma serve_request_steps:
  assumes "serve_request lib cfg env req c k = Some (a, c')"
  shows "flexo_steps lib cfg token c c'"
proof -
  obtain cp req' where "custom_provider_from_request req (configured_repos cfg) = (cp, req')" by fastforce
  with assms show ?thesis
  proof (cases rule: serve_request_cases)
    case same
    then show ?thesis by (auto intro: ctx_step.reset)
  next
    case (order out c1)
    from order(3) have "ctx_step (download_trait lib cfg) token c c1" by (rule ctx_step.sched)
    then show ?thesis unfolding order(4) using drop_outcome_steps by (rule converse_rtranclp_into_rtranclp)
  qed
qed

lemma serve_client_loop_steps:
  assumes "serve_client_loop lib cfg parse env others n tainted rs c k = Some result"
    and "\<And>n c. flexo_steps lib cfg token c (others n c)"
  shows "flexo_steps lib cfg token c (fst (snd result))"
  using assms
proof (induction rule: serve_client_loop.raw_induct [rotated 1, consumes 1, case_names step])
  case (step serve lib cfg parse env others n tainted rs c k result)
  note others = step(3) [of c n]
  obtain x rs1 where read: "read_client_header parse rs = (x, rs1)" by fastforce
  note run = step(2) [unfolded read prod.case]
  show ?case
  proof (cases "\<exists>req. x = Inr (ClientRequest req)")
    case True
    then obtain req where x: "x = Inr (ClientRequest req)" ..
    with run obtain r k1 c1 where answer: "serve_request lib cfg (env n) req (others n c) k = Some ((r, k1), c1)"
      by (auto simp: Option.bind_eq_Some_conv)
    from others serve_request_steps [OF answer] have here: "flexo_steps lib cfg token c c1" by (rule rtranclp_trans)
    show ?thesis
    proof (cases r)
      case (Inl e)
      with run x answer here show ?thesis by (auto split: prod.splits option.splits)
    next
      case (Inr origin)
      with run x answer have "serve lib cfg parse env others (Suc n) (tainted \<or> origin = RemoteMirror) rs1 c1 k1 =
          Some result" by simp
      from step(1) [OF this step(3)] have "flexo_steps lib cfg token c1 (fst (snd result))" .
      with here show ?thesis by (rule rtranclp_trans)
    qed
  next
    case False
    with run others show ?thesis
      by (auto split: sum.splits client_response.splits prod.splits option.splits)
  qed
qed

text \<open>Clients drive the job context through the steps of its state machine only: if what the other
  threads do between the requests of a connection is a run of the machine, then so is the whole thread
  of the connection, the requests it answers as well as the purging after it. Hence, together with the
  property on the thread of an order, the invariants of the machine hold throughout the program.\<close>

lemma connection_refines_steps:
  assumes "connection_thread lib cfg parse env others flexo_purge_cache glob_cfs age glob_uncacheable rs c k =
      Some (c', k')"
    and "\<And>n c. (ctx_step (download_trait lib cfg) token)\<^sup>*\<^sup>* c (others n c)"
  shows "(ctx_step (download_trait lib cfg) token)\<^sup>*\<^sup>* c c'"
proof -
  from assms(1) obtain result c1 k1 fs where
    run: "serve_client lib cfg parse env others rs c k = Some (result, c1, k1)"
    and c': "c' = c1\<lparr>ctx_shared := (ctx_shared c1)\<lparr>world := (world (ctx_shared c1))\<lparr>files := fs\<rparr>\<rparr>\<rparr>"
    by (auto simp: connection_thread_def Option.bind_eq_Some_conv)
  have "(ctx_step (download_trait lib cfg) token)\<^sup>*\<^sup>* c c1"
    using serve_client_loop_steps [OF run [unfolded serve_client_def] assms(2)] by simp
  moreover have "ctx_step (download_trait lib cfg) token c1 c'" unfolding c' by (rule ctx_step.outside)
  ultimately show ?thesis by (rule rtranclp.rtrancl_into_rtrancl)
qed

lemma connection_refines_steps_witness:
  "\<exists>c' k'. connection_thread (pkg_libs ''8'' []) pkg_config parse_status (\<lambda>_. pkg_surroundings) (\<lambda>_ c. c)
      (\<lambda>_ fs. fs) (\<lambda>_. []) (\<lambda>_. None) (\<lambda>_. []) [Inr ''a'', Inr ''b''] pkg_context patient_client = Some (c', k') \<and>
    (ctx_step (download_trait (pkg_libs ''8'' []) pkg_config) handle)\<^sup>*\<^sup>* pkg_context c'"
proof -
  obtain c' k' where run: "connection_thread (pkg_libs ''8'' []) pkg_config parse_status (\<lambda>_. pkg_surroundings)
      (\<lambda>_ c. c) (\<lambda>_ fs. fs) (\<lambda>_. []) (\<lambda>_. None) (\<lambda>_. []) [Inr ''a'', Inr ''b''] pkg_context patient_client =
      Some (c', k')"
    by (simp add: connection_thread_def status_connection after_client_def)
  from connection_refines_steps [OF run rtranclp.rtrancl_refl] run show ?thesis by blast
qed

end
