(* ===== verification/Startup_Properties.thy ===== *)
theory Startup_Properties
  imports Startup Download_Properties
begin

section \<open>Properties of choosing mirrors\<close>

text \<open>
  Which mirrors a rating yields and in which order, what the retries of a rating try, how fetching
  retries and falls back, and with which providers the program starts.
\<close>

subsection \<open>Rating\<close>







text \<open>Two mirrors, the second one faster.\<close>

definition plain_floats :: f64_ops where
  "plain_floats = \<lparr>f64_less = (\<lambda>_ _. False), f64_add = (+), f64_mul = (*), f64_div = (\<lambda>a _. a),
     f64_of_u64 = id, f64_to_u64 = id\<rparr>"

definition plain_auto :: mirrors_auto_config where
  "plain_auto = \<lparr>mirrors_status_json_endpoint = DEFAULT_JSON_URI, mirrors_status_json_endpoint_fallbacks = [],
     mirrors_blacklist = [], https_required = True, auto_ipv4 = True, auto_ipv6 = False, max_score = 0,
     num_mirrors = 8, random_or_sort = Sort, timeout = 350, allowed_countries = []\<rparr>"

definition plain_mirror :: "string \<Rightarrow> mirror" where
  "plain_mirror u = \<lparr>mirror_url = u, mirror_protocol = Https, last_sync = '''', completion_pct = 0, delay = 0,
     duration_avg = 0, duration_stddev = 0, score = 0, mirror_country = ''DE'', mirror_ipv4 = True,
     mirror_ipv6 = True\<rparr>"

definition plain_test :: "string \<Rightarrow> duration \<Rightarrow> nat + mirror_results" where
  "plain_test u d = (if u = ''https://a/'' then Inr (default_mirror_results\<lparr>total_time := 9\<rparr>)
     else if u = ''https://b/'' then Inr (default_mirror_results\<lparr>total_time := 4\<rparr>) else Inl 28)"


subsection \<open>Relaxing the settings\<close>

lemma retry_same:
  assumes "\<forall>i. test i = t" and "rated_providers fl t mirrors (relax fl auto) countries lim = Some []"
    and "0 \<notin> set is'"
  shows "retry_ratings fl test mirrors auto countries lim is' = Some []"
  using assms(3) by (induction is') (auto simp: assms(1,2) Let_def)

text \<open>C40: Relaxing the settings is not cumulative: every attempt after the first relaxes the original
  settings once. Under a network that behaves the same each time, the five attempts are worth two: the
  configured settings, then a score raised by 3.0 and a time-out raised by 100 milliseconds, however empty
  the result.\<close>

theorem relaxing_not_cumulative:
  assumes "\<forall>i. test i = t"
  shows "rated_providers_retry fl test mirrors auto countries lim =
    (case rated_providers fl t mirrors auto countries lim of
       Some [] \<Rightarrow> rated_providers fl t mirrors (relax fl auto) countries lim
     | r \<Rightarrow> r)"
proof -
  let ?r = "rated_providers fl t mirrors (relax fl auto) countries lim"
  have list: "[0..<LATENCY_TEST_NUM_ATTEMPTS] = [0, 1, 2, 3, 4]"
    by (simp add: LATENCY_TEST_NUM_ATTEMPTS_def upt_rec)
  have "retry_ratings fl test mirrors auto countries lim [1, 2, 3, 4] = ?r"
  proof (cases "?r = Some []")
    case True
    then show ?thesis using retry_same [OF assms True, of "[1, 2, 3, 4]"] by (simp del: retry_ratings.simps)
  next
    case False
    then show ?thesis by (simp add: assms Let_def split: option.splits)
  qed
  then show ?thesis
    unfolding rated_providers_retry_def list
    by (simp add: assms Let_def del: One_nat_def split: option.splits list.splits)
qed

theorem relaxing_not_cumulative_witness:
  "rated_providers_retry plain_floats (\<lambda>_. plain_test) [plain_mirror ''https://slow/''] plain_auto AllCountries NoLimit =
    Some []"
proof -
  have "rated_providers plain_floats plain_test [plain_mirror ''https://slow/''] auto AllCountries NoLimit = Some []" for auto
    by (auto simp: rated_providers_def candidate_mirrors_def Let_def List.map_filter_simps plain_test_def plain_mirror_def)
  then show ?thesis
    by (simp add: relaxing_not_cumulative [of "\<lambda>_. plain_test" plain_test])
qed

subsection \<open>Fetching\<close>

lemma try_attempts_result:
  assumes "1 \<le> n" and "n \<le> max_attempts" and "try_attempts_from max_attempts n action = (r, k)"
  shows "n \<le> k \<and> k \<le> max_attempts \<and> r = action (k - 1) \<and>
    (\<forall>i. n \<le> Suc i \<longrightarrow> Suc i < k \<longrightarrow> (\<exists>e. action i = Inl e)) \<and> ((\<exists>e. r = Inl e) \<longrightarrow> k = max_attempts)"
  using assms
proof (induction max_attempts n action rule: try_attempts_from.induct)
  case (1 max_attempts n action)
  show ?case
  proof (cases "action (n - 1)")
    case (Inr v)
    with 1 show ?thesis by (auto simp: try_attempts_from.simps [of max_attempts n])
  next
    case (Inl e)
    show ?thesis
    proof (cases "n < max_attempts")
      case True
      with Inl 1(4) have rest: "try_attempts_from max_attempts (n + 1) action = (r, k)"
        by (simp add: try_attempts_from.simps [of max_attempts n])
      have bounds: "1 \<le> n + 1" "n + 1 \<le> max_attempts" using True by simp_all
      note IH = 1(1) [OF Inl True bounds rest]
      have here: "\<exists>e. action i = Inl e" if "n = Suc i" for i using that Inl by simp
      have later: "\<exists>e. action i = Inl e" if "n + 1 \<le> Suc i" "Suc i < k" for i using IH that by blast
      have "\<exists>e. action i = Inl e" if "n \<le> Suc i" "Suc i < k" for i
        using here [of i] later [of i] that by (cases "n = Suc i") simp_all
      moreover have "n + 1 \<le> k" using IH by (rule conjunct1)
      then have "n \<le> k" by simp
      ultimately show ?thesis using IH by blast
    next
      case False
      with Inl 1(4) have "r = Inl e \<and> k = n" by (simp add: try_attempts_from.simps [of max_attempts n])
      with False Inl 1(2,3) show ?thesis by auto
    qed
  qed
qed

text \<open>Fetching the list of mirrors is retried at most seven times: \<open>try_num_attempts\<close> makes between
  one and the given number of calls, stops at the first that succeeds, returns what the last call returned,
  and reports an error only after all of them failed.\<close>

lemma attempts_bounded:
  assumes "try_num_attempts max_attempts action = (r, k)" and "1 \<le> max_attempts"
  shows "1 \<le> k \<and> k \<le> max_attempts \<and> r = action (k - 1) \<and> (\<forall>i. Suc i < k \<longrightarrow> (\<exists>e. action i = Inl e)) \<and>
    ((\<exists>e. r = Inl e) \<longrightarrow> k = max_attempts)"
proof -
  have one: "1 \<le> Suc i" for i by simp
  from try_attempts_result [OF order_refl assms(2) assms(1) [unfolded try_num_attempts_def]] one
  show ?thesis by blast
qed

theorem attempts_bounded_witness:
  "\<exists>k. try_num_attempts INITIAL_CONNECTIVITY_NUM_ATTEMPTS (\<lambda>n. if n < 2 then Inl ''down'' else Inr n) = (Inr 2, k) \<and>
    k \<le> 8"
proof -
  let ?a = "\<lambda>n. if n < 2 then Inl ''down'' else Inr n"
  have "try_attempts_from 8 3 ?a = (Inr 2, 3)" by (subst try_attempts_from.simps) simp
  then have "try_attempts_from 8 2 ?a = (Inr 2, 3)" by (subst try_attempts_from.simps) simp
  then have "try_attempts_from 8 1 ?a = (Inr 2, 3)" by (subst try_attempts_from.simps) (simp add: numeral_2_eq_2)
  then have run: "try_num_attempts INITIAL_CONNECTIVITY_NUM_ATTEMPTS ?a = (Inr 2, 3)"
    by (simp add: try_num_attempts_def INITIAL_CONNECTIVITY_NUM_ATTEMPTS_def)
  have "1 \<le> INITIAL_CONNECTIVITY_NUM_ATTEMPTS" by (simp add: INITIAL_CONNECTIVITY_NUM_ATTEMPTS_def)
  from attempts_bounded [OF run this] run show ?thesis
    by (simp add: INITIAL_CONNECTIVITY_NUM_ATTEMPTS_def)
qed

text \<open>The first endpoint that answers decides.\<close>

lemma try_fallbacks_first:
  "try_fallbacks fetch r us =
    (case List.find (\<lambda>x. \<exists>ms. x = Inr ms) (r # map fetch us) of
       Some x \<Rightarrow> x
     | None \<Rightarrow> last (r # map fetch us))"
  by (induction fetch r us rule: try_fallbacks.induct) (auto split: option.splits)

subsection \<open>The stored results\<close>

lemma read_after_overwrite:
  assumes "overwrite_file p s fs = Inr fs'" and "p \<notin> unreadable fs"
  shows "read_file fs' p = Inr s"
proof -
  obtain fs1 where op: "open_write True p fs = Inr fs1" and ap: "append_file p s fs1 = Inr fs'"
    using assms(1) by (auto simp: overwrite_file_def split: sum.splits)
  have fs1: "fs1 = write_node p '''' fs" "walk_error fs p = None"
    using op by (auto simp: open_write_def split: option.splits node.splits if_splits)
  have "fs' = write_node p s fs1" using ap fs1 by (simp add: append_file_def split: if_splits)
  then show ?thesis
    using fs1 assms(2) by (simp add: read_file_def open_read_def stat_def)
qed

lemma create_dirs_unreadable: "create_dirs ds fs = Inr fs' \<Longrightarrow> unreadable fs' = unreadable fs"
  by (induction ds fs rule: create_dirs.induct) (auto split: option.splits node.splits if_splits)

lemma create_parent_unreadable: "create_parent p fs = Some fs' \<Longrightarrow> unreadable fs' = unreadable fs"
  by (auto simp: create_parent_def create_dir_unless_exists_def create_dir_all_def
      split: option.splits sum.splits if_splits dest: create_dirs_unreadable)

text \<open>C33: The results of the latency tests survive a restart: what \<open>store_latency_test_results\<close> writes,
  \<open>fetch_download_providers\<close> reads back with its time stamp and its version, provided the JSON crate
  reads what it wrote and the file can be read.\<close>

theorem latency_results_roundtrip:
  assumes "t = \<lparr>tdp_version = Some 3, tdp_timestamp = now, tdp_providers = ps\<rparr>"
    and "version_of js (to_json js t) = Some (Some 3)" and "providers_of js (to_json js t) = Some t"
    and "store_latency_test_results js now cfg ps fs = Some (ps', fs')"
    and "components (latency_test_results_file cfg) \<notin> unreadable fs"
  shows "ps' = ps \<and> fetch_download_providers js cfg fs' = Inr t"
proof -
  let ?p = "components (latency_test_results_file cfg)"
  obtain fs1 where parent: "create_parent ?p fs = Some fs1" and wr: "overwrite_file ?p (to_json js t) fs1 = Inr fs'"
    and ps: "ps' = ps"
    using assms(4)
    by (auto simp: store_latency_test_results_def Let_def assms(1) TIMESTAMPED_DOWNLOAD_PROVIDERS_VERSION_def
        split: option.splits sum.splits)
  have "read_file fs' ?p = Inr (to_json js t)"
    using read_after_overwrite [OF wr] create_parent_unreadable [OF parent] assms(5) by simp
  then show ?thesis
    using ps assms(2,3)
    by (simp add: fetch_download_providers_def TIMESTAMPED_DOWNLOAD_PROVIDERS_VERSION_def)
qed

definition plain_json :: json_lib where
  "plain_json = \<lparr>to_json = tdp_timestamp, version_of = (\<lambda>_. Some (Some 3)),
     providers_of = (\<lambda>s. Some \<lparr>tdp_version = Some 3, tdp_timestamp = s, tdp_providers = [pkg_mirror]\<rparr>)\<rparr>"

definition state_config :: mirror_config where
  "state_config = plain_config\<lparr>mirrorlist_latency_test_results_file := Some ''/pkg/r''\<rparr>"

theorem latency_results_roundtrip_witness:
  "\<exists>fs'. store_latency_test_results plain_json ''now'' state_config [pkg_mirror] small_cache = Some ([pkg_mirror], fs') \<and>
    fetch_download_providers plain_json state_config fs' =
      Inr \<lparr>tdp_version = Some 3, tdp_timestamp = ''now'', tdp_providers = [pkg_mirror]\<rparr>"
proof -
  have "map_option (\<lambda>_. ()) (store_latency_test_results plain_json ''now'' state_config [pkg_mirror] small_cache) = Some ()"
    by code_simp
  then obtain ps fs' where run: "store_latency_test_results plain_json ''now'' state_config [pkg_mirror] small_cache =
      Some (ps, fs')" by auto
  have "components (latency_test_results_file state_config) \<notin> unreadable small_cache"
    by (simp add: small_cache_def)
  from latency_results_roundtrip [OF refl _ _ run this] run show ?thesis by (simp add: plain_json_def)
qed

subsection \<open>The job context the program starts with\<close>

lemma reachable_providers_same:
  "(ctx_step tr token)\<^sup>*\<^sup>* c c' \<Longrightarrow> guard_providers (guards (ctx_shared c')) = guard_providers (guards (ctx_shared c))"
  by (induction rule: rtranclp_induct) (simp_all add: ctx_step_providers)

text \<open>The program never runs without mirrors: if it starts at all, then in every state it can reach it has
  at least one provider and no two with the same URI, which is what selecting a provider and the retry
  loop need; the predefined mirrors are used as they are configured.\<close>

lemma started_program_has_mirrors:
  assumes "start_flexo lib env tv vars toml walk w = Some (Inr (cfg, c))"
    and "(ctx_step (download_trait lib cfg) token)\<^sup>*\<^sup>* c c'"
  shows "ctx_reachable (download_trait lib cfg) token c' \<and> guards (ctx_shared c') \<noteq> [] \<and>
    distinct (map uri (guard_providers (guards (ctx_shared c')))) \<and>
    (selection_method cfg = Predefined \<longrightarrow>
      guard_providers (guards (ctx_shared c')) = map predefined_provider (mirrors_predefined cfg))"
proof -
  from assms(1) obtain w0 where init: "initialize_job_context lib env cfg w0 = Some (Inr c)"
    by (auto simp: start_flexo_def map_sum_def split: option.splits sum.splits)
  from init obtain ps w' where new: "job_context_new (download_trait lib cfg) ps w' = Some c"
    and ne: "ps \<noteq> []" and conf: "configured_providers env cfg (files w0) = Some ps"
    by (auto simp: initialize_job_context_def store_latency_test_results_def Let_def
        split: option.splits if_splits mirror_selection_method.splits sum.splits)
  have ps: "guard_providers (guards (ctx_shared c)) = ps"
    using new by (auto simp: job_context_new_def simp del: map_map split: option.splits)
  note same = reachable_providers_same [OF assms(2)]
  have reach: "ctx_reachable (download_trait lib cfg) token c'"
    using assms(2) by (induction rule: rtranclp_induct) (auto intro: ctx_reachable.intros new)
  have "guards (ctx_shared c') \<noteq> []" using same ps ne by auto
  moreover have "distinct (map uri (guard_providers (guards (ctx_shared c'))))"
    using ctx_reachable_providers [OF reach] by simp
  moreover have "selection_method cfg = Predefined \<Longrightarrow> ps = map predefined_provider (mirrors_predefined cfg)"
    using conf by (simp add: configured_providers_def)
  ultimately show ?thesis using reach same ps by auto
qed

definition plain_start :: start_env where
  "plain_start = \<lparr>json = plain_json, chrono = \<lparr>parse_from_rfc3339 = (\<lambda>_. None), from_std = (\<lambda>d. Some (int d)),
       utc_now = 0\<rparr>, parse_duration = (\<lambda>_. None), floats = plain_floats, latency_tests = (\<lambda>_. plain_test),
     transfers = (\<lambda>_ _. Inl 7), mirrors_of_json = (\<lambda>_. None), timestamp_now = ''now''\<rparr>"

definition start_world :: download_world where
  "start_world = pkg_world\<lparr>files := (files pkg_world)\<lparr>nodes := (nodes (files pkg_world))
     ([RootDir, Normal ''etc''] \<mapsto> DirNode, [RootDir, Normal ''etc'', Normal ''flexo''] \<mapsto> DirNode,
      [RootDir, Normal ''etc'', Normal ''flexo'', Normal ''flexo.toml''] \<mapsto> FileNode ''t'')\<rparr>\<rparr>"

lemma started_program_has_mirrors_witness:
  "\<exists>c. start_flexo (pkg_libs ''8'' []) plain_start no_toml [] (\<lambda>_. Some pkg_config) (\<lambda>_. Some []) start_world =
      Some (Inr (pkg_config, c)) \<and>
    guard_providers (guards (ctx_shared c)) = [predefined_provider ''https://mirror.example/'']"
proof -
  let ?toml = "\<lambda>_. Some pkg_config"
  have "read_file (files start_world) (components CONFIG_FILE) = Inr ''t''" "from_utf8 ''t'' = Some ''t''"
    by code_simp+
  then have loaded: "load_config no_toml [] (mirror_config_from_toml ?toml (files start_world)) = Some pkg_config"
    by (simp add: load_config_def mirror_config_from_toml_def)
  have "map_option (\<lambda>_. ()) (inspect_and_initialize_cache pkg_config (\<lambda>_. Some []) (files start_world)) = Some ()"
    by code_simp
  then obtain n fs where inspected:
      "inspect_and_initialize_cache pkg_config (\<lambda>_. Some []) (files start_world) = Some (n, fs)" by auto
  have conf: "selection_method pkg_config = Predefined" "mirrors_predefined pkg_config = [''https://mirror.example/'']"
    by (simp_all add: pkg_config_def plain_config_def)
  have "job_context_new (download_trait (pkg_libs ''8'' []) pkg_config)
      [predefined_provider ''https://mirror.example/''] (start_world\<lparr>files := fs\<rparr>) \<noteq> None"
    unfolding job_context_new_iff by simp
  then obtain c where "start_flexo (pkg_libs ''8'' []) plain_start no_toml [] ?toml (\<lambda>_. Some []) start_world =
      Some (Inr (pkg_config, c))"
    using conf loaded inspected
    by (auto simp: start_flexo_def initialize_job_context_def configured_providers_def)
  from started_program_has_mirrors [OF this rtranclp.rtrancl_refl] this show ?thesis
    using conf by auto
qed

end
