(* ===== verification/Program_Properties.thy ===== *)
theory Program_Properties
  imports Program Connection_Properties Startup_Properties
begin

section \<open>Properties of the running program\<close>

text \<open>
  Every step of the program is a run of the state machine of the job context, so that what holds in the
  reachable states of the latter holds throughout; only one connection purges the cache at a time; and
  the thread of a connection, as one function, is a run of the program.
\<close>

abbreviation program_steps ::
  "libs \<Rightarrow> mirror_config \<Rightarrow> (string \<Rightarrow> request_parse) \<Rightarrow> command \<Rightarrow> (file_system \<Rightarrow> component list list) \<Rightarrow>
    (file_system \<Rightarrow> component list list) \<Rightarrow> program \<Rightarrow> program \<Rightarrow> bool" where
  "program_steps lib cfg parse cmd glob_cfs glob_uncacheable \<equiv>
     (program_step lib cfg parse cmd glob_cfs glob_uncacheable)\<^sup>*\<^sup>*"

lemma moves_simps [simp]:
  "ctx (moves i c conn p) = c" "purge_mutex (moves i c conn p) = purge_mutex p"
  "connections (moves i c conn p) = (connections p)(i \<mapsto> conn)"
  "next_connection (moves i c conn p) = next_connection p"
  "moves i c1 x (moves i c conn p) = moves i c1 x p"
  "(moves i c conn p)\<lparr>ctx := c1\<rparr> = moves i c1 conn p"
  by (simp_all add: moves_def)

lemma program_new_simps [simp]:
  "ctx (program_new c) = c" "connections (program_new c) i = None" "purge_mutex (program_new c) = None"
  by (simp_all add: program_new_def)

lemma set_files_steps: "flexo_steps lib cfg token c (set_files fs c)"
  unfolding set_files_def by (rule r_into_rtranclp, rule ctx_step.outside)

subsection \<open>The job context inside the program\<close>

lemma program_step_context:
  "program_step lib cfg parse cmd glob_cfs glob_uncacheable p p' \<Longrightarrow> flexo_steps lib cfg handle (ctx p) (ctx p')"
proof (induction rule: program_step.induct)
  case (immediate p i tainted rs k req rs1 env a c)
  then show ?case using serve_request_steps by simp
next
  case (scheduled p i tainted rs k req rs1 cp req' ord fresh out c)
  then show ?case by (auto intro: ctx_step.sched)
next
  case (answered p i tainted rs ord resume out k env a)
  then show ?case by (simp add: drop_outcome_steps)
next
  case (background p c)
  then show ?case by auto
qed (simp_all add: set_files_steps)

lemma program_steps_context:
  "program_steps lib cfg parse cmd glob_cfs glob_uncacheable p p' \<Longrightarrow> flexo_steps lib cfg handle (ctx p) (ctx p')"
  by (induction rule: rtranclp_induct) (auto dest!: program_step_context)

text \<open>C11: The invariants of the job context hold throughout the program: from its start on, with any number
  of connections, orders and purges interleaved in any way, the context is in a reachable state of its
  state machine, so that no order is downloaded twice at a time and no connection is shared; there is at least
  one provider, no two have the same URL, and the predefined mirrors are used as they are configured.\<close>

theorem program_keeps_context:
  assumes "flexo_main lib env tv vars toml walk tcp_bind w = Some (Inr (cfg, p0))"
    and "(program_step lib cfg parse cmd glob_cfs glob_uncacheable)\<^sup>*\<^sup>* p0 p"
  shows "ctx_reachable (download_trait lib cfg) handle (ctx p) \<and> ctx_inv (ctx p) \<and>
    exclusive_channels handle (ctx p) \<and> guards (ctx_shared (ctx p)) \<noteq> [] \<and>
    distinct (map uri (guard_providers (guards (ctx_shared (ctx p))))) \<and>
    (selection_method cfg = Predefined \<longrightarrow>
      guard_providers (guards (ctx_shared (ctx p))) = map predefined_provider (mirrors_predefined cfg))"
proof -
  from assms(1) obtain c where "start_flexo lib env tv vars toml walk w = Some (Inr (cfg, c))"
    and p0: "p0 = program_new c" by (auto simp: flexo_main_def split: option.splits sum.splits if_splits)
  note mirrors = started_program_has_mirrors [OF this(1) program_steps_context [OF assms(2), unfolded p0 program_new_simps]]
  then have "ctx_inv (ctx p)" "exclusive_channels handle (ctx p)"
    using ctx_reachable_inv ctx_reachable_exclusive [OF _ download_keeps_handle] by blast+
  with mirrors show ?thesis by blast
qed

theorem program_keeps_context_witness:
  "\<exists>c p. flexo_main (pkg_libs ''8'' []) plain_start no_toml [] (\<lambda>_. Some pkg_config) (\<lambda>_. Some []) (\<lambda>_. True)
      start_world = Some (Inr (pkg_config, program_new c)) \<and>
    (program_step (pkg_libs ''8'' []) pkg_config parse_status (\<lambda>_ fs. fs) (\<lambda>_. []) (\<lambda>_. []))\<^sup>*\<^sup>* (program_new c) p \<and>
    connections p 0 \<noteq> None \<and>
    guard_providers (guards (ctx_shared (ctx p))) = [predefined_provider ''https://mirror.example/'']"
proof -
  let ?step = "program_step (pkg_libs ''8'' []) pkg_config parse_status (\<lambda>_ fs. fs) (\<lambda>_. []) (\<lambda>_. [])"
  obtain c where "start_flexo (pkg_libs ''8'' []) plain_start no_toml [] (\<lambda>_. Some pkg_config) (\<lambda>_. Some [])
      start_world = Some (Inr (pkg_config, c))" using started_program_has_mirrors_witness by blast
  then have start: "flexo_main (pkg_libs ''8'' []) plain_start no_toml [] (\<lambda>_. Some pkg_config) (\<lambda>_. Some [])
      (\<lambda>_. True) start_world = Some (Inr (pkg_config, program_new c))" by (simp add: flexo_main_def)
  let ?p = "moves 0 c (AwaitRequest False [] patient_client) ((program_new c)\<lparr>next_connection := Suc 0\<rparr>)"
  have run: "?step\<^sup>*\<^sup>* (program_new c) ?p"
    using program_step.accept [of _ _ _ _ _ _ "program_new c" "[]" patient_client]
    by (simp add: program_new_def r_into_rtranclp)
  have conf: "selection_method pkg_config = Predefined" "mirrors_predefined pkg_config = [''https://mirror.example/'']"
    by (simp_all add: pkg_config_def plain_config_def)
  have "connections ?p 0 \<noteq> None" by simp
  moreover have "guard_providers (guards (ctx_shared (ctx ?p))) = [predefined_provider ''https://mirror.example/'']"
    using program_keeps_context [OF start run, THEN conjunct2, THEN conjunct2, THEN conjunct2, THEN conjunct2,
        THEN conjunct2] conf
    by (simp only: simp_thms list.map)
  ultimately show ?thesis using start run by (intro exI [of _ c] exI [of _ ?p] conjI)
qed

subsection \<open>One request\<close>

lemma background_run:
  "flexo_steps lib cfg handle c c' \<Longrightarrow>
    program_steps lib cfg parse cmd glob_cfs glob_uncacheable (moves i c conn p) (moves i c' conn p)"
proof (induction rule: rtranclp_induct)
  case (step c1 c2)
  have "program_step lib cfg parse cmd glob_cfs glob_uncacheable (moves i c1 conn p) ((moves i c1 conn p)\<lparr>ctx := c2\<rparr>)"
    by (rule program_step.background) (simp add: step.hyps(2))
  with step.IH show ?case by simp
qed simp

lemma request_run:
  assumes "read_client_header parse rs = (Inr (ClientRequest req), rs1)"
    and "serve_request lib cfg env req c k = Some (a, c')"
  shows "program_steps lib cfg parse cmd glob_cfs glob_uncacheable (moves i c (AwaitRequest tainted rs k) p)
    (moves i c' (after_answer (date env) tainted rs1 a) p)"
proof (cases "order_request cfg req")
  case None
  then show ?thesis
    using program_step.immediate [of "moves i c (AwaitRequest tainted rs k) p" i tainted rs k parse req rs1 cfg lib env a c']
      assms by auto
next
  case (Some r)
  obtain cp req' where r: "r = (cp, req')" by (cases r)
  with Some have custom: "custom_provider_from_request req (configured_repos cfg) = (cp, req')"
    and guards: "permitted_path (path_buf (path req'))" "valid_path (path_buf (path req'))" "\<not> special_path req'"
    by (auto simp: order_request_def split: prod.splits if_splits)
  let ?ord = "download_order_new (fresh_uuid env) (path req')"
  from assms(2) serve_request_order [OF custom guards, of lib env c k] obtain out c1 where
    sched: "try_schedule (download_trait lib cfg) ?ord cp (resume_from req') c = Some (out, c1)"
    and answer: "answer_outcome env cfg ?ord (resume_from req') out k = Some a" and c': "c' = drop_outcome out c1"
    by (auto simp: Let_def split: option.splits)
  let ?answering = "moves i c1 (Answering tainted rs1 ?ord (resume_from req') out k) p"
  have "program_step lib cfg parse cmd glob_cfs glob_uncacheable (moves i c (AwaitRequest tainted rs k) p) ?answering"
    using program_step.scheduled [of "moves i c (AwaitRequest tainted rs k) p" i tainted rs k parse req rs1 cfg cp req'
        ?ord "fresh_uuid env" lib out c1] assms(1) Some r sched by simp
  moreover have "program_step lib cfg parse cmd glob_cfs glob_uncacheable ?answering
      (moves i c' (after_answer (date env) tainted rs1 a) p)"
    using program_step.answered [of ?answering i tainted rs1 ?ord "resume_from req'" out k env cfg a] answer c' by simp
  ultimately show ?thesis by (rule converse_rtranclp_into_rtranclp [OF _ r_into_rtranclp])
qed

subsection \<open>One purge at a time\<close>

fun purging :: "connection \<Rightarrow> bool" where
  "purging (PurgingPackages k) = True"
| "purging (PurgingSizes k) = True"
| "purging conn = False"

definition purge_inv :: "mirror_config \<Rightarrow> program \<Rightarrow> bool" where
  "purge_inv cfg p \<longleftrightarrow> (\<forall>i. connections p i \<noteq> None \<longrightarrow> i < next_connection p) \<and>
     (\<forall>i. purge_mutex p = Some i \<longleftrightarrow> (\<exists>conn. connections p i = Some conn \<and> purging conn)) \<and>
     (\<forall>i k. connections p i = Some (PurgingPackages k) \<longrightarrow> num_versions_retain cfg \<noteq> None)"

lemma purging_after_answer [simp]: "\<not> purging (after_answer now tainted rs a)"
  by (auto simp: after_answer_def split: prod.splits sum.splits option.splits)

lemma after_answer_no_purge [simp]: "after_answer now tainted rs a \<noteq> PurgingPackages k"
  by (metis purging.simps(1) purging_after_answer)

lemma wants_purge_retains: "wants_purge cfg result = Some v \<Longrightarrow> num_versions_retain cfg = Some v"
  by (auto simp: wants_purge_def split: sum.splits bool.splits option.splits if_splits)

lemma purge_inv_step:
  "program_step lib cfg parse cmd glob_cfs glob_uncacheable p p' \<Longrightarrow> purge_inv cfg p \<Longrightarrow> purge_inv cfg p'"
proof (induction rule: program_step.induct)
  case (accept p rs k)
  then have fresh: "connections p (next_connection p) = None" unfolding purge_inv_def by blast
  from accept have bound: "connections p i \<noteq> None \<Longrightarrow> i < next_connection p" for i by (simp add: purge_inv_def)
  from accept have mutex: "purge_mutex p = Some i \<longleftrightarrow> (\<exists>conn. connections p i = Some conn \<and> purging conn)" for i
    by (simp add: purge_inv_def)
  from mutex [of "next_connection p"] fresh have "purge_mutex p \<noteq> Some (next_connection p)" by simp
  moreover from accept have "connections p i = Some (PurgingPackages k) \<Longrightarrow> num_versions_retain cfg \<noteq> None" for i k
    unfolding purge_inv_def by blast
  ultimately show ?case using mutex bound by (auto simp: purge_inv_def less_Suc_eq)
next
  case (hang_up p i tainted rs k x rs1 conn now)
  then have "\<not> purging conn" by (auto split: sum.splits client_response.splits)
  with hang_up show ?case by (auto simp: purge_inv_def)
next
  case (lock_purge p i result k)
  then show ?case by (auto simp: purge_inv_def dest: wants_purge_retains)
next
  case (purge_packages p i k v)
  then show ?case by (auto simp: purge_inv_def)
next
  case (purge_sizes p i k fs)
  then have "purge_mutex p = Some i" by (auto simp: purge_inv_def)
  with purge_sizes show ?case by (auto simp: purge_inv_def)
qed (auto simp: purge_inv_def)

lemma purge_inv_steps:
  "program_steps lib cfg parse cmd glob_cfs glob_uncacheable (program_new c) p \<Longrightarrow> purge_inv cfg p"
  by (induction rule: rtranclp_induct) (auto simp: purge_inv_def [of cfg "program_new c"] intro: purge_inv_step)

text \<open>Whoever holds the mutex runs on to its release, unless a path of the glob makes the purge panic.\<close>

lemma purge_ends:
  assumes "purge_inv cfg p" and "connections p i = Some a" and "purging a"
  shows "\<exists>p'. program_steps lib cfg parse cmd glob_cfs glob_uncacheable p p' \<and>
    (purge_mutex p' = None \<or> purge_cfs_files glob_cfs (context_files (ctx p')) = None)"
proof -
  let ?step = "program_step lib cfg parse cmd glob_cfs glob_uncacheable"
  have sizes: "\<exists>p'. ?step\<^sup>*\<^sup>* q p' \<and>
      (purge_mutex p' = None \<or> purge_cfs_files glob_cfs (context_files (ctx p')) = None)"
    if here: "connections q i = Some (PurgingSizes k)" for q k
  proof (cases "purge_cfs_files glob_cfs (context_files (ctx q))")
    case (Some fs)
    have "?step q (moves i (set_files fs (ctx q)) (CleaningUp k) (q\<lparr>purge_mutex := None\<rparr>))"
      by (rule program_step.purge_sizes [OF here Some])
    moreover have "purge_mutex (moves i (set_files fs (ctx q)) (CleaningUp k) (q\<lparr>purge_mutex := None\<rparr>)) = None" by simp
    ultimately show ?thesis by blast
  qed blast
  from assms(3) consider k where "a = PurgingPackages k" | k where "a = PurgingSizes k" by (cases a) auto
  then show ?thesis
  proof cases
    case 1
    with assms(1,2) obtain v where v: "num_versions_retain cfg = Some v" unfolding purge_inv_def by blast
    let ?q = "moves i (set_files (purge_cache cmd (cache_directory cfg) v (context_files (ctx p))) (ctx p)) (PurgingSizes k) p"
    have "?step p ?q" using assms(2) 1 v by (intro program_step.purge_packages) simp_all
    moreover have "connections ?q i = Some (PurgingSizes k)" by simp
    ultimately show ?thesis using sizes by (meson converse_rtranclp_into_rtranclp)
  next
    case 2
    with sizes assms(2) show ?thesis by blast
  qed
qed

text \<open>C12: At most one connection purges the cache at a time, whatever the interleaving: of two connections that
  are between locking the mutex and dropping it, both are the same one, and it holds the mutex. Nobody
  waits for it in vain: its holder can always run on to where it drops it, unless a path the glob yields
  makes the purge panic, which ends the process.\<close>

theorem one_purge_at_a_time:
  assumes "(program_step lib cfg parse cmd glob_cfs glob_uncacheable)\<^sup>*\<^sup>* (program_new c) p"
    and "connections p i = Some a" and "purging a" and "connections p j = Some b" and "purging b"
  shows "i = j \<and> purge_mutex p = Some i \<and>
    (\<exists>p'. (program_step lib cfg parse cmd glob_cfs glob_uncacheable)\<^sup>*\<^sup>* p p' \<and>
      (purge_mutex p' = None \<or> purge_cfs_files glob_cfs (files (world (ctx_shared (ctx p')))) = None))"
proof -
  have inv: "purge_inv cfg p" using purge_inv_steps [OF assms(1)] .
  then have "purge_mutex p = Some l \<longleftrightarrow> (\<exists>conn. connections p l = Some conn \<and> purging conn)" for l
    by (simp add: purge_inv_def)
  then have "purge_mutex p = Some i" "purge_mutex p = Some j" using assms(2-5) by blast+
  then show ?thesis using purge_ends [OF inv assms(2,3)] by simp
qed

text \<open>A request for an empty file that has to be downloaded, which taints the cache.\<close>

definition parse_n :: "string \<Rightarrow> request_parse" where
  "parse_n s = RequestComplete \<lparr>hr_headers = [], hr_path = Some ''/n'', hr_method = Some ''GET''\<rparr>"

definition tainting :: surroundings where
  "tainting = pkg_surroundings\<lparr>later := \<lambda>_. write_node (pkg_dir @ [Normal ''n'']) '''' (files pkg_world),
     received := [JobSize 0]\<rparr>"

lemma tainting_simps [simp]:
  "chunk tainting = (\<lambda>_ count. count)" "date tainting = ''now''" "fresh_uuid tainting = ''uuid''"
  "received tainting = [JobSize 0]"
  "later tainting t = write_node (pkg_dir @ [Normal ''n'']) '''' (files pkg_world)"
  by (simp_all add: tainting_def)

lemma tainting_request:
  "\<exists>k' c'. serve_request (pkg_libs ''8'' []) pkg_config tainting (pkg_request ''/n'') pkg_context patient_client =
    Some ((Inr RemoteMirror, k'), c')"
proof -
  let ?ord = "download_order_new ''uuid'' (str_path_new ''/n'')"
  have "map_option fst (try_schedule (download_trait (pkg_libs ''8'' []) pkg_config) ?ord None None pkg_context) =
      Some (Scheduled 0)" by code_simp
  then obtain c' where run: "try_schedule (download_trait (pkg_libs ''8'' []) pkg_config) ?ord None None pkg_context =
      Some (Scheduled 0, c')" by (rule map_option_fst_SomeE)
  have special: "\<not> special_path (pkg_request ''/n'')" unfolding special_path_def by code_simp
  have "open_read (later tainting 0) (pkg_dir @ [Normal ''n'']) = Inr (FileNode '''')" by code_simp
  then have "\<exists>k'. answer_outcome tainting pkg_config ?ord None (Scheduled 0) patient_client =
      Some (Inr RemoteMirror, k')"
    using pkg_paths(9)
    by (simp add: answer_outcome_def answer_scheduled_def receive_content_length_def answer_growing_def
        open_order_file_def cacheable_no_mkdir pkg_file_keys serve_from_growing_file_def remaining_content_length_def
        write_all_patient serve_growing_file_loop_def serve_loop.simps answered_def del: pkg_dir)
  moreover have "custom_provider_from_request (pkg_request ''/n'') (configured_repos pkg_config) =
      (None, pkg_request ''/n'')" by (simp add: no_repo)
  ultimately show ?thesis
    using serve_request_order [OF _ _ _ special, where lib = "pkg_libs ''8'' []" and env = tainting and c = pkg_context and
        k = patient_client]
      run pkg_paths(5,6) by (auto simp: Let_def)
qed

lemma parse_n_reads:
  "read_client_header parse_n [Inr ''a''] = (Inr (ClientRequest (pkg_request ''/n'')), [])"
  "read_client_header parse_n [] = (Inr SocketClosed, [])"
  by (simp_all add: read_client_header_def read_header_loop.simps [of _ "[]"] parse_n_def
      read_header_loop.simps [of _ "''a''"] MAX_HEADER_SIZE_def request_new_def resume_from_headers_def pkg_request_def)

theorem one_purge_at_a_time_witness:
  "\<exists>p. (program_step (pkg_libs ''8'' []) pkg_config parse_n (\<lambda>_ fs. fs) (\<lambda>_. []) (\<lambda>_. []))\<^sup>*\<^sup>*
      (program_new pkg_context) p \<and> purge_mutex p = Some 0"
proof -
  let ?steps = "program_steps (pkg_libs ''8'' []) pkg_config parse_n (\<lambda>_ fs. fs) (\<lambda>_. []) (\<lambda>_. [])"
  let ?p = "(program_new pkg_context)\<lparr>next_connection := Suc 0\<rparr>"
  let ?at = "\<lambda>c conn. moves 0 c conn ?p"
  obtain k c where serves: "serve_request (pkg_libs ''8'' []) pkg_config tainting (pkg_request ''/n'') pkg_context
      patient_client = Some ((Inr RemoteMirror, k), c)" using tainting_request by blast
  let ?purges = "moves 0 c (PurgingPackages k) (?p\<lparr>purge_mutex := Some 0\<rparr>)"
  have "?steps (program_new pkg_context) (?at pkg_context (AwaitRequest False [Inr ''a''] patient_client))"
    using program_step.accept [of _ _ _ _ _ _ "program_new pkg_context" "[Inr ''a'']" patient_client]
    by (simp add: program_new_def r_into_rtranclp)
  also have "?steps \<dots> (?at c (AwaitRequest True [] k))"
    using request_run [OF parse_n_reads(1) serves, of _ _ _ 0 False ?p] by (simp add: after_answer_def)
  also have "?steps \<dots> (?at c (Served (Inr True) k))"
    using program_step.hang_up [of "?at c (AwaitRequest True [] k)" 0 True "[]" k parse_n, OF _ parse_n_reads(2)]
    by (simp add: r_into_rtranclp)
  also have "?steps \<dots> ?purges"
    using program_step.lock_purge [of "?at c (Served (Inr True) k)" 0 "Inr True" k pkg_config]
    by (simp add: moves_def wants_purge_def pkg_config_def plain_config_def program_new_def r_into_rtranclp)
  finally have run: "?steps (program_new pkg_context) ?purges" .
  from one_purge_at_a_time [OF run, of 0 "PurgingPackages k" 0 "PurgingPackages k"]
  have "purge_mutex ?purges = Some 0" by simp
  with run show ?thesis by blast
qed

subsection \<open>The thread of a connection\<close>

lemma serve_client_loop_run:
  assumes "serve_client_loop lib cfg parse env others n tainted rs c k = Some result"
    and "\<And>n c. flexo_steps lib cfg handle c (others n c)"
  shows "program_steps lib cfg parse cmd glob_cfs glob_uncacheable (moves i c (AwaitRequest tainted rs k) p)
    (moves i (fst (snd result)) (Served (fst result) (snd (snd result))) p)"
  using assms
proof (induction rule: serve_client_loop.raw_induct [rotated 1, consumes 1, case_names step])
  case (step serve lib cfg parse env others n tainted rs c k result)
  let ?steps = "program_steps lib cfg parse cmd glob_cfs glob_uncacheable"
  let ?at = "\<lambda>c conn. moves i c conn p"
  have others: "?steps (?at c (AwaitRequest tainted rs k)) (?at (others n c) (AwaitRequest tainted rs k))"
    by (rule background_run [OF step(3)])
  obtain x rs1 where read: "read_client_header parse rs = (x, rs1)" by fastforce
  note run = step(2) [unfolded read prod.case]
  show ?case
  proof (cases "\<exists>req. x = Inr (ClientRequest req)")
    case True
    then obtain req where x: "x = Inr (ClientRequest req)" ..
    with run obtain r k1 c1 where answer: "serve_request lib cfg (env n) req (others n c) k = Some ((r, k1), c1)"
      by (auto simp: Option.bind_eq_Some_conv)
    from others request_run [OF read [unfolded x] answer]
    have here: "?steps (?at c (AwaitRequest tainted rs k)) (?at c1 (after_answer (date (env n)) tainted rs1 (r, k1)))"
      by (rule rtranclp_trans)
    show ?thesis
    proof (cases r)
      case (Inl e)
      with run x answer have "after_answer (date (env n)) tainted rs1 (r, k1) = Served (fst result) (snd (snd result))"
        "c1 = fst (snd result)"
        by (auto simp: after_answer_def split: prod.splits option.splits)
      with here show ?thesis by simp
    next
      case (Inr origin)
      with run x answer have "serve lib cfg parse env others (Suc n) (tainted \<or> origin = RemoteMirror) rs1 c1 k1 =
          Some result" by simp
      from step(1) [OF this step(3)] here Inr show ?thesis by (simp add: after_answer_def)
    qed
  next
    case False
    then have "program_step lib cfg parse cmd glob_cfs glob_uncacheable (?at (others n c) (AwaitRequest tainted rs k))
        (?at (fst (snd result)) (Served (fst result) (snd (snd result))))"
      using run program_step.hang_up [of "?at (others n c) (AwaitRequest tainted rs k)" i tainted rs k parse x rs1
          "Served (fst result) (snd (snd result))" "date (env n)"] read
      by (auto simp: after_answer_def split: sum.splits client_response.splits prod.splits option.splits)
    with others show ?thesis by (rule rtranclp.rtrancl_into_rtrancl)
  qed
qed


lemma after_client_cases:
  assumes "after_client cfg cmd glob_cfs age glob_uncacheable result fs = Some fs'"
  obtains (untainted) "wants_purge cfg result = None"
      "fs' = snd (purge_uncacheable_paths age (glob_uncacheable fs) fs)"
  | (tainted) v fs1 where "wants_purge cfg result \<noteq> None" "num_versions_retain cfg = Some v"
      "purge_cfs_files glob_cfs (purge_cache cmd (cache_directory cfg) v fs) = Some fs1"
      "fs' = snd (purge_uncacheable_paths age (glob_uncacheable fs1) fs1)"
  using assms by (auto simp: after_client_def wants_purge_def split: sum.splits bool.splits option.splits if_splits)

lemma set_files_simps [simp]:
  "context_files (set_files fs c) = fs" "set_files fs' (set_files fs c) = set_files fs' c"
  by (simp_all add: set_files_def)

lemma after_client_run:
  assumes "after_client cfg cmd glob_cfs age glob_uncacheable result (context_files c) = Some fs"
    and "purge_mutex p = None"
  shows "program_steps lib cfg parse cmd glob_cfs glob_uncacheable (moves i c (Served result k) p)
    (p\<lparr>ctx := set_files fs c, connections := (connections p)(i := None)\<rparr>)"
proof -
  let ?step = "program_step lib cfg parse cmd glob_cfs glob_uncacheable"
  have free: "p\<lparr>purge_mutex := None, ctx := x, connections := y\<rparr> = p\<lparr>ctx := x, connections := y\<rparr>" for x y
    using assms(2) by (cases p) simp
  let ?done = "p\<lparr>ctx := set_files fs c, connections := (connections p)(i := None)\<rparr>"
  have clean: "?step (moves i c1 (CleaningUp k) p) ?done"
    if "set_files (snd (purge_uncacheable_paths age (glob_uncacheable (context_files c1)) (context_files c1))) c1 =
      set_files fs c" for c1
    using program_step.clean_up [of "moves i c1 (CleaningUp k) p" i k _ age glob_uncacheable, OF _ refl] that
    by (simp add: moves_def)
  from assms(1) show ?thesis
  proof (cases rule: after_client_cases)
    case untainted
    have "?step (moves i c (Served result k) p) (moves i c (CleaningUp k) p)"
      using program_step.no_purge [of "moves i c (Served result k) p" i result k cfg] untainted(1) by simp
    then show ?thesis using clean [of c] untainted(2) by auto
  next
    case (tainted v fs1)
    let ?locked = "p\<lparr>purge_mutex := Some i\<rparr>"
    let ?purged = "set_files (purge_cache cmd (cache_directory cfg) v (context_files c)) c"
    have "?step (moves i c (Served result k) p) (moves i c (PurgingPackages k) ?locked)"
      using program_step.lock_purge [of "moves i c (Served result k) p" i result k cfg] tainted(1) assms(2)
      by (simp add: moves_def)
    moreover have "?step (moves i c (PurgingPackages k) ?locked) (moves i ?purged (PurgingSizes k) ?locked)"
      using program_step.purge_packages [of "moves i c (PurgingPackages k) ?locked" i k cfg v] tainted(2) by simp
    moreover have "?step (moves i ?purged (PurgingSizes k) ?locked) (moves i (set_files fs1 c) (CleaningUp k) p)"
      using program_step.purge_sizes [of "moves i ?purged (PurgingSizes k) ?locked" i k glob_cfs fs1] tainted(3) assms(2)
      by (simp add: moves_def free)
    moreover have "?step (moves i (set_files fs1 c) (CleaningUp k) p) ?done"
      using clean [of "set_files fs1 c"] tainted(4) by simp
    ultimately show ?thesis by (blast intro: converse_rtranclp_into_rtranclp)
  qed
qed

text \<open>C10: The thread of a connection, as the one function it is in the code, is a run of the interleaved program:
  reading and answering its requests, waiting for the mutex if the cache was tainted, purging, removing
  stale files and ending, while the other threads make whatever steps of the job context.\<close>

theorem connection_thread_runs:
  assumes "connection_thread lib cfg parse env others flexo_purge_cache glob_cfs age glob_uncacheable rs c k =
      Some (c', k')"
    and "\<And>n c. (ctx_step (download_trait lib cfg) handle)\<^sup>*\<^sup>* c (others n c)"
    and "purge_mutex p = None"
  shows "(program_step lib cfg parse flexo_purge_cache glob_cfs glob_uncacheable)\<^sup>*\<^sup>*
    (moves i c (AwaitRequest False rs k) p) (p\<lparr>ctx := c', connections := (connections p)(i := None)\<rparr>)"
proof -
  from assms(1) obtain result c1 fs where
    run: "serve_client_loop lib cfg parse env others 0 False rs c k = Some (result, c1, k')"
    and after: "after_client cfg flexo_purge_cache glob_cfs age glob_uncacheable result (context_files c1) = Some fs"
    and c': "c' = set_files fs c1"
    by (auto simp: connection_thread_def serve_client_def set_files_def Option.bind_eq_Some_conv)
  from serve_client_loop_run [OF run assms(2)] after_client_run [OF after assms(3)]
  show ?thesis unfolding c' fst_conv snd_conv by (rule rtranclp_trans)
qed

theorem connection_thread_runs_witness:
  "\<exists>c' k'. connection_thread (pkg_libs ''8'' []) pkg_config parse_status (\<lambda>_. pkg_surroundings) (\<lambda>_ c. c)
      (\<lambda>_ fs. fs) (\<lambda>_. []) (\<lambda>_. None) (\<lambda>_. []) [Inr ''a'', Inr ''b''] pkg_context patient_client = Some (c', k') \<and>
    (program_step (pkg_libs ''8'' []) pkg_config parse_status (\<lambda>_ fs. fs) (\<lambda>_. []) (\<lambda>_. []))\<^sup>*\<^sup>*
      (moves 0 pkg_context (AwaitRequest False [Inr ''a'', Inr ''b''] patient_client) (program_new pkg_context))
      ((program_new pkg_context)\<lparr>ctx := c', connections := (connections (program_new pkg_context))(0 := None)\<rparr>)"
proof -
  obtain c' k' where run: "connection_thread (pkg_libs ''8'' []) pkg_config parse_status (\<lambda>_. pkg_surroundings)
      (\<lambda>_ c. c) (\<lambda>_ fs. fs) (\<lambda>_. []) (\<lambda>_. None) (\<lambda>_. []) [Inr ''a'', Inr ''b''] pkg_context patient_client =
      Some (c', k')"
    by (simp add: connection_thread_def status_connection after_client_def)
  from connection_thread_runs [OF run rtranclp.rtrancl_refl, of "program_new pkg_context" 0] run
  show ?thesis by auto
qed

end
