(* ===== verification/Spec2Isabelle.thy ===== *)
theory Spec2Isabelle
  imports Order_Properties Context_Properties Config_Properties Path_Properties Cache_Properties
    Download_Properties Program_Properties
begin

text \<open>
  A model of Flexo, the caching proxy for the package manager pacman (the crate under
  \<open>src/flexo/src\<close>), and the properties that make it correct.

  \<^bold>\<open>The program.\<close> At start \<open>main\<close> reads the configuration (\<open>mirror_config.rs\<close>), brings
  the package cache into shape, and chooses the mirrors: a predefined one, or the fastest of those the
  JSON endpoint lists (\<open>mirror_fetch.rs\<close>), whose latencies are kept for the next start
  (\<open>mirror_cache.rs\<close>). Each client then has a thread of its own (\<open>serve_client\<close> in
  \<open>main.rs\<close>), which reads requests, rejects paths that could leave the cache, and asks the job
  context (\<open>lib.rs\<close>) to schedule the order. The context answers that the order is already being
  downloaded, that it is complete in the cache, that it must be redirected to a mirror, or that it has
  spawned a thread to download it. That thread runs the retry loop \<open>try_until_success\<close>: it picks
  a provider (\<open>provider_guards.rs\<close>), takes a channel, downloads through curl's callbacks into the
  cached file (\<open>mirror_flexo.rs\<close>), and sends the client's thread what it needs to answer: the
  content length, after which the client is sent the file while it grows.

  \<^bold>\<open>The theories\<close>, in the order they build on each other:
  \<^item> \<open>Flexo_Prelude\<close>: names of the machine integers, the string operations of the standard
    library that the sources call (\<open>split\<close>, \<open>trim\<close>, \<open>strip_prefix\<close>, \<open>parse\<close>,
    \<open>from_utf8\<close>), \<open>Ordering\<close>, generic lemmas.
  \<^item> \<open>Rust_Ord\<close>: the trait \<open>Ord\<close> as the locale \<open>rust_ord\<close> (a total preorder on the
    values where the comparison does not panic), its lexicographic derivation \<open>rust_ord_lex\<close>, and
    \<open>min_by_key\<close> and sorting, proved once inside it.
  \<^item> \<open>Provider_Guards\<close>: \<open>provider_guards.rs\<close>; the strong count of an \<open>Arc\<close> is a counter.
  \<^item> \<open>Order_Loop\<close>: the traits of \<open>lib.rs\<close> as the record \<open>job_trait\<close>; metrics,
    \<open>select_provider\<close>, \<open>get_channel\<close>, one attempt, the loop. The locale
    \<open>job_provider\<close> states what the loop relies on of an implementation, and proves that it returns
    and which provider it picks; \<open>world_invariant\<close> carries an invariant of the world through it.
  \<^item> \<open>Dummy_Job\<close>: the implementation of the repository's integration tests, for the witnesses.
  \<^item> \<open>Job_Context\<close>: \<open>JobContext\<close>: creation, \<open>try_schedule\<close>, \<open>schedule\<close>, what a
    spawned thread does at its end; the interleaving of the threads is the relation \<open>ctx_step\<close>.
  \<^item> \<open>Thread_Body\<close>: the closure that \<open>schedule\<close> spawns, as one function from taking the
    channel's lock to giving everything back; the locale \<open>fresh_handles\<close> states what handles must
    satisfy for it to be a run of \<open>ctx_step\<close>.
  \<^item> \<open>Mirror_Config\<close>: \<open>mirror_config.rs\<close>: settings, derived limits, the environment.
  \<^item> \<open>Str_Path\<close>, \<open>File_System\<close>: \<open>std::path\<close> and \<open>std::fs\<close> as far as used,
    \<open>str_path.rs\<close>, \<open>fs_utils.rs\<close>, and the guards of \<open>main.rs\<close>.
  \<^item> \<open>Download_Order\<close>: requests, orders, the file of an order, mirrors and their latencies,
    requests for custom repositories.
  \<^item> \<open>Cache\<close>: the \<open>.cfs\<close> files with the complete sizes, the inspection at start, purging.
  \<^item> \<open>Download\<close>: channels and curl's callbacks \<open>header\<close> and \<open>write\<close> (\<open>on_header\<close>,
    \<open>on_write\<close>), \<open>serve_from_provider\<close> (\<open>download_serve\<close>), scores; \<open>download_trait\<close>
    instantiates the traits, and the interpretations \<open>download\<close> and \<open>announcing\<close> discharge
    the laws of \<open>Order_Loop\<close> for it.
  \<^item> \<open>Flexo_Context\<close>: the handles of curl keep their tokens, idle channels hold no open file, and
    the interpretation \<open>flexo_handles\<close> of \<open>fresh_handles\<close> on \<open>download_trait\<close>.
  \<^item> \<open>Http_Headers\<close>, \<open>Serving\<close>: the headers byte by byte, \<open>send_payload\<close>,
    \<open>serve_growing_file_loop\<close> against the trait \<open>GrowingFileSource\<close> (locale
    \<open>growing_file\<close>, interpreted on the client's socket and file).
  \<^item> \<open>Client\<close>, \<open>Serve_Request\<close>: reading and parsing a request's header, waiting for the
    content length, \<open>serve_request\<close>, \<open>handle_client_error\<close>, \<open>serve_client\<close>, and the
    thread that \<open>main\<close> spawns for a connection (\<open>connection_thread\<close>).
  \<^item> \<open>Mirror_Selection\<close>, \<open>Startup\<close>: \<open>mirror_fetch.rs\<close>, \<open>mirror_cache.rs\<close>, the rating of
    mirrors and its retries, fallbacks, \<open>initialize_job_context\<close>, and the start of \<open>main\<close>
    (\<open>start_flexo\<close>).
  \<^item> \<open>Program\<close>: \<open>main\<close> up to the listener (\<open>flexo_main\<close>), and then as a whole: the
    connections it accepts, each in a phase of its thread, the mutex for purging, and the threads of the
    orders; their interleaving is the relation \<open>program_step\<close>.
  \<^item> the theories named \<open>..._Properties\<close> hold the numbered properties (C1, C2, ...), each with a
    concrete instance (\<open>..._witness\<close>) where it has hypotheses.

  \<^bold>\<open>What is shown.\<close>
  \<^item> Scheduling: \<open>try_schedule\<close> refines an abstract decision; in every reachable state an order is
    downloaded by one thread at most and no connection is in two places; but an order leaves the set of
    orders in progress before its file is released; what an order takes of the
    providers' guards it gives back (\<open>Context_Properties\<close>).
  \<^item> The loop: it always returns, tries each provider at most once and at most 25, picks the best
    provider that has not failed yet; a failed order leaves everyone's failures as they were, a
    successful one raises those of providers tried before the last (\<open>Order_Properties\<close>).
  \<^item> Downloads: a successful transfer leaves the old bytes followed by the body and a cache that knows
    the file to be complete; transfers resume where the file ends; curl's callbacks always find the state
    they unwrap, and the four ways in which a job can panic or never end nevertheless (\<open>job_stuck\<close>), a
    full disk being one (\<open>Download_Properties\<close>).
  \<^item> The cache: sizes round-trip, lookups are idempotent, the inspection settles every listed file,
    purging never loses the size of a file that is still there (\<open>Cache_Properties\<close>).
  \<^item> Clients: no request below a relative path leaves the cache; complete files and growing files are
    delivered byte for byte; stalled downloads time out; the client's thread understands the first
    message the downloading thread sends (\<open>Path_Properties\<close>, \<open>Serving_Properties\<close>,
    \<open>Client_Properties\<close>, \<open>Request_Properties\<close>). A connection is a conversation of answered
    requests, reports the cache as tainted exactly if one was answered by a mirror, and its thread is a
    run of the state machine of the job context (\<open>Connection_Properties\<close>).
  \<^item> The program: from its start on, however its threads interleave, the invariants of the job context
    hold and there are mirrors; one connection purges at a time, and gets to the end of it; the thread of a
    connection, as one function, is a run of the program (\<open>Program_Properties\<close>).
  \<^item> Start: ratings are sound and sorted, fetching is retried a bounded number of times, results
    round-trip, the program never runs without mirrors (\<open>Startup_Properties\<close>); limits and the
    environment (\<open>Config_Properties\<close>).
  \<^item> Together (below): the thread of an order is a run of the state machine, so that every invariant of
    the latter holds after it; a file that a thread has downloaded is served from the cache from then
    on; and the client that asked for it is sent the file while it grows.
  \<^item> Several properties state defects: a path with two leading slashes leaves the cache, a request for
    a directory or below a cached file, an empty body, a full disk, the metrics sent twice, relaxing
    that does not accumulate, counters and limits that wrap around.

  \<^bold>\<open>Conventions.\<close> A function that can panic returns an option whose None is the panic; the panic
  hook of \<open>main\<close> then ends the process; for a download it is also a transfer that a callback has
  paused, since nothing resumes it. Functions written with \<open>partial_function\<close> (the loops
  of \<open>Serving\<close> and \<open>Client\<close> and those that call them) also have None for a loop that does not
  end, so a property that says Some says that they return. A \<open>Result\<close> is a sum with the error on
  the left. Integers have the width of the source and wrap around, as in a release build; sizes of files
  are assumed below \<open>2 ^ 63\<close> where a property needs it. A string is the list of its bytes.

  \<^bold>\<open>Parameters.\<close> Code of other crates is an argument: \<open>curl\<close> (what a transfer delivers and how
  it ends), \<open>httparse\<close>, \<open>serde_json\<close>, \<open>toml\<close>, \<open>regex\<close>, \<open>humantime\<close>,
  \<open>chrono\<close>, \<open>httpdate\<close>, \<open>uuid\<close>, the paths a walk of a directory yields, floating-point
  arithmetic. So is whether an address can be listened on. What other threads do is an argument too: an
  interference function between the lock acquisitions of the loop (hypothesis \<open>rely\<close>: they never
  change the list of providers), and in serving the file systems the thread sees later and the pace at
  which a file grows; \<open>program_step\<close> leaves it to the interleaving. The file system has
  no links; the standard library's unstable sort is one that keeps equal elements in order; case
  conversion is that of ASCII.

  \<^bold>\<open>Bounds.\<close> \<open>NUM_MAX_ATTEMPTS\<close> (25) attempts for an order, 2000 looks for a \<open>.cfs\<close> file,
  20000 polls of a file that does not grow (10 s by 500 microseconds), 8192 bytes of a request header,
  8 attempts to fetch the list of mirrors, 5 to rate them: each is the code's own constant, and the
  recursion of the model is bounded by it. No fuel is used anywhere.

  \<^bold>\<open>Not modelled.\<close> Logging and the sizes it prints; the panic hook, but for its effect that a panic
  has no step; what the external command \<open>flexo_purge_cache\<close> does, which is an argument of
  \<open>purge_cache\<close>; the flush by toggling TCP\_NODELAY; the time an order takes (the code only logs it); the decoding of the TOML file,
  an argument of \<open>mirror_config_from_toml\<close>; file systems with links, and files removed by others
  while they are open.
\<close>

section \<open>The components together\<close>

subsection \<open>The thread of an order and the state machine\<close>

text \<open>C9: The closure that \<open>schedule\<close> spawns refines the state machine in which the invariants are
  proved: however its order goes, with other threads that leave the idle connections alone, the closure is
  a sequence of steps of the machine; a new connection's handle is not in use; and at the end the thread is
  gone, its mutex unlocked and its order no longer in progress.\<close>

theorem thread_refines_steps:
  assumes "thread_body (download_trait lib cfg) env t ord cp c = Some (out, c')" and "quiet next_handle env"
    and "threads c t = Some (Running ord None)" and "handles_below handle c (next_handle (world (ctx_shared c)))"
  shows "(ctx_step (download_trait lib cfg) handle)\<^sup>*\<^sup>* c c' \<and>
    handles_below handle c' (next_handle (world (ctx_shared c'))) \<and> threads c' = (threads c)(t := None) \<and>
    thread_mutex c' = (thread_mutex c)(t := Unlocked) \<and>
    orders_in_progress c' = orders_in_progress c - {ord}"
  using assms by (rule flexo_handles.thread_body_steps)

definition locked_serving :: flexo_context where
  "locked_serving = pkg_context\<lparr>ctx_shared := locked_shared, orders_in_progress := {pkg_order ''b''},
     panic_monitor := [0], threads := [0 \<mapsto> Running (pkg_order ''b'') None], next_thread := 1\<rparr>"

lemma locked_serving_below: "handles_below handle locked_serving n"
  by (auto simp: handles_below_def locked_serving_def locked_shared_def pkg_shared_def channel_at_def
      split: sum.splits if_splits)

theorem thread_refines_steps_witness:
  "\<exists>out c'. thread_body (download_trait (pkg_libs ''8'' []) pkg_config) no_interference 0 (pkg_order ''b'')
      (Some pkg_mirror) locked_serving = Some (out, c') \<and>
    (ctx_step (download_trait (pkg_libs ''8'' []) pkg_config) handle)\<^sup>*\<^sup>* locked_serving c' \<and>
    orders_in_progress c' = {}"
proof -
  have "map_option (\<lambda>_. ()) (thread_body (download_trait (pkg_libs ''8'' []) pkg_config) no_interference 0
      (pkg_order ''b'') (Some pkg_mirror) locked_serving) = Some ()" by code_simp
  then obtain out c' where run: "thread_body (download_trait (pkg_libs ''8'' []) pkg_config) no_interference 0
      (pkg_order ''b'') (Some pkg_mirror) locked_serving = Some (out, c')" by auto
  have "quiet next_handle no_interference" by (simp add: quiet_def)
  moreover have "threads locked_serving 0 = Some (Running (pkg_order ''b'') None)"
    "orders_in_progress locked_serving = {pkg_order ''b''}"
    by (simp_all add: locked_serving_def)
  ultimately show ?thesis
    using thread_refines_steps [OF run _ _ locked_serving_below] run by auto
qed

subsection \<open>Downloading, then serving\<close>













text \<open>C6: Whoever asks for an order that is being downloaded gets it while it grows: whether the request
  started the download (and its thread announced the size) or came later (and the size was found in the
  \<open>cfs\<close> file), the client gets a prefix of the header and the file from the start of its range, all of
  it if the request succeeds; and for a client that keeps reading the only failure is the time-out of a
  stalled download.\<close>

theorem growing_order_served:
  assumes "custom_provider_from_request req (configured_repos cfg) = (cp, req')"
    and "permitted_path (path_buf (path req'))" and "valid_path (path_buf (path req'))" and "\<not> special_path req'"
    and "ord = download_order_new (fresh_uuid env) (path req')" and "download_is_cacheable ord"
    and "try_schedule (download_trait lib cfg) ord cp (resume_from req') c = Some (out, c')"
    and "(\<exists>t ms. out = Scheduled t \<and> received env = JobSize (len_u64 F) # ms \<and> moment = 0) \<or>
      (out = AlreadyInProgress \<and>
        try_complete_filesize_from_path (later env) (file_key cfg ord) = (Inr (len_u64 F), moment))"
    and "open_read (later env moment) (file_key cfg ord) = Inr n"
    and "grows_to (\<lambda>t. contents_at (file_key cfg ord) (later env (moment + t))) F"
    and "moves_bytes (chunk env)"
    and "reply = file_header RemoteMirror (date env) (remaining_content_length (len_u64 F) (resume_from req'))
        (resume_from req') @ drop (unat (range_start (resume_from req'))) F"
  shows "\<exists>result k'. serve_request lib cfg env req c k = Some ((result, k'), c') \<and>
    (\<exists>n. sent k' = sent k @ take n reply) \<and> (result = Inr RemoteMirror \<longrightarrow> sent k' = sent k @ reply) \<and>
    (accepts k = None \<longrightarrow> result = Inr RemoteMirror \<or> result = Inl (IoError TimedOut))"
proof -
  let ?p = "file_key cfg ord" and ?resume = "resume_from req'"
  have "\<exists>result k'. answer_growing env cfg ord moment (len_u64 F) ?resume k = Some (result, k') \<and>
    (\<exists>n. sent k' = sent k @ take n reply) \<and> (result = Inr RemoteMirror \<longrightarrow> sent k' = sent k @ reply) \<and>
    (accepts k = None \<longrightarrow> result = Inr RemoteMirror \<or> result = Inl (IoError TimedOut))"
  proof -
    have "open_order_file cfg ord (later env moment) = Some (Inr n)"
      using assms(6,9) by (simp add: open_order_file_def cacheable_no_mkdir)
    moreover obtain r k' where
      "serve_from_growing_file (chunk env) (date env)
        (\<lambda>t. contents_at ?p (later env (moment + t))) (remaining_content_length (len_u64 F) ?resume) ?resume k = Some (r, k')"
      and "\<exists>n. sent k' = sent k @ take n reply" and "r = None \<longrightarrow> sent k' = sent k @ reply"
      and "accepts k = None \<longrightarrow> r = None \<or> r = Some TimedOut"
      using growing_delivers [OF assms(11,10) refl assms(12)] by blast
    ultimately show ?thesis
      by (cases r) (auto simp: answer_growing_def answered_def)
  qed
  moreover have "answer_outcome env cfg ord ?resume out k = answer_growing env cfg ord moment (len_u64 F) ?resume k"
    using assms(8)
    by (auto simp: answer_outcome_def answer_scheduled_def answer_in_progress_def receive_content_length_def)
  moreover have "drop_outcome out c' = c'" using assms(8) by auto
  ultimately show ?thesis
    using serve_request_order [OF assms(1-4), of lib env c k] assms(5,7) by (auto simp: Let_def)
qed

definition growing_surroundings :: surroundings where
  "growing_surroundings = pkg_surroundings\<lparr>later := \<lambda>t. write_node (pkg_dir @ [Normal ''n'']) (take (3 * t) ''abcdef'')
     (files pkg_world), received := [JobSize 6]\<rparr>"

lemma growing_surroundings_simps [simp]:
  "chunk growing_surroundings = (\<lambda>_ count. count)" "date growing_surroundings = ''now''"
  "fresh_uuid growing_surroundings = ''uuid''" "received growing_surroundings = [JobSize 6]"
  "later growing_surroundings t = write_node (pkg_dir @ [Normal ''n'']) (take (3 * t) ''abcdef'') (files pkg_world)"
  by (simp_all add: growing_surroundings_def)

lemma pkg_opens_n: "open_read (later growing_surroundings 0) (pkg_dir @ [Normal ''n'']) = Inr (FileNode '''')"
  by code_simp

lemma pkg_schedules_n:
  "map_option fst (try_schedule (download_trait (pkg_libs ''8'' []) pkg_config)
      (download_order_new ''uuid'' (str_path_new ''/n'')) None None pkg_context) = Some (Scheduled 0)"
  by code_simp

theorem growing_order_served_witness:
  "\<exists>result k' c'. serve_request (pkg_libs ''8'' []) pkg_config growing_surroundings (pkg_request ''/n'') pkg_context
      patient_client = Some ((result, k'), c') \<and>
    sent k' \<in> {take n (file_header RemoteMirror ''now'' 6 None @ ''abcdef'') | n. True}"
proof -
  let ?ord = "download_order_new ''uuid'' (str_path_new ''/n'')"
  obtain c' where run: "try_schedule (download_trait (pkg_libs ''8'' []) pkg_config) ?ord None None pkg_context =
      Some (Scheduled 0, c')"
    using pkg_schedules_n by (rule map_option_fst_SomeE)
  have special: "\<not> special_path (pkg_request ''/n'')" unfolding special_path_def by code_simp
  have paths: "permitted_path (path_buf (path (pkg_request ''/n'')))" "valid_path (path_buf (path (pkg_request ''/n'')))"
    using pkg_paths(5,6) by simp_all
  have len: "len_u64 ''abcdef'' = 6" by code_simp
  have grows: "grows_to (\<lambda>t. contents_at (file_key pkg_config ?ord) (later growing_surroundings (0 + t))) ''abcdef''"
    by (simp add: grows_to_def contents_at_def pkg_file_keys min_def)
  have "\<exists>result k'. serve_request (pkg_libs ''8'' []) pkg_config growing_surroundings (pkg_request ''/n'') pkg_context
      patient_client = Some ((result, k'), c') \<and>
    (\<exists>n. sent k' = sent patient_client @ take n (file_header RemoteMirror ''now'' 6 None @ ''abcdef'')) \<and>
    (result = Inr RemoteMirror \<longrightarrow> sent k' = sent patient_client @ (file_header RemoteMirror ''now'' 6 None @ ''abcdef'')) \<and>
    (accepts patient_client = None \<longrightarrow> result = Inr RemoteMirror \<or> result = Inl (IoError TimedOut))"
    by (rule growing_order_served [where cp = None and req' = "pkg_request ''/n''" and ord = ?ord and F = "''abcdef''"
          and moment = 0 and out = "Scheduled 0", OF _ paths special _ pkg_paths(9) _ _ _ grows])
      (use run pkg_opens_n len in \<open>simp_all add: pkg_file_keys no_repo moves_bytes_def
        remaining_content_length_def range_start_def\<close>)
  then show ?thesis by auto
qed

end
